theory Spec2Isabelle
  imports Main
begin

section \<open>Values, slots and outcomes\<close>

text \<open>
  The configuration record belongs to the caller; the sources only hold pointers into
  it. A pointer is an address, and the store maps addresses to the current value of the
  slot, one map per Go type (a \<open>*string\<close> never aliases a \<open>*int\<close>). The store also keeps
  the calls made to remaining-arguments callbacks, the only other effect on the caller
  visible from here: an entry is the callback's identity and the argument it received.
  Go strings are byte strings; names and values are taken to be ASCII where the code
  changes case or trims blanks. Go's \<open>int\<close> is the 64-bit one.
\<close>

type_synonym addr = nat

record store =
  strings :: "addr \<Rightarrow> string"
  ints :: "addr \<Rightarrow> int"
  bools :: "addr \<Rightarrow> bool"
  remaining_calls :: "(nat \<times> string list) list"

text \<open>\<open>reflect.Kind\<close>, with the kinds the loader never looks at under \<open>KOther\<close> (carrying
  the name \<open>Kind.String()\<close> prints).\<close>

datatype Kind = KInvalid | KBool | KInt | KString | KStruct | KPointer | KOther string

fun Kind_String :: "Kind \<Rightarrow> string" where
  "Kind_String KInvalid = ''invalid''"
| "Kind_String KBool = ''bool''"
| "Kind_String KInt = ''int''"
| "Kind_String KString = ''string''"
| "Kind_String KStruct = ''struct''"
| "Kind_String KPointer = ''ptr''"
| "Kind_String (KOther s) = s"

text \<open>Errors are values. \<open>errorString\<close> is an error made without a cause (its text);
  \<open>wrapError prefix e\<close> is \<open>fmt.Errorf(prefix + "%w", e)\<close>; \<open>fallbackError\<close> is the binder's
  \<open>"failed to parse fallback value %q as <kind>: %w"\<close>; \<open>NumError\<close> is
  \<open>*strconv.NumError\<close> (function, input, cause); \<open>flagError\<close> is an error of package
  flag (its text), \<open>flagInvalidValue\<close> its \<open>"invalid value %q for flag -%s: %v"\<close> and
  \<open>flagInvalidBoolean\<close> its \<open>"invalid boolean value %q for -%s: %v"\<close> (value, name,
  cause); \<open>libraryError\<close> is an error of the operating system (its text).\<close>

datatype strconvErr = ErrSyntax | ErrRange

datatype error =
    errorString string
  | wrapError string error
  | fallbackError Kind string error
  | NumError string string strconvErr
  | flagError string
  | flagInvalidValue string string error
  | flagInvalidBoolean string string error
  | libraryError string

text \<open>A panic ends the program; nothing of the state is observed after it.\<close>

datatype panic =
    NilDereference
  | FlagRedefined string
  | FlagBeginsWithMinus string
  | FlagContainsEquals string
  | UnexportedFieldInterface
  | InterfaceConversion
  | ZeroValueField
  | NilTypeKind

datatype 'a exec = Returns 'a | Panics panic

section \<open>Typed destinations (\<open>typ\<close>, here \<open>typ_rec\<close>)\<close>

record typ_rec =
  kind :: Kind
  intVal :: "addr option"
  stringVal :: "addr option"
  boolVal :: "addr option"

definition Empty :: "store \<Rightarrow> typ_rec \<Rightarrow> bool" where
  "Empty h t =
     (case kind t of
        KString \<Rightarrow> (case stringVal t of None \<Rightarrow> True | Some a \<Rightarrow> strings h a = '''')
      | KInt \<Rightarrow> intVal t = None
      | KBool \<Rightarrow> boolVal t = None
      | _ \<Rightarrow> True)"

text \<open>The three composite literals the registration methods build.\<close>

definition typ_string :: "addr option \<Rightarrow> typ_rec" where
  "typ_string to = \<lparr>kind = KString, intVal = None, stringVal = to, boolVal = None\<rparr>"

definition typ_int :: "addr option \<Rightarrow> typ_rec" where
  "typ_int to = \<lparr>kind = KInt, intVal = to, stringVal = None, boolVal = None\<rparr>"

definition typ_bool :: "addr option \<Rightarrow> typ_rec" where
  "typ_bool to = \<lparr>kind = KBool, intVal = None, stringVal = None, boolVal = to\<rparr>"

section \<open>Go maps and their iteration order\<close>

text \<open>
  A map that the code ranges over is an association list read through \<open>map_of\<close>: the
  assignment \<open>m[k] = v\<close> puts the pair in front, where it shadows an older one. Go
  leaves the order of \<open>range\<close> over a map open. Each source therefore carries an order
  hint, an arbitrary list of names: the loop visits the keys the hint lists, in the
  hint's order, and then the keys it does not list. Every hint yields an enumeration of
  the keys without repetition, and every such enumeration is the result of some hint, so
  a theorem for all hints holds for every order Go may choose.
\<close>

definition map_keys :: "(string \<times> 'v) list \<Rightarrow> string list" where
  "map_keys m = remdups (map fst m)"

definition range_keys :: "string list \<Rightarrow> (string \<times> 'v) list \<Rightarrow> string list" where
  "range_keys hint m =
     filter (\<lambda>k. k \<in> set (map fst m)) (remdups hint) @ filter (\<lambda>k. k \<notin> set hint) (map_keys m)"

definition range_order :: "string list \<Rightarrow> (string \<times> 'v) list \<Rightarrow> (string \<times> 'v) list" where
  "range_order hint m =
     List.map_filter (\<lambda>k. map_option (Pair k) (map_of m k)) (range_keys hint m)"

section \<open>Package strings and strconv\<close>

definition ReplaceAll :: "string \<Rightarrow> char \<Rightarrow> char \<Rightarrow> string" where
  "ReplaceAll s old new = map (\<lambda>c. if c = old then new else c) s"

definition toUpper_char :: "char \<Rightarrow> char" where
  "toUpper_char c =
     (let n = (of_char c :: nat) in if 97 \<le> n \<and> n \<le> 122 then char_of (n - 32) else c)"

definition ToUpper :: "string \<Rightarrow> string" where
  "ToUpper s = map toUpper_char s"

definition HasPrefix :: "string \<Rightarrow> string \<Rightarrow> bool" where
  "HasPrefix s p = (take (length p) s = p)"

definition TrimPrefix :: "string \<Rightarrow> string \<Rightarrow> string" where
  "TrimPrefix s p = (if HasPrefix s p then drop (length p) s else s)"

fun Contains :: "string \<Rightarrow> string \<Rightarrow> bool" where
  "Contains [] sub = (sub = [])"
| "Contains (c # cs) sub = (HasPrefix (c # cs) sub \<or> Contains cs sub)"

fun Join :: "string list \<Rightarrow> string \<Rightarrow> string" where
  "Join [] sep = []"
| "Join [x] sep = x"
| "Join (x # y # ys) sep = x @ sep @ Join (y # ys) sep"

text \<open>\<open>strings.Split(s, sep)\<close> for a separator of one byte: always at least one part.\<close>

fun split_acc :: "char \<Rightarrow> string \<Rightarrow> string \<Rightarrow> string list" where
  "split_acc sep cur [] = [cur]"
| "split_acc sep cur (c # cs) =
     (if c = sep then cur # split_acc sep [] cs else split_acc sep (cur @ [c]) cs)"

definition Split :: "string \<Rightarrow> char \<Rightarrow> string list" where
  "Split s sep = split_acc sep [] s"

definition isSpace :: "char \<Rightarrow> bool" where
  "isSpace c = (c \<in> set [CHR 0x09, CHR 0x0A, CHR 0x0B, CHR 0x0C, CHR 0x0D, CHR 0x20])"

definition TrimSpace :: "string \<Rightarrow> string" where
  "TrimSpace s = rev (dropWhile isSpace (rev (dropWhile isSpace s)))"

definition isDigit :: "char \<Rightarrow> bool" where
  "isDigit c = (c \<in> set ''0123456789'')"

definition digitVal :: "char \<Rightarrow> nat" where
  "digitVal c = of_char c - 48"

definition digitChar :: "nat \<Rightarrow> char" where
  "digitChar d = char_of (48 + d)"

fun digitsVal :: "nat \<Rightarrow> string \<Rightarrow> nat" where
  "digitsVal acc [] = acc"
| "digitsVal acc (c # cs) = digitsVal (10 * acc + digitVal c) cs"

definition minInt :: int where "minInt = - (2 ^ 63)"
definition maxInt :: int where "maxInt = 2 ^ 63 - 1"

text \<open>\<open>strconv.Atoi\<close>: an optional sign, then one or more decimal digits; the value must
  fit the 64-bit \<open>int\<close>.\<close>

definition Atoi :: "string \<Rightarrow> error + int" where
  "Atoi s =
     (let neg = (s \<noteq> [] \<and> hd s = CHR ''-'');
          ds = (if s \<noteq> [] \<and> (hd s = CHR ''-'' \<or> hd s = CHR ''+'') then tl s else s)
      in if ds = [] \<or> \<not> list_all isDigit ds then Inl (NumError ''Atoi'' s ErrSyntax)
         else let v = (if neg then - int (digitsVal 0 ds) else int (digitsVal 0 ds))
              in if v < minInt \<or> maxInt < v then Inl (NumError ''Atoi'' s ErrRange)
                 else Inr v)"

definition ParseBool :: "string \<Rightarrow> error + bool" where
  "ParseBool s =
     (if s \<in> set [''1'', ''t'', ''T'', ''TRUE'', ''true'', ''True''] then Inr True
      else if s \<in> set [''0'', ''f'', ''F'', ''FALSE'', ''false'', ''False''] then Inr False
      else Inl (NumError ''ParseBool'' s ErrSyntax))"

text \<open>\<open>fmt.Sprintf("%d", n)\<close>.\<close>

fun natDigits :: "nat \<Rightarrow> string" where
  "natDigits n = (if n < 10 then [digitChar n] else natDigits (n div 10) @ [digitChar (n mod 10)])"

definition FormatInt :: "int \<Rightarrow> string" where
  "FormatInt n = (if n < 0 then CHR ''-'' # natDigits (nat (- n)) else natDigits (nat n))"

section \<open>Package dotenv\<close>

text \<open>An \<open>io.ReadCloser\<close>: the bytes it delivers, whether \<open>Close\<close> has been called, and
  what \<open>Close\<close> returns. The lines are those of \<open>bufio.Scanner\<close> (split at a newline, one
  trailing carriage return dropped, no empty line after the last newline); the
  scanner's bound on the length of a line is not modelled.\<close>

record reader =
  rd_content :: string
  rd_closed :: bool
  rd_close_error :: "error option"

definition dropCR :: "string \<Rightarrow> string" where
  "dropCR l = (if l \<noteq> [] \<and> last l = CHR 0x0D then butlast l else l)"

fun scan_acc :: "string \<Rightarrow> string \<Rightarrow> string list" where
  "scan_acc cur [] = (if cur = [] then [] else [dropCR cur])"
| "scan_acc cur (c # cs) =
     (if c = CHR 0x0A then dropCR cur # scan_acc [] cs else scan_acc (cur @ [c]) cs)"

definition ScanLines :: "string \<Rightarrow> string list" where
  "ScanLines s = scan_acc [] s"

fun parse_lines :: "nat \<Rightarrow> string list \<Rightarrow> (string \<rightharpoonup> string) \<Rightarrow> error + (string \<rightharpoonup> string)" where
  "parse_lines lineNr [] m = Inr m"
| "parse_lines lineNr (l # ls) m =
     (let lineNr = lineNr + 1; line = TrimSpace l
      in if HasPrefix line ''#'' then parse_lines lineNr ls m
         else if line = [] then parse_lines lineNr ls m
         else let parts = Split line (CHR ''='')
              in if length parts < 2
                 then Inl (errorString (''malformed line '' @ FormatInt (int lineNr) @ '': '' @ line))
                 else let key = TrimSpace (hd parts);
                          val = (if length parts > 2 then Join (tl parts) ''=''
                                 else TrimSpace (parts ! 1))
                      in parse_lines lineNr ls (m(key \<mapsto> val)))"

definition ParseReader :: "string \<Rightarrow> error + (string \<rightharpoonup> string)" where
  "ParseReader content = parse_lines 0 (ScanLines content) Map.empty"

text \<open>What the process gives the program: the environment, the arguments after the
  program name, and the content of the file \<open>.env\<close> of the working directory (\<open>None\<close>
  when it cannot be opened).\<close>

record os =
  Getenv :: "string \<Rightarrow> string"
  Args :: "string list"
  dotenv_file :: "string option"

text \<open>\<open>dotenv.Parse\<close> opens \<open>.env\<close>, parses it and closes it on every path.\<close>

definition dotenv_Parse :: "os \<Rightarrow> error + (string \<rightharpoonup> string)" where
  "dotenv_Parse sys =
     (case dotenv_file sys of
        None \<Rightarrow> Inl (wrapError ''failed to open file: '' (libraryError ''open .env''))
      | Some content \<Rightarrow>
          (case ParseReader content of
             Inl err \<Rightarrow> Inl (wrapError ''error reading .env: '' err)
           | Inr m \<Rightarrow> Inr m))"

section \<open>The environment source (\<open>EnvProvider\<close>)\<close>

record EnvProvider =
  withDotEnv :: bool
  dotEnvReader :: "reader option"
  getenv :: "string \<Rightarrow> string"
  env_m :: "(string \<times> typ_rec) list"
  fallbacks :: "string \<rightharpoonup> string"
  env_required :: "string list"
  env_missing :: "string list"
  env_hint :: "string list"

definition NewEnvProvider :: "(string \<Rightarrow> string) \<Rightarrow> string list \<Rightarrow> EnvProvider" where
  "NewEnvProvider g hint =
     \<lparr>withDotEnv = False, dotEnvReader = None, getenv = g, env_m = [],
      fallbacks = Map.empty, env_required = [], env_missing = [], env_hint = hint\<rparr>"

definition WithDotEnv :: "reader option \<Rightarrow> EnvProvider \<Rightarrow> EnvProvider" where
  "WithDotEnv r p =
     (let p = p\<lparr>withDotEnv := True\<rparr>
      in case r of None \<Rightarrow> p | Some rd \<Rightarrow> p\<lparr>dotEnvReader := Some rd\<rparr>)"

definition EnvProvider_StringVar ::
  "addr option \<Rightarrow> string \<Rightarrow> string \<Rightarrow> bool \<Rightarrow> EnvProvider \<Rightarrow> EnvProvider" where
  "EnvProvider_StringVar to name fallback req p =
     (let p = p\<lparr>env_m := (name, typ_string to) # env_m p\<rparr>;
          p = (if fallback \<noteq> '''' then p\<lparr>fallbacks := (fallbacks p)(name \<mapsto> fallback)\<rparr> else p)
      in if req then p\<lparr>env_required := env_required p @ [name]\<rparr> else p)"

definition EnvProvider_IntVar ::
  "addr option \<Rightarrow> string \<Rightarrow> int \<Rightarrow> bool \<Rightarrow> EnvProvider \<Rightarrow> EnvProvider" where
  "EnvProvider_IntVar to name fallback req p =
     (let p = p\<lparr>env_m := (name, typ_int to) # env_m p\<rparr>;
          p = (if fallback \<noteq> 0 then p\<lparr>fallbacks := (fallbacks p)(name \<mapsto> FormatInt fallback)\<rparr>
               else p)
      in if req then p\<lparr>env_required := env_required p @ [name]\<rparr> else p)"

definition EnvProvider_BoolVar ::
  "addr option \<Rightarrow> string \<Rightarrow> bool \<Rightarrow> bool \<Rightarrow> EnvProvider \<Rightarrow> EnvProvider" where
  "EnvProvider_BoolVar to name fallback req p =
     (let p = p\<lparr>env_m := (name, typ_bool to) # env_m p\<rparr>;
          p = (if fallback then p\<lparr>fallbacks := (fallbacks p)(name \<mapsto> ''true'')\<rparr>
               else p\<lparr>fallbacks := (fallbacks p)(name \<mapsto> ''false'')\<rparr>)
      in if req then p\<lparr>env_required := env_required p @ [name]\<rparr> else p)"

text \<open>\<open>AddDotEnv\<close>: the error it returns, and the source afterwards. With a reader, the
  content is parsed and then the reader is closed; a parse failure returns before the
  close. Without one, the file \<open>.env\<close> is parsed.\<close>

definition AddDotEnv :: "os \<Rightarrow> EnvProvider \<Rightarrow> error option \<times> EnvProvider" where
  "AddDotEnv sys p =
     (let overlay = (\<lambda>dotenvs p. p\<lparr>getenv :=
            (\<lambda>name. case dotenvs name of Some v \<Rightarrow> v | None \<Rightarrow> getenv p name)\<rparr>)
      in case dotEnvReader p of
        Some rd \<Rightarrow>
          (case ParseReader (rd_content rd) of
             Inl err \<Rightarrow> (Some (wrapError ''failed to parse .env file: '' err), p)
           | Inr dotenvs \<Rightarrow>
               (let p = p\<lparr>dotEnvReader := Some (rd\<lparr>rd_closed := True\<rparr>)\<rparr>
                in case rd_close_error rd of
                     Some err \<Rightarrow> (Some (wrapError ''failed to close .env file: '' err), p)
                   | None \<Rightarrow> (None, overlay dotenvs p)))
      | None \<Rightarrow>
          (case dotenv_Parse sys of
             Inl err \<Rightarrow> (Some (wrapError ''failed to parse .env file: '' err), p)
           | Inr dotenvs \<Rightarrow> (None, overlay dotenvs p)))"

text \<open>The value the loop of \<open>Load\<close> resolves for a name: the lookup of the upper-snake
  name, replaced by the registered fallback when it is empty.\<close>

definition uppersnake :: "string \<Rightarrow> string" where
  "uppersnake name = ToUpper (ReplaceAll name (CHR ''-'') (CHR ''_''))"

definition rawVal :: "EnvProvider \<Rightarrow> string \<Rightarrow> string" where
  "rawVal p name =
     (let v = getenv p (uppersnake name)
      in if v = '''' then (case fallbacks p name of Some fallback \<Rightarrow> fallback | None \<Rightarrow> v)
         else v)"

text \<open>The loop of \<open>Load\<close> over the entries still to visit. Only the missing list and the
  store change; the result carries the error, if any, the missing list and the store as
  they are when \<open>Load\<close> returns.\<close>

fun env_range ::
  "EnvProvider \<Rightarrow> (string \<times> typ_rec) list \<Rightarrow> string list \<Rightarrow> store
     \<Rightarrow> (error option \<times> string list \<times> store) exec" where
  "env_range p [] missing h = Returns (None, missing, h)"
| "env_range p ((name, to) # rest) missing h =
     (let raw = rawVal p name
      in if raw = ''''
         then env_range p rest
                (if name \<in> set (env_required p) then missing @ [name] else missing) h
         else (case kind to of
            KString \<Rightarrow>
              (case stringVal to of
                 None \<Rightarrow> Panics NilDereference
               | Some a \<Rightarrow> env_range p rest missing (h\<lparr>strings := (strings h)(a := raw)\<rparr>))
          | KInt \<Rightarrow>
              (case Atoi raw of
                 Inl err \<Rightarrow>
                   Returns (Some (wrapError (''failed to parse '' @ name @ '' as int: '') err),
                            missing, h)
               | Inr val \<Rightarrow>
                   (case intVal to of
                      None \<Rightarrow> Panics NilDereference
                    | Some a \<Rightarrow> env_range p rest missing (h\<lparr>ints := (ints h)(a := val)\<rparr>)))
          | KBool \<Rightarrow>
              (case ParseBool raw of
                 Inl err \<Rightarrow>
                   Returns (Some (wrapError (''failed to parse '' @ name @ '' as bool: '') err),
                            missing, h)
               | Inr val \<Rightarrow>
                   (case boolVal to of
                      None \<Rightarrow> Panics NilDereference
                    | Some a \<Rightarrow> env_range p rest missing (h\<lparr>bools := (bools h)(a := val)\<rparr>)))
          | k \<Rightarrow>
              Returns (Some (errorString (''field '' @ name @ '' has unsupported type ''
                                          @ Kind_String k)), missing, h)))"

definition dotenv_stage :: "os \<Rightarrow> EnvProvider \<Rightarrow> error option \<times> EnvProvider" where
  "dotenv_stage sys p = (if withDotEnv p then AddDotEnv sys p else (None, p))"

definition EnvProvider_Load ::
  "os \<Rightarrow> EnvProvider \<Rightarrow> store \<Rightarrow> (error option \<times> EnvProvider \<times> store) exec" where
  "EnvProvider_Load sys p h =
     (case dotenv_stage sys p of
        (Some err, p') \<Rightarrow> Returns (Some (wrapError ''failed to add .env file: '' err), p', h)
      | (None, p') \<Rightarrow>
          (case env_range p' (range_order (env_hint p') (env_m p')) (env_missing p') h of
             Panics x \<Rightarrow> Panics x
           | Returns (err, missing, h') \<Rightarrow> Returns (err, p'\<lparr>env_missing := missing\<rparr>, h')))"

definition EnvProvider_Missing :: "EnvProvider \<Rightarrow> string list" where
  "EnvProvider_Missing p = env_missing p"

section \<open>Package flag\<close>

text \<open>
  The argument source hands the tokens to a \<open>flag.FlagSet\<close> made with
  \<open>ContinueOnError\<close> and a discarded output. What follows is that package as the source
  uses it: the registered flags with the slot each one writes, the definition of a flag,
  the values' \<open>Set\<close> methods and the parsing loop.
\<close>

text \<open>\<open>strconv.ParseInt(s, 0, 64)\<close>, the syntax of an integer flag: a sign, a base prefix
  (\<open>0b\<close>, \<open>0o\<close>, \<open>0x\<close>, or a leading \<open>0\<close> for octal), digits, and underscores where
  \<open>underscoreOK\<close> allows them.\<close>

definition isLetter :: "char \<Rightarrow> bool" where
  "isLetter c = (let n = (of_char c :: nat) in (65 \<le> n \<and> n \<le> 90) \<or> (97 \<le> n \<and> n \<le> 122))"

definition lower :: "char \<Rightarrow> char" where
  "lower c = (let n = (of_char c :: nat) in if 65 \<le> n \<and> n \<le> 90 then char_of (n + 32) else c)"

definition digitOf :: "char \<Rightarrow> nat option" where
  "digitOf c =
     (if isDigit c then Some (digitVal c)
      else if isLetter c then Some (of_char (lower c) - 97 + 10)
      else None)"

fun uintDigits :: "nat \<Rightarrow> nat \<Rightarrow> string \<Rightarrow> strconvErr + nat" where
  "uintDigits base n [] = Inr n"
| "uintDigits base n (c # cs) =
     (if c = CHR ''_'' then uintDigits base n cs
      else case digitOf c of
             None \<Rightarrow> Inl ErrSyntax
           | Some d \<Rightarrow>
               if base \<le> d then Inl ErrSyntax
               else if 2 ^ 64 \<le> n * base + d then Inl ErrRange
               else uintDigits base (n * base + d) cs)"

datatype saw = SawNothing | SawDigit | SawUnderscore | SawOther

fun underscoreScan :: "bool \<Rightarrow> saw \<Rightarrow> string \<Rightarrow> bool" where
  "underscoreScan hex sw [] = (sw \<noteq> SawUnderscore)"
| "underscoreScan hex sw (c # cs) =
     (if isDigit c \<or> (hex \<and> lower c \<in> set ''abcdef'') then underscoreScan hex SawDigit cs
      else if c = CHR ''_'' then (if sw \<noteq> SawDigit then False else underscoreScan hex SawUnderscore cs)
      else if sw = SawUnderscore then False
      else underscoreScan hex SawOther cs)"

definition hasBasePrefix :: "nat \<Rightarrow> string \<Rightarrow> bool" where
  "hasBasePrefix minlen s =
     (minlen \<le> length s \<and> hd s = CHR ''0'' \<and> lower (s ! 1) \<in> set ''box'')"

definition underscoreOK :: "string \<Rightarrow> bool" where
  "underscoreOK s0 =
     (let s = (if s0 \<noteq> [] \<and> (hd s0 = CHR ''-'' \<or> hd s0 = CHR ''+'') then tl s0 else s0)
      in if hasBasePrefix 2 s then underscoreScan (lower (s ! 1) = CHR ''x'') SawDigit (drop 2 s)
         else underscoreScan False SawNothing s)"

definition ParseUint0 :: "string \<Rightarrow> strconvErr + nat" where
  "ParseUint0 s =
     (if s = [] then Inl ErrSyntax
      else let (base, ds) =
                 (if hd s = CHR ''0'' then
                    (if hasBasePrefix 3 s
                     then ((if lower (s ! 1) = CHR ''b'' then 2
                            else if lower (s ! 1) = CHR ''o'' then 8 else 16), drop 2 s)
                     else (8, tl s))
                  else (10, s))
           in case uintDigits base 0 ds of
                Inl e \<Rightarrow> Inl e
              | Inr n \<Rightarrow> if CHR ''_'' \<in> set ds \<and> \<not> underscoreOK s then Inl ErrSyntax else Inr n)"

definition ParseInt0 :: "string \<Rightarrow> error + int" where
  "ParseInt0 s0 =
     (if s0 = [] then Inl (NumError ''ParseInt'' s0 ErrSyntax)
      else let neg = (hd s0 = CHR ''-'');
               s = (if hd s0 = CHR ''-'' \<or> hd s0 = CHR ''+'' then tl s0 else s0)
           in case ParseUint0 s of
                Inl e \<Rightarrow> Inl (NumError ''ParseInt'' s0 e)
              | Inr un \<Rightarrow>
                  if \<not> neg \<and> 2 ^ 63 \<le> un then Inl (NumError ''ParseInt'' s0 ErrRange)
                  else if neg \<and> 2 ^ 63 < un then Inl (NumError ''ParseInt'' s0 ErrRange)
                  else Inr (if neg then - int un else int un))"

text \<open>A registered flag is its \<open>Value\<close>: the kind and the slot it writes.\<close>

datatype flagValue = stringValue addr | intValue addr | boolValue addr

record FlagSet =
  formal :: "string \<rightharpoonup> flagValue"
  fs_args :: "string list"

definition NewFlagSet :: FlagSet where
  "NewFlagSet = \<lparr>formal = Map.empty, fs_args = []\<rparr>"

text \<open>\<open>FlagSet.Var\<close> panics on a name that begins with a minus, contains an equals sign or
  is already defined.\<close>

definition FlagSet_Var :: "flagValue \<Rightarrow> string \<Rightarrow> FlagSet \<Rightarrow> FlagSet exec" where
  "FlagSet_Var v name f =
     (if HasPrefix name ''-'' then Panics (FlagBeginsWithMinus name)
      else if CHR ''='' \<in> set name then Panics (FlagContainsEquals name)
      else if formal f name \<noteq> None then Panics (FlagRedefined name)
      else Returns (f\<lparr>formal := (formal f)(name \<mapsto> v)\<rparr>))"

text \<open>\<open>StringVar\<close>, \<open>IntVar\<close> and \<open>BoolVar\<close> of the flag set store the default through the
  pointer first, and then define the flag.\<close>

definition FlagSet_StringVar ::
  "addr option \<Rightarrow> string \<Rightarrow> string \<Rightarrow> FlagSet \<Rightarrow> store \<Rightarrow> (FlagSet \<times> store) exec" where
  "FlagSet_StringVar to name val f h =
     (case to of
        None \<Rightarrow> Panics NilDereference
      | Some a \<Rightarrow>
          (case FlagSet_Var (stringValue a) name f of
             Panics x \<Rightarrow> Panics x
           | Returns f' \<Rightarrow> Returns (f', h\<lparr>strings := (strings h)(a := val)\<rparr>)))"

definition FlagSet_IntVar ::
  "addr option \<Rightarrow> string \<Rightarrow> int \<Rightarrow> FlagSet \<Rightarrow> store \<Rightarrow> (FlagSet \<times> store) exec" where
  "FlagSet_IntVar to name val f h =
     (case to of
        None \<Rightarrow> Panics NilDereference
      | Some a \<Rightarrow>
          (case FlagSet_Var (intValue a) name f of
             Panics x \<Rightarrow> Panics x
           | Returns f' \<Rightarrow> Returns (f', h\<lparr>ints := (ints h)(a := val)\<rparr>)))"

definition FlagSet_BoolVar ::
  "addr option \<Rightarrow> string \<Rightarrow> bool \<Rightarrow> FlagSet \<Rightarrow> store \<Rightarrow> (FlagSet \<times> store) exec" where
  "FlagSet_BoolVar to name val f h =
     (case to of
        None \<Rightarrow> Panics NilDereference
      | Some a \<Rightarrow>
          (case FlagSet_Var (boolValue a) name f of
             Panics x \<Rightarrow> Panics x
           | Returns f' \<Rightarrow> Returns (f', h\<lparr>bools := (bools h)(a := val)\<rparr>)))"

text \<open>The name and the value of a flag token after its minuses: the value starts after
  the first equals sign, which cannot be the first byte.\<close>

fun splitValue :: "string \<Rightarrow> string \<Rightarrow> string \<times> string option" where
  "splitValue pre [] = (pre, None)"
| "splitValue pre (c # cs) =
     (if c = CHR ''='' \<and> pre \<noteq> [] then (pre, Some cs) else splitValue (pre @ [c]) cs)"

text \<open>\<open>Set\<close> of a string or integer flag.\<close>

fun flagValue_Set :: "flagValue \<Rightarrow> string \<Rightarrow> store \<Rightarrow> error + store" where
  "flagValue_Set (stringValue a) s h = Inr (h\<lparr>strings := (strings h)(a := s)\<rparr>)"
| "flagValue_Set (intValue a) s h =
     (case ParseInt0 s of Inl e \<Rightarrow> Inl e | Inr v \<Rightarrow> Inr (h\<lparr>ints := (ints h)(a := v)\<rparr>))"
| "flagValue_Set (boolValue a) s h =
     (case ParseBool s of Inl e \<Rightarrow> Inl e | Inr v \<Rightarrow> Inr (h\<lparr>bools := (bools h)(a := v)\<rparr>))"

definition isBoolFlag :: "flagValue \<Rightarrow> bool" where
  "isBoolFlag v = (case v of boolValue a \<Rightarrow> True | _ \<Rightarrow> False)"

text \<open>\<open>parseOne\<close> looks at the first token left. Its result says whether it has seen a
  flag, the error, the tokens left in the set and the store. It sees no flag, without an
  error, when no token is left, at a token shorter than two bytes or not starting with a
  minus (which stays), and at the token \<open>--\<close> (which goes).\<close>

definition parseOne ::
  "(string \<rightharpoonup> flagValue) \<Rightarrow> string list \<Rightarrow> store \<Rightarrow> bool \<times> error option \<times> string list \<times> store" where
  "parseOne fm arguments h =
     (case arguments of
        [] \<Rightarrow> (False, None, [], h)
      | s # rest \<Rightarrow>
          if length s < 2 \<or> hd s \<noteq> CHR ''-'' then (False, None, s # rest, h)
          else if s = ''--'' then (False, None, rest, h)
          else let body = drop (if s ! 1 = CHR ''-'' then 2 else 1) s
               in if body = [] \<or> hd body = CHR ''-'' \<or> hd body = CHR ''=''
                  then (False, Some (flagError (''bad flag syntax: '' @ s)), s # rest, h)
                  else (case splitValue [] body of (name, value) \<Rightarrow>
                    (case fm name of
                       None \<Rightarrow>
                         (if name = ''help'' \<or> name = ''h''
                          then (False, Some (flagError ''flag: help requested''), rest, h)
                          else (False, Some (flagError (''flag provided but not defined: -'' @ name)),
                                rest, h))
                     | Some fv \<Rightarrow>
                         (if isBoolFlag fv then
                            (case value of
                               Some v \<Rightarrow>
                                 (case flagValue_Set fv v h of
                                    Inl e \<Rightarrow> (False, Some (flagInvalidBoolean v name e), rest, h)
                                  | Inr h' \<Rightarrow> (True, None, rest, h'))
                             | None \<Rightarrow>
                                 (case flagValue_Set fv ''true'' h of
                                    Inl e \<Rightarrow>
                                      (False, Some (wrapError (''invalid boolean flag '' @ name @ '': '') e),
                                       rest, h)
                                  | Inr h' \<Rightarrow> (True, None, rest, h')))
                          else
                            (case value of
                               Some v \<Rightarrow>
                                 (case flagValue_Set fv v h of
                                    Inl e \<Rightarrow> (False, Some (flagInvalidValue v name e), rest, h)
                                  | Inr h' \<Rightarrow> (True, None, rest, h'))
                             | None \<Rightarrow>
                                 (case rest of
                                    [] \<Rightarrow>
                                      (False, Some (flagError (''flag needs an argument: -'' @ name)),
                                       rest, h)
                                  | v # rest' \<Rightarrow>
                                      (case flagValue_Set fv v h of
                                         Inl e \<Rightarrow> (False, Some (flagInvalidValue v name e), rest', h)
                                       | Inr h' \<Rightarrow> (True, None, rest', h'))))))))"

text \<open>\<open>FlagSet.Parse\<close>: \<open>parseOne\<close> again and again, as long as it sees a flag. The result
  is the error, the tokens left in the set, and the store.\<close>

function FlagSet_parse ::
  "(string \<rightharpoonup> flagValue) \<Rightarrow> string list \<Rightarrow> store \<Rightarrow> error option \<times> string list \<times> store" where
  "FlagSet_parse fm arguments h =
     (case parseOne fm arguments h of
        (seen, err, left, h') \<Rightarrow> if seen then FlagSet_parse fm left h' else (err, left, h'))"
  by pat_completeness auto
termination
  by (relation "measure (\<lambda>(fm, arguments, h). length arguments)")
     (auto simp: parseOne_def Let_def
           split: list.splits if_splits prod.splits option.splits sum.splits)

declare FlagSet_parse.simps [simp del]

definition FlagSet_Parse :: "FlagSet \<Rightarrow> string list \<Rightarrow> store \<Rightarrow> error option \<times> FlagSet \<times> store" where
  "FlagSet_Parse f arguments h =
     (case FlagSet_parse (formal f) arguments h of
        (err, left, h') \<Rightarrow> (err, f\<lparr>fs_args := left\<rparr>, h'))"

section \<open>The argument source (\<open>FlagProvider\<close>)\<close>

record FlagProvider =
  flag_m :: "(string \<times> typ_rec) list"
  fs :: FlagSet
  flag_required :: "string list"
  flag_missing :: "string list"
  args :: "string list"
  remainingFunc :: "nat option"
  flag_hint :: "string list"

definition NewFlagProvider :: "string list \<Rightarrow> string list \<Rightarrow> FlagProvider" where
  "NewFlagProvider arguments hint =
     \<lparr>flag_m = [], fs = NewFlagSet, flag_required = [], flag_missing = [],
      args = arguments, remainingFunc = None, flag_hint = hint\<rparr>"

definition WithRemainingFunc :: "nat option \<Rightarrow> FlagProvider \<Rightarrow> FlagProvider" where
  "WithRemainingFunc f p = p\<lparr>remainingFunc := f\<rparr>"

definition normalizeName :: "string \<Rightarrow> string" where
  "normalizeName name = ReplaceAll name (CHR ''_'') (CHR ''-'')"

definition FlagProvider_StringVar ::
  "addr option \<Rightarrow> string \<Rightarrow> string \<Rightarrow> bool \<Rightarrow> FlagProvider \<Rightarrow> store \<Rightarrow> (FlagProvider \<times> store) exec" where
  "FlagProvider_StringVar to name0 fallback req p h =
     (let name = normalizeName name0;
          p = p\<lparr>flag_m := (name, typ_string to) # flag_m p\<rparr>
      in case FlagSet_StringVar to name fallback (fs p) h of
           Panics x \<Rightarrow> Panics x
         | Returns (f, h') \<Rightarrow>
             Returns ((if req then p\<lparr>fs := f, flag_required := flag_required p @ [name]\<rparr>
                       else p\<lparr>fs := f\<rparr>), h'))"

definition FlagProvider_IntVar ::
  "addr option \<Rightarrow> string \<Rightarrow> int \<Rightarrow> bool \<Rightarrow> FlagProvider \<Rightarrow> store \<Rightarrow> (FlagProvider \<times> store) exec" where
  "FlagProvider_IntVar to name0 fallback req p h =
     (let name = normalizeName name0;
          p = p\<lparr>flag_m := (name, typ_int to) # flag_m p\<rparr>
      in case FlagSet_IntVar to name fallback (fs p) h of
           Panics x \<Rightarrow> Panics x
         | Returns (f, h') \<Rightarrow>
             Returns ((if req then p\<lparr>fs := f, flag_required := flag_required p @ [name]\<rparr>
                       else p\<lparr>fs := f\<rparr>), h'))"

definition FlagProvider_BoolVar ::
  "addr option \<Rightarrow> string \<Rightarrow> bool \<Rightarrow> bool \<Rightarrow> FlagProvider \<Rightarrow> store \<Rightarrow> (FlagProvider \<times> store) exec" where
  "FlagProvider_BoolVar to name0 fallback req p h =
     (let name = normalizeName name0;
          p = p\<lparr>flag_m := (name, typ_bool to) # flag_m p\<rparr>
      in case FlagSet_BoolVar to name fallback (fs p) h of
           Panics x \<Rightarrow> Panics x
         | Returns (f, h') \<Rightarrow>
             Returns ((if req then p\<lparr>fs := f, flag_required := flag_required p @ [name]\<rparr>
                       else p\<lparr>fs := f\<rparr>), h'))"

text \<open>The loop that the argument source and the composer both run after resolution:
  the names, in the order of the iteration, whose destination is empty and which are
  required.\<close>

definition range_missing :: "store \<Rightarrow> string list \<Rightarrow> (string \<times> typ_rec) list \<Rightarrow> string list" where
  "range_missing h req entries =
     map fst (filter (\<lambda>(name, to). Empty h to \<and> name \<in> set req) entries)"

definition FlagProvider_Load :: "FlagProvider \<Rightarrow> store \<Rightarrow> error option \<times> FlagProvider \<times> store" where
  "FlagProvider_Load p h =
     (case FlagSet_Parse (fs p) (args p) h of
        (Some err, f, h') \<Rightarrow> (Some (wrapError ''failed to parse flags: '' err), p\<lparr>fs := f\<rparr>, h')
      | (None, f, h') \<Rightarrow>
          (let p = p\<lparr>fs := f,
                     flag_missing := flag_missing p
                        @ range_missing h' (flag_required p) (range_order (flag_hint p) (flag_m p))\<rparr>
           in case remainingFunc p of
                None \<Rightarrow> (None, p, h')
              | Some k \<Rightarrow>
                  (None, p, h'\<lparr>remaining_calls := remaining_calls h' @ [(k, fs_args f)]\<rparr>)))"

definition FlagProvider_Missing :: "FlagProvider \<Rightarrow> string list" where
  "FlagProvider_Missing p = flag_missing p"

section \<open>The interface \<open>Provider\<close> and the composer (\<open>PriorityProvider\<close>)\<close>

text \<open>
  A \<open>Provider\<close> is one of the three implementations. The composer holds its members, so
  its fields are the arguments of the constructor \<open>Priority\<close>: the map \<open>m\<close>, the
  members, the required names, the missing names and the order hint of its map. The
  members of a composer are distinct objects.
\<close>

datatype Provider =
    Env EnvProvider
  | Flag FlagProvider
  | Priority (prio_m: "(string \<times> typ_rec) list") (providers: "Provider list")
             (prio_required: "string list") (prio_missing: "string list")
             (prio_hint: "string list")

definition NewPriorityProvider :: "Provider list \<Rightarrow> string list \<Rightarrow> Provider" where
  "NewPriorityProvider ps hint = Priority [] ps [] [] hint"

text \<open>The three registration methods of the interface take a pointer and a fallback of
  the same type; \<open>var\<close> is that pair, tagged with the method.\<close>

datatype var =
    StringVar "addr option" string
  | IntVar "addr option" int
  | BoolVar "addr option" bool

fun var_typ :: "var \<Rightarrow> typ_rec" where
  "var_typ (StringVar to fallback) = typ_string to"
| "var_typ (IntVar to fallback) = typ_int to"
| "var_typ (BoolVar to fallback) = typ_bool to"

fun EnvProvider_Var :: "var \<Rightarrow> string \<Rightarrow> bool \<Rightarrow> EnvProvider \<Rightarrow> EnvProvider" where
  "EnvProvider_Var (StringVar to fallback) name req p = EnvProvider_StringVar to name fallback req p"
| "EnvProvider_Var (IntVar to fallback) name req p = EnvProvider_IntVar to name fallback req p"
| "EnvProvider_Var (BoolVar to fallback) name req p = EnvProvider_BoolVar to name fallback req p"

fun FlagProvider_Var ::
  "var \<Rightarrow> string \<Rightarrow> bool \<Rightarrow> FlagProvider \<Rightarrow> store \<Rightarrow> (FlagProvider \<times> store) exec" where
  "FlagProvider_Var (StringVar to fallback) name req p h = FlagProvider_StringVar to name fallback req p h"
| "FlagProvider_Var (IntVar to fallback) name req p h = FlagProvider_IntVar to name fallback req p h"
| "FlagProvider_Var (BoolVar to fallback) name req p h = FlagProvider_BoolVar to name fallback req p h"

text \<open>A registration through the interface. The composer first registers with every
  member, in order, and then in its own map, under the name as it was given.\<close>

fun Provider_Var ::
  "var \<Rightarrow> string \<Rightarrow> bool \<Rightarrow> Provider \<Rightarrow> store \<Rightarrow> (Provider \<times> store) exec"
and Providers_Var ::
  "var \<Rightarrow> string \<Rightarrow> bool \<Rightarrow> Provider list \<Rightarrow> store \<Rightarrow> (Provider list \<times> store) exec" where
  "Provider_Var v name req (Env p) h = Returns (Env (EnvProvider_Var v name req p), h)"
| "Provider_Var v name req (Flag p) h =
     (case FlagProvider_Var v name req p h of
        Panics x \<Rightarrow> Panics x
      | Returns (p', h') \<Rightarrow> Returns (Flag p', h'))"
| "Provider_Var v name req (Priority m ps required missing hint) h =
     (case Providers_Var v name req ps h of
        Panics x \<Rightarrow> Panics x
      | Returns (ps', h') \<Rightarrow>
          Returns (Priority ((name, var_typ v) # m) ps'
                     (if req then required @ [name] else required) missing hint, h'))"
| "Providers_Var v name req [] h = Returns ([], h)"
| "Providers_Var v name req (p # ps) h =
     (case Provider_Var v name req p h of
        Panics x \<Rightarrow> Panics x
      | Returns (p', h') \<Rightarrow>
          (case Providers_Var v name req ps h' of
             Panics x \<Rightarrow> Panics x
           | Returns (ps', h'') \<Rightarrow> Returns (p' # ps', h'')))"

text \<open>What \<open>%T\<close> prints for a member.\<close>

fun TypeName :: "Provider \<Rightarrow> string" where
  "TypeName (Env p) = ''*conf.EnvProvider''"
| "TypeName (Flag p) = ''*conf.FlagProvider''"
| "TypeName (Priority m ps required missing hint) = ''*conf.PriorityProvider''"

text \<open>\<open>Load\<close> through the interface. The composer loads its members in order and returns
  at the first failure; after the last member it appends to its missing list the
  required names whose destination is empty.\<close>

fun Provider_Load ::
  "os \<Rightarrow> Provider \<Rightarrow> store \<Rightarrow> (error option \<times> Provider \<times> store) exec"
and Providers_Load ::
  "os \<Rightarrow> Provider list \<Rightarrow> store \<Rightarrow> (error option \<times> Provider list \<times> store) exec" where
  "Provider_Load sys (Env p) h =
     (case EnvProvider_Load sys p h of
        Panics x \<Rightarrow> Panics x
      | Returns (err, p', h') \<Rightarrow> Returns (err, Env p', h'))"
| "Provider_Load sys (Flag p) h =
     (case FlagProvider_Load p h of (err, p', h') \<Rightarrow> Returns (err, Flag p', h'))"
| "Provider_Load sys (Priority m ps required missing hint) h =
     (case Providers_Load sys ps h of
        Panics x \<Rightarrow> Panics x
      | Returns (Some err, ps', h') \<Rightarrow> Returns (Some err, Priority m ps' required missing hint, h')
      | Returns (None, ps', h') \<Rightarrow>
          Returns (None,
                   Priority m ps' required
                     (missing @ range_missing h' required (range_order hint m)) hint,
                   h'))"
| "Providers_Load sys [] h = Returns (None, [], h)"
| "Providers_Load sys (p # ps) h =
     (case Provider_Load sys p h of
        Panics x \<Rightarrow> Panics x
      | Returns (Some err, p', h') \<Rightarrow>
          Returns (Some (wrapError (''failed to load configuration with '' @ TypeName p @ '': '') err),
                   p' # ps, h')
      | Returns (None, p', h') \<Rightarrow>
          (case Providers_Load sys ps h' of
             Panics x \<Rightarrow> Panics x
           | Returns (err, ps', h'') \<Rightarrow> Returns (err, p' # ps', h'')))"

fun Provider_Missing :: "Provider \<Rightarrow> string list" where
  "Provider_Missing (Env p) = EnvProvider_Missing p"
| "Provider_Missing (Flag p) = FlagProvider_Missing p"
| "Provider_Missing (Priority m ps required missing hint) = missing"

section \<open>The binder and \<open>Load\<close>\<close>

text \<open>
  What reflection shows of the record: a field is exported or not, embedded or not, has
  a type, the value of its \<open>conf\<close> tag (empty when it has none) and the address of its
  slot. A type is \<open>string\<close>, \<open>int\<close>, \<open>bool\<close>, a struct with its fields, or any other
  type, given by its kind: \<open>TOther KInt\<close> is a defined type such as \<open>type Port int\<close>.
\<close>

datatype gotype = TString | TInt | TBool | TStruct "field list" | TOther Kind
and field =
  Field (exported: bool) (embedded: bool) (ftype: gotype) (conf_tag: string) (slot: addr)

fun Type_Kind :: "gotype \<Rightarrow> Kind" where
  "Type_Kind TString = KString"
| "Type_Kind TInt = KInt"
| "Type_Kind TBool = KBool"
| "Type_Kind (TStruct flds) = KStruct"
| "Type_Kind (TOther k) = k"

definition parseTag :: "string \<Rightarrow> string \<times> bool \<times> string" where
  "parseTag tag =
     (let parts = Split tag (CHR '','');
          name = hd parts;
          required = (''required'' \<in> set parts);
          fallback = foldl (\<lambda>fallback part.
                              if HasPrefix part ''default='' then TrimPrefix part ''default=''
                              else fallback) [] (tl parts)
      in (name, required, fallback))"

text \<open>\<open>value.Addr().Interface().(*T)\<close>: \<open>Interface\<close> panics on a value reached through an
  unexported field, and the type assertion panics when the field's type is not exactly
  \<open>T\<close>.\<close>

definition field_pointer :: "bool \<Rightarrow> gotype \<Rightarrow> addr \<Rightarrow> (addr option) exec" where
  "field_pointer readonly ty a =
     (if readonly then Panics UnexportedFieldInterface
      else case ty of TOther k \<Rightarrow> Panics InterfaceConversion | _ \<Rightarrow> Returns (Some a))"

definition register_field ::
  "bool \<Rightarrow> gotype \<Rightarrow> addr \<Rightarrow> (addr option \<Rightarrow> var) \<Rightarrow> string \<Rightarrow> bool \<Rightarrow> Provider \<Rightarrow> store
     \<Rightarrow> (error option \<times> Provider \<times> store) exec" where
  "register_field readonly ty a mk name req c h =
     (case field_pointer readonly ty a of
        Panics x \<Rightarrow> Panics x
      | Returns to \<Rightarrow>
          (case Provider_Var (mk to) name req c h of
             Panics x \<Rightarrow> Panics x
           | Returns (c', h') \<Rightarrow> Returns (None, c', h')))"

text \<open>\<open>LoadField\<close>. The first argument says whether the value was reached through an
  unexported field that is not embedded: the values of the fields below inherit that
  mark, and a value is read-only when it has the mark or its own field is unexported.\<close>

fun LoadField ::
  "bool \<Rightarrow> field \<Rightarrow> Provider \<Rightarrow> store \<Rightarrow> (error option \<times> Provider \<times> store) exec"
and LoadFields ::
  "bool \<Rightarrow> field list \<Rightarrow> Provider \<Rightarrow> store \<Rightarrow> (error option \<times> Provider \<times> store) exec" where
  "LoadField sticky (Field ex em ty tagv a) c h =
     (case ty of
        TStruct flds \<Rightarrow> LoadFields (sticky \<or> (\<not> ex \<and> \<not> em)) flds c h
      | _ \<Rightarrow>
          if tagv = [] then Returns (None, c, h)
          else (case parseTag tagv of (tagVal, required, fallback) \<Rightarrow>
            (case Type_Kind ty of
               KInt \<Rightarrow>
                 (case (if fallback \<noteq> [] then Atoi fallback else Inr 0) of
                    Inl err \<Rightarrow> Returns (Some (fallbackError KInt fallback err), c, h)
                  | Inr fallbackInt \<Rightarrow>
                      register_field (sticky \<or> \<not> ex) ty a (\<lambda>to. IntVar to fallbackInt)
                        tagVal required c h)
             | KString \<Rightarrow>
                 register_field (sticky \<or> \<not> ex) ty a (\<lambda>to. StringVar to fallback)
                   tagVal required c h
             | KBool \<Rightarrow>
                 (case (if fallback \<noteq> [] then ParseBool fallback else Inr False) of
                    Inl err \<Rightarrow> Returns (Some (fallbackError KBool fallback err), c, h)
                  | Inr fallbackBool \<Rightarrow>
                      register_field (sticky \<or> \<not> ex) ty a (\<lambda>to. BoolVar to fallbackBool)
                        tagVal required c h)
             | _ \<Rightarrow> Returns (None, c, h))))"
| "LoadFields sticky [] c h = Returns (None, c, h)"
| "LoadFields sticky (f # rest) c h =
     (case LoadField sticky f c h of
        Panics x \<Rightarrow> Panics x
      | Returns (Some err, c', h') \<Rightarrow> Returns (Some err, c', h')
      | Returns (None, c', h') \<Rightarrow> LoadFields sticky rest c' h')"

text \<open>The argument \<open>cfg\<close> of \<open>Load\<close>: the nil interface, a value that is not a pointer, a
  pointer to something that is not a struct, or a pointer (nil or not) to a struct.\<close>

datatype cfg =
    NilInterface
  | NonPointer Kind
  | PointerTo Kind
  | StructPointer bool "field list"

text \<open>The only option: \<open>WithProviders\<close>, with the providers and the order hint of the
  composer it makes.\<close>

datatype LoadOption = WithProviders "Provider list" "string list"

fun apply_option :: "Provider \<Rightarrow> LoadOption \<Rightarrow> Provider" where
  "apply_option c (WithProviders ps hint) = NewPriorityProvider ps hint"

text \<open>\<open>Load\<close>. The second argument is the order hint of the default environment source.\<close>

definition Load ::
  "os \<Rightarrow> string list \<Rightarrow> cfg \<Rightarrow> LoadOption list \<Rightarrow> store \<Rightarrow> (error option \<times> store) exec" where
  "Load sys hint cfg opts h =
     (case cfg of
        NilInterface \<Rightarrow> Panics NilTypeKind
      | NonPointer k \<Rightarrow>
          Returns (Some (errorString (''expected pointer to struct, got '' @ Kind_String k)), h)
      | PointerTo k \<Rightarrow>
          Returns (Some (errorString (''expected pointer to struct, got pointer to ''
                                      @ Kind_String k)), h)
      | StructPointer isnil flds \<Rightarrow>
          (let c = foldl apply_option (Env (NewEnvProvider (Getenv sys) hint)) opts
           in if isnil \<and> flds \<noteq> [] then Panics ZeroValueField
              else case LoadFields False flds c h of
                Panics x \<Rightarrow> Panics x
              | Returns (Some err, c', h') \<Rightarrow> Returns (Some err, h')
              | Returns (None, c', h') \<Rightarrow>
                  (case Provider_Load sys c' h' of
                     Panics x \<Rightarrow> Panics x
                   | Returns (Some err, c'', h'') \<Rightarrow>
                       Returns (Some (wrapError ''failed to load configuration: '' err), h'')
                   | Returns (None, c'', h'') \<Rightarrow>
                       (let missing = Provider_Missing c''
                        in if length missing > 0
                           then Returns (Some (errorString (''missing configuration parameters: ''
                                                            @ Join missing '', '')), h'')
                           else Returns (None, h'')))))"

definition LoadFlags :: "os \<Rightarrow> cfg \<Rightarrow> string list \<Rightarrow> store \<Rightarrow> (error option \<times> store) exec" where
  "LoadFlags sys cfg arguments h =
     Load sys [] cfg [WithProviders [Flag (NewFlagProvider arguments [])] []] h"

definition LoadFlagsWithRemaining ::
  "os \<Rightarrow> cfg \<Rightarrow> string list \<Rightarrow> nat option \<Rightarrow> store \<Rightarrow> (error option \<times> store) exec" where
  "LoadFlagsWithRemaining sys cfg arguments f h =
     Load sys [] cfg
       [WithProviders [Flag (WithRemainingFunc f (NewFlagProvider arguments []))] []] h"

definition LoadEnv :: "os \<Rightarrow> cfg \<Rightarrow> (string \<Rightarrow> string) \<Rightarrow> store \<Rightarrow> (error option \<times> store) exec" where
  "LoadEnv sys cfg g h = Load sys [] cfg [WithProviders [Env (NewEnvProvider g [])] []] h"

definition LoadAll :: "os \<Rightarrow> cfg \<Rightarrow> store \<Rightarrow> (error option \<times> store) exec" where
  "LoadAll sys cfg h =
     Load sys [] cfg
       [WithProviders [Env (NewEnvProvider (Getenv sys) []), Flag (NewFlagProvider (Args sys) [])] []] h"

section \<open>Notions used to state the properties\<close>

text \<open>The map of a source, whichever implementation it is.\<close>

fun Provider_m :: "Provider \<Rightarrow> (string \<times> typ_rec) list" where
  "Provider_m (Env p) = env_m p"
| "Provider_m (Flag p) = flag_m p"
| "Provider_m (Priority m ps required missing hint) = m"

text \<open>The slot a destination designates: its kind with the pointer of that kind, when
  the kind is one of the three supported ones and the pointer is not nil. Every
  destination registered with a pointer that is not nil has one.\<close>

definition target :: "typ_rec \<Rightarrow> (Kind \<times> addr) option" where
  "target to =
     (case kind to of
        KString \<Rightarrow> map_option (Pair KString) (stringVal to)
      | KInt \<Rightarrow> map_option (Pair KInt) (intVal to)
      | KBool \<Rightarrow> map_option (Pair KBool) (boolVal to)
      | _ \<Rightarrow> None)"

text \<open>The current value of the slot of a destination.\<close>

datatype val = VString string | VInt int | VBool bool

definition deref :: "store \<Rightarrow> typ_rec \<Rightarrow> val option" where
  "deref h to =
     (case target to of
        None \<Rightarrow> None
      | Some (k, a) \<Rightarrow>
          (if k = KString then Some (VString (strings h a))
           else if k = KInt then Some (VInt (ints h a))
           else Some (VBool (bools h a))))"

text \<open>An integer or boolean destination with a pointer that is not nil.\<close>

definition has_value_slot :: "typ_rec \<Rightarrow> bool" where
  "has_value_slot to =
     ((kind to = KInt \<and> intVal to \<noteq> None) \<or> (kind to = KBool \<and> boolVal to \<noteq> None))"

text \<open>The environment source as the loop of \<open>Load\<close> sees it: after the dotenv overlay,
  when there is one.\<close>

definition resolving :: "os \<Rightarrow> EnvProvider \<Rightarrow> EnvProvider" where
  "resolving sys p = snd (dotenv_stage sys p)"

text \<open>The cause of the coercion failure of a parameter: its raw value is not empty and
  the parser of its kind rejects it.\<close>

definition parse_failure :: "EnvProvider \<Rightarrow> string \<Rightarrow> typ_rec \<Rightarrow> error option" where
  "parse_failure p name to =
     (if rawVal p name = [] then None
      else case kind to of
             KInt \<Rightarrow> (case Atoi (rawVal p name) of Inl e \<Rightarrow> Some e | Inr v \<Rightarrow> None)
           | KBool \<Rightarrow> (case ParseBool (rawVal p name) of Inl e \<Rightarrow> Some e | Inr v \<Rightarrow> None)
           | _ \<Rightarrow> None)"

text \<open>A store and a process to run examples in.\<close>

definition zero_store :: store where
  "zero_store = \<lparr>strings = (\<lambda>a. []), ints = (\<lambda>a. 0), bools = (\<lambda>a. False), remaining_calls = []\<rparr>"

definition bare_os :: os where
  "bare_os = \<lparr>Getenv = (\<lambda>name. []), Args = [], dotenv_file = None\<rparr>"

text \<open>A composer over one argument source without arguments, with a required text
  parameter and a required integer parameter.\<close>

definition C9_composer :: Provider where
  "C9_composer =
     Priority [(''port'', typ_int (Some 1)), (''host'', typ_string (Some 0))]
       [Flag (NewFlagProvider [] [])] [''host'', ''port''] [] []"

text \<open>An environment source with a required text parameter that the environment does
  not set and a required integer parameter that it sets to \<open>abc\<close>.\<close>

definition C4_env :: EnvProvider where
  "C4_env =
     EnvProvider_IntVar (Some 1) ''port'' 0 True
       (EnvProvider_StringVar (Some 0) ''host'' [] True
          (NewEnvProvider (\<lambda>k. if k = ''PORT'' then ''abc'' else []) [''host'', ''port'']))"

text \<open>An environment source with two integer parameters, both set to values that are
  not integers.\<close>

definition C4_two_bad :: EnvProvider where
  "C4_two_bad =
     EnvProvider_IntVar (Some 1) ''b'' 0 False
       (EnvProvider_IntVar (Some 0) ''a'' 0 False
          (NewEnvProvider (\<lambda>k. if k = ''A'' then ''x'' else if k = ''B'' then ''y'' else [])
             [''a'', ''b'']))"

text \<open>The same source in an environment that sets the integer parameter to \<open>8080\<close>.\<close>

definition C5_env :: EnvProvider where
  "C5_env =
     EnvProvider_IntVar (Some 1) ''port'' 0 True
       (EnvProvider_StringVar (Some 0) ''host'' [] True
          (NewEnvProvider (\<lambda>k. if k = ''PORT'' then ''8080'' else []) [''host'', ''port'']))"

text \<open>An environment source with a dotenv stream whose only line has no equals sign.\<close>

definition C8_env :: EnvProvider where
  "C8_env =
     WithDotEnv (Some \<lparr>rd_content = ''MALFORMED'', rd_closed = False, rd_close_error = None\<rparr>)
       (NewEnvProvider (\<lambda>k. []) [])"


text \<open>What a call returned, without the state, and the store it left.\<close>

definition returned :: "('e \<times> 's) exec \<Rightarrow> 'e exec" where
  "returned r = (case r of Returns (e, s) \<Rightarrow> Returns e | Panics x \<Rightarrow> Panics x)"

definition store_after :: "('e \<times> store) exec \<Rightarrow> store option" where
  "store_after r = (case r of Returns (e, h) \<Rightarrow> Some h | Panics x \<Rightarrow> None)"


text \<open>A source assigns a value to a slot when the slot holds that value after every
  successful \<open>Load\<close> of the source, whatever the store held before.\<close>

definition assigns :: "os \<Rightarrow> Provider \<Rightarrow> typ_rec \<Rightarrow> val \<Rightarrow> bool" where
  "assigns sys S to v =
     (\<forall>h. case Provider_Load sys S h of
            Returns (None, S', h') \<Rightarrow> deref h' to = Some v
          | _ \<Rightarrow> True)"

text \<open>The sources of the test of the repository: an environment with \<open>FIELD1=value1\<close>
  and the arguments \<open>-field1 value2\<close>, after the registration of the required text
  parameter \<open>field1\<close> through their composer.\<close>

definition C1_env :: EnvProvider where
  "C1_env =
     EnvProvider_StringVar (Some 0) ''field1'' [] True
       (NewEnvProvider (\<lambda>k. if k = ''FIELD1'' then ''value1'' else []) [])"

definition C1_flag :: FlagProvider where
  "C1_flag =
     \<lparr>flag_m = [(''field1'', typ_string (Some 0))],
      fs = \<lparr>formal = [''field1'' \<mapsto> stringValue 0], fs_args = []\<rparr>,
      flag_required = [''field1''], flag_missing = [],
      args = [''-field1'', ''value2''], remainingFunc = None, flag_hint = []\<rparr>"

definition C1_composer :: Provider where
  "C1_composer = Priority [(''field1'', typ_string (Some 0))] [Env C1_env, Flag C1_flag] [''field1''] [] []"

text \<open>The default literal of a tag is well formed for the type of the field: the binder
  parses it and goes on to the registration.\<close>

definition default_ok :: "gotype \<Rightarrow> string \<Rightarrow> bool" where
  "default_ok ty tagv =
     (case parseTag tagv of (name, req, fallback) \<Rightarrow>
        (case ty of
           TInt \<Rightarrow> fallback = [] \<or> (case Atoi fallback of Inr v \<Rightarrow> True | Inl e \<Rightarrow> False)
         | TBool \<Rightarrow> fallback = [] \<or> (case ParseBool fallback of Inr v \<Rightarrow> True | Inl e \<Rightarrow> False)
         | _ \<Rightarrow> True))"

text \<open>The provider \<open>Load\<close> starts from: the default environment source, or the composer
  of the last option.\<close>

definition initial_provider :: "os \<Rightarrow> string list \<Rightarrow> LoadOption list \<Rightarrow> Provider" where
  "initial_provider sys hint opts = foldl apply_option (Env (NewEnvProvider (Getenv sys) hint)) opts"

text \<open>The value the environment source stores for a raw value, by the kind of the
  destination.\<close>

definition coerce :: "Kind \<Rightarrow> string \<Rightarrow> val option" where
  "coerce k raw =
     (case k of
        KString \<Rightarrow> Some (VString raw)
      | KInt \<Rightarrow> (case Atoi raw of Inr v \<Rightarrow> Some (VInt v) | Inl e \<Rightarrow> None)
      | KBool \<Rightarrow> (case ParseBool raw of Inr v \<Rightarrow> Some (VBool v) | Inl e \<Rightarrow> None)
      | _ \<Rightarrow> None)"


fun has_flag :: "Provider \<Rightarrow> bool" where
  "has_flag (Env p) = False"
| "has_flag (Flag p) = True"
| "has_flag (Priority m ps required missing hint) = list_ex has_flag ps"

fun has_env :: "Provider \<Rightarrow> bool" where
  "has_env (Env p) = True"
| "has_env (Flag p) = False"
| "has_env (Priority m ps required missing hint) = list_ex has_env ps"


text \<open>The required names of a source, whichever implementation it is.\<close>

fun Provider_required :: "Provider \<Rightarrow> string list" where
  "Provider_required (Env p) = env_required p"
| "Provider_required (Flag p) = flag_required p"
| "Provider_required (Priority m ps required missing hint) = required"

text \<open>
  The binder, seen as the list of the steps it takes for a record, in order: a
  registration with the provider, a failure (a malformed default) or a panic. The steps
  of a record are those of its fields, the steps of a field of struct type those of its
  fields; an untagged field and a field of an unsupported kind have none. Running the
  steps stops at the first failure or panic. (\<open>LoadFields_steps\<close> below: running the steps
  of a record is \<open>LoadFields\<close>.)
\<close>

datatype step = Register var string bool | Fails error | Crashes panic

definition register_step ::
  "bool \<Rightarrow> gotype \<Rightarrow> addr \<Rightarrow> (addr option \<Rightarrow> var) \<Rightarrow> string \<Rightarrow> bool \<Rightarrow> step" where
  "register_step readonly ty a mk name req =
     (case field_pointer readonly ty a of
        Panics x \<Rightarrow> Crashes x
      | Returns to \<Rightarrow> Register (mk to) name req)"

fun field_steps :: "bool \<Rightarrow> field \<Rightarrow> step list"
and fields_steps :: "bool \<Rightarrow> field list \<Rightarrow> step list" where
  "field_steps sticky (Field ex em ty tagv a) =
     (case ty of
        TStruct flds \<Rightarrow> fields_steps (sticky \<or> (\<not> ex \<and> \<not> em)) flds
      | _ \<Rightarrow>
          if tagv = [] then []
          else (case parseTag tagv of (tagVal, required, fallback) \<Rightarrow>
            (case Type_Kind ty of
               KInt \<Rightarrow>
                 (case (if fallback \<noteq> [] then Atoi fallback else Inr 0) of
                    Inl err \<Rightarrow> [Fails (fallbackError KInt fallback err)]
                  | Inr fallbackInt \<Rightarrow>
                      [register_step (sticky \<or> \<not> ex) ty a (\<lambda>to. IntVar to fallbackInt)
                         tagVal required])
             | KString \<Rightarrow>
                 [register_step (sticky \<or> \<not> ex) ty a (\<lambda>to. StringVar to fallback)
                    tagVal required]
             | KBool \<Rightarrow>
                 (case (if fallback \<noteq> [] then ParseBool fallback else Inr False) of
                    Inl err \<Rightarrow> [Fails (fallbackError KBool fallback err)]
                  | Inr fallbackBool \<Rightarrow>
                      [register_step (sticky \<or> \<not> ex) ty a (\<lambda>to. BoolVar to fallbackBool)
                         tagVal required])
             | _ \<Rightarrow> [])))"
| "fields_steps sticky [] = []"
| "fields_steps sticky (f # rest) = field_steps sticky f @ fields_steps sticky rest"

fun run_steps :: "step list \<Rightarrow> Provider \<Rightarrow> store \<Rightarrow> (error option \<times> Provider \<times> store) exec" where
  "run_steps [] c h = Returns (None, c, h)"
| "run_steps (Register v name req # ss) c h =
     (case Provider_Var v name req c h of
        Panics x \<Rightarrow> Panics x
      | Returns (c', h') \<Rightarrow> run_steps ss c' h')"
| "run_steps (Fails err # ss) c h = Returns (Some err, c, h)"
| "run_steps (Crashes x # ss) c h = Panics x"

text \<open>The record of the tests, with one required text field, and an environment source
  over an empty environment as the only member of the composer.\<close>

definition C2_record :: "field list" where
  "C2_record = [Field True False TString ''field1,required'' 0]"

definition C2_options :: "LoadOption list" where
  "C2_options = [WithProviders [Env (NewEnvProvider (\<lambda>k. []) [])] []]"

definition C2_bound :: Provider where
  "C2_bound =
     Priority [(''field1'', typ_string (Some 0))]
       [Env (EnvProvider_StringVar (Some 0) ''field1'' [] True (NewEnvProvider (\<lambda>k. []) []))]
       [''field1''] [] []"

text \<open>The parsed default of a registration, and the registrations for which the
  environment source records a fallback: a text default that is not empty, an integer
  default that is not zero (any Go \<open>int\<close> is in the 64-bit range), any boolean default.\<close>

fun var_default :: "var \<Rightarrow> val" where
  "var_default (StringVar to fallback) = VString fallback"
| "var_default (IntVar to fallback) = VInt fallback"
| "var_default (BoolVar to fallback) = VBool fallback"

fun fallback_registered :: "var \<Rightarrow> bool" where
  "fallback_registered (StringVar to fallback) = (fallback \<noteq> [])"
| "fallback_registered (IntVar to fallback) = (fallback \<noteq> 0 \<and> minInt \<le> fallback \<and> fallback \<le> maxInt)"
| "fallback_registered (BoolVar to fallback) = True"

text \<open>The slot a flag writes, and the name of the flag a token denotes when it has the
  form of a flag (what \<open>parseOne\<close> takes for the name).\<close>

fun flag_slot :: "flagValue \<Rightarrow> Kind \<times> addr" where
  "flag_slot (stringValue a) = (KString, a)"
| "flag_slot (intValue a) = (KInt, a)"
| "flag_slot (boolValue a) = (KBool, a)"

definition token_flag :: "string \<Rightarrow> string option" where
  "token_flag s =
     (if length s < 2 \<or> hd s \<noteq> CHR ''-'' then None
      else Some (fst (splitValue [] (drop (if s ! 1 = CHR ''-'' then 2 else 1) s))))"

text \<open>No source supplies a value for a name: the lookup of every environment source
  (through its dotenv overlay) is empty for the upper-snake name, and no argument of an
  argument source denotes the flag of the name.\<close>

fun unsupplied :: "os \<Rightarrow> string \<Rightarrow> Provider \<Rightarrow> bool" where
  "unsupplied sys name (Env e) = (getenv (resolving sys e) (uppersnake name) = [])"
| "unsupplied sys name (Flag f) = (\<forall>tok \<in> set (args f). token_flag tok \<noteq> Some (normalizeName name))"
| "unsupplied sys name (Priority m ps required missing hint) = list_all (unsupplied sys name) ps"

text \<open>No destination registered in a source, or in a member of it, designates the slot.\<close>

fun unused :: "Kind \<times> addr \<Rightarrow> Provider \<Rightarrow> bool" where
  "unused s (Env e) = (\<forall>n t. map_of (env_m e) n = Some t \<longrightarrow> target t \<noteq> Some s)"
| "unused s (Flag f) = (\<forall>n fv. formal (fs f) n = Some fv \<longrightarrow> flag_slot fv \<noteq> s)"
| "unused s (Priority m ps required missing hint) = list_all (unused s) ps"

text \<open>A source is ready to resolve a name to a value in a destination: every environment
  source in it binds the name to the destination, and to no other name, and has a raw
  value for it that coerces to the value; no argument of an argument source in it denotes
  a flag that writes the slot of the destination.\<close>

fun ready :: "os \<Rightarrow> string \<Rightarrow> typ_rec \<Rightarrow> val \<Rightarrow> Provider \<Rightarrow> bool" where
  "ready sys name to v (Env e) =
     (map_of (env_m e) name = Some to
      \<and> (\<forall>n t. n \<noteq> name \<and> map_of (env_m e) n = Some t \<longrightarrow> target t \<noteq> target to)
      \<and> rawVal (resolving sys e) name \<noteq> []
      \<and> coerce (kind to) (rawVal (resolving sys e) name) = Some v)"
| "ready sys name to v (Flag f) =
     (\<forall>n fv. formal (fs f) n = Some fv \<and> Some (flag_slot fv) = target to
        \<longrightarrow> (\<forall>tok \<in> set (args f). token_flag tok \<noteq> Some n))"
| "ready sys name to v (Priority m ps required missing hint) = list_all (ready sys name to v) ps"

text \<open>A record with one required text field that has a default, the composer of an
  environment source over an empty environment and an argument source without
  arguments, what the binder makes of them, and the store after the binding.\<close>

definition C3_record :: "field list" where
  "C3_record = [Field True False TString ''host,required,default=localhost'' 0]"

definition C3_options :: "LoadOption list" where
  "C3_options = [WithProviders [Env (NewEnvProvider (\<lambda>k. []) []), Flag (NewFlagProvider [] [])] []]"

definition C3_bound :: Provider where
  "C3_bound =
     Priority [(''host'', typ_string (Some 0))]
       [Env (EnvProvider_StringVar (Some 0) ''host'' ''localhost'' True (NewEnvProvider (\<lambda>k. []) [])),
        Flag \<lparr>flag_m = [(''host'', typ_string (Some 0))],
              fs = \<lparr>formal = [''host'' \<mapsto> stringValue 0], fs_args = []\<rparr>,
              flag_required = [''host''], flag_missing = [],
              args = [], remainingFunc = None, flag_hint = []\<rparr>]
       [''host''] [] []"

definition C3_store :: store where
  "C3_store = zero_store\<lparr>strings := (strings zero_store)(0 := ''localhost'')\<rparr>"

text \<open>The environment sources a caller can build: a new one, with a dotenv overlay or
  not, and any registrations.\<close>

inductive registered :: "EnvProvider \<Rightarrow> bool" where
  registered_new: "registered (NewEnvProvider g hint)"
| registered_dotenv: "registered p \<Longrightarrow> registered (WithDotEnv r p)"
| registered_var: "registered p \<Longrightarrow> registered (EnvProvider_Var v name req p)"

text \<open>An environment source over an empty environment with one boolean parameter that
  has no default, and a store in which every boolean slot holds \<open>true\<close>.\<close>

definition C5_bool_env :: EnvProvider where
  "C5_bool_env = EnvProvider_BoolVar (Some 0) ''debug'' False False (NewEnvProvider (\<lambda>k. []) [])"

definition C5_store :: store where
  "C5_store = zero_store\<lparr>bools := (\<lambda>a. True)\<rparr>"

text \<open>The default of a registration is the zero value of a text or an integer: the
  environment source records no fallback for it.\<close>

fun zero_default :: "var \<Rightarrow> bool" where
  "zero_default (StringVar to fallback) = (fallback = [])"
| "zero_default (IntVar to fallback) = (fallback = 0)"
| "zero_default (BoolVar to fallback) = False"

text \<open>No environment source holds a fallback for the name.\<close>

fun unrecorded :: "string \<Rightarrow> Provider \<Rightarrow> bool" where
  "unrecorded name (Env e) = (fallbacks e name = None \<or> fallbacks e name = Some [])"
| "unrecorded name (Flag f) = True"
| "unrecorded name (Priority m ps required missing hint) = list_all (unrecorded name) ps"

text \<open>The resolution of a source leaves the slot of a destination alone: every name an
  environment source binds to the slot has an empty raw value, and no argument of an
  argument source denotes a flag that writes the slot.\<close>

fun idle :: "os \<Rightarrow> typ_rec \<Rightarrow> Provider \<Rightarrow> bool" where
  "idle sys to (Env e) =
     (\<forall>n t. map_of (env_m e) n = Some t \<and> target t = target to \<longrightarrow> rawVal (resolving sys e) n = [])"
| "idle sys to (Flag f) =
     (\<forall>n fv. formal (fs f) n = Some fv \<and> Some (flag_slot fv) = target to
        \<longrightarrow> (\<forall>tok \<in> set (args f). token_flag tok \<noteq> Some n))"
| "idle sys to (Priority m ps required missing hint) = list_all (idle sys to) ps"

text \<open>An argument source, or one among the members, has a flag of the name.\<close>

fun flag_defined :: "string \<Rightarrow> Provider \<Rightarrow> bool" where
  "flag_defined k (Env e) = False"
| "flag_defined k (Flag f) = (formal (fs f) k \<noteq> None)"
| "flag_defined k (Priority m ps required missing hint) = list_ex (flag_defined k) ps"

text \<open>A record with one required integer field whose default is 0, a store in which every
  integer slot holds 7, what the binder makes of the record with the composer above, and
  the store after the binding.\<close>

definition C3_zero_record :: "field list" where
  "C3_zero_record = [Field True False TInt ''port,required,default=0'' 1]"

definition C3_preset :: store where
  "C3_preset = zero_store\<lparr>ints := (\<lambda>a. 7)\<rparr>"

definition C3_zero_bound :: Provider where
  "C3_zero_bound =
     Priority [(''port'', typ_int (Some 1))]
       [Env (EnvProvider_IntVar (Some 1) ''port'' 0 True (NewEnvProvider (\<lambda>k. []) [])),
        Flag \<lparr>flag_m = [(''port'', typ_int (Some 1))],
              fs = \<lparr>formal = [''port'' \<mapsto> intValue 1], fs_args = []\<rparr>,
              flag_required = [''port''], flag_missing = [],
              args = [], remainingFunc = None, flag_hint = []\<rparr>]
       [''port''] [] []"

definition C3_zero_store :: store where
  "C3_zero_store = C3_preset\<lparr>ints := (ints C3_preset)(1 := 0)\<rparr>"

text \<open>A store in which the text slot 0 holds a value, what the binder makes of the record
  of one required text field with the composer of an environment and an argument source,
  and the store after that binding.\<close>

definition C2_preset :: store where
  "C2_preset = zero_store\<lparr>strings := (\<lambda>a. if a = 0 then ''preset'' else [])\<rparr>"

definition C2_flag_bound :: Provider where
  "C2_flag_bound =
     Priority [(''field1'', typ_string (Some 0))]
       [Env (EnvProvider_StringVar (Some 0) ''field1'' [] True (NewEnvProvider (\<lambda>k. []) [])),
        Flag \<lparr>flag_m = [(''field1'', typ_string (Some 0))],
              fs = \<lparr>formal = [''field1'' \<mapsto> stringValue 0], fs_args = []\<rparr>,
              flag_required = [''field1''], flag_missing = [],
              args = [], remainingFunc = None, flag_hint = []\<rparr>]
       [''field1''] [] []"

definition C2_cleared :: store where
  "C2_cleared = C2_preset\<lparr>strings := (strings C2_preset)(0 := [])\<rparr>"



section \<open>The order of iteration\<close>

lemma range_keys_set: "set (range_keys hint m) = fst ` set m"
  by (auto simp: range_keys_def map_keys_def)

lemma range_keys_distinct: "distinct (range_keys hint m)"
  by (auto simp: range_keys_def map_keys_def)

lemma map_filter_lookup:
  "(k, v) \<in> set (List.map_filter (\<lambda>k. map_option (Pair k) (map_of m k)) ks)
     \<longleftrightarrow> k \<in> set ks \<and> map_of m k = Some v"
  by (induction ks) (auto split: option.splits)

lemma map_filter_keys:
  "set ks \<subseteq> fst ` set m \<Longrightarrow>
     map fst (List.map_filter (\<lambda>k. map_option (Pair k) (map_of m k)) ks) = ks"
proof (induction ks)
  case Nil
  then show ?case by simp
next
  case (Cons k ks)
  then obtain v where "map_of m k = Some v"
    by (metis domD dom_map_of_conv_image_fst insert_subset list.simps(15))
  with Cons show ?case by simp
qed

lemma range_order_keys: "map fst (range_order hint m) = range_keys hint m"
  by (simp add: range_order_def range_keys_set map_filter_keys)

lemma range_order_distinct: "distinct (map fst (range_order hint m))"
  by (simp add: range_order_keys range_keys_distinct)

lemma range_order_iff: "(k, v) \<in> set (range_order hint m) \<longleftrightarrow> map_of m k = Some v"
  by (auto simp: range_order_def map_filter_lookup range_keys_set
           dest: map_of_SomeD intro: rev_image_eqI)

lemma range_missing_iff:
  "name \<in> set (range_missing h req entries) \<longleftrightarrow>
     (\<exists>to. (name, to) \<in> set entries \<and> Empty h to \<and> name \<in> set req)"
  by (force simp: range_missing_def)

lemma not_Empty_value: "has_value_slot to \<Longrightarrow> \<not> Empty h to"
  by (auto simp: has_value_slot_def Empty_def)

section \<open>Integer and boolean destinations are never missing\<close>

text \<open>
  Claim C9. Let a source be an argument source or a composer (not an environment
  source), and let its map bind a name to an integer or boolean destination whose
  pointer is not nil. Then \<open>Load\<close> never adds that name to the missing list of the
  source, whether or not the name is required and whatever the store holds: the missing
  list after \<open>Load\<close> is the one before it followed by names other than this one.
\<close>

theorem C9_value_slots_never_missing:
  assumes src: "\<forall>e. P \<noteq> Env e"
    and bound: "map_of (Provider_m P) name = Some to"
    and slot: "has_value_slot to"
    and load: "Provider_Load sys P h = Returns (err, P', h')"
  shows "\<exists>new. Provider_Missing P' = Provider_Missing P @ new \<and> name \<notin> set new"
proof (cases P)
  case (Env e)
  with src show ?thesis by simp
next
  case (Flag p)
  have no: "name \<notin> set (range_missing hh (flag_required p)
                            (range_order (flag_hint p) (flag_m p)))" for hh
    using bound slot Flag
    by (auto simp: range_missing_iff range_order_iff dest: not_Empty_value)
  show ?thesis
    using load Flag no
    by (auto simp: FlagProvider_Load_def FlagProvider_Missing_def Let_def
             split: prod.splits option.splits)
next
  case (Priority m ps required missing hint)
  have no: "name \<notin> set (range_missing hh required (range_order hint m))" for hh
    using bound slot Priority
    by (auto simp: range_missing_iff range_order_iff dest: not_Empty_value)
  show ?thesis
    using load Priority no
    by (auto split: exec.splits prod.splits option.splits)
qed

lemma C9_composer_load:
  "\<exists>P' h'. Provider_Load bare_os C9_composer zero_store = Returns (None, P', h')
      \<and> Provider_Missing P' = [''host'']"
  by (simp add: C9_composer_def FlagProvider_Load_def FlagSet_Parse_def NewFlagProvider_def
        NewFlagSet_def FlagSet_parse.simps parseOne_def range_missing_def range_order_def range_keys_def map_keys_def
        Empty_def typ_int_def typ_string_def zero_store_def)

theorem C9_value_slots_never_missing_witness:
  "(\<forall>e. C9_composer \<noteq> Env e)
     \<and> map_of (Provider_m C9_composer) ''port'' = Some (typ_int (Some 1))
     \<and> has_value_slot (typ_int (Some 1))
     \<and> (\<exists>P' h'. Provider_Load bare_os C9_composer zero_store = Returns (None, P', h')
           \<and> ''port'' \<notin> set (Provider_Missing P') \<and> ''host'' \<in> set (Provider_Missing P'))"
proof -
  have src: "\<forall>e. C9_composer \<noteq> Env e" by (simp add: C9_composer_def)
  have bound: "map_of (Provider_m C9_composer) ''port'' = Some (typ_int (Some 1))"
    by (simp add: C9_composer_def)
  have slot: "has_value_slot (typ_int (Some 1))"
    by (simp add: has_value_slot_def typ_int_def)
  obtain P' h' where load: "Provider_Load bare_os C9_composer zero_store = Returns (None, P', h')"
    and mis: "Provider_Missing P' = [''host'']"
    using C9_composer_load by blast
  from C9_value_slots_never_missing [OF src bound slot load]
  have "''port'' \<notin> set (Provider_Missing P')" by (auto simp: C9_composer_def)
  with src bound slot load mis show ?thesis by simp
qed

section \<open>The loop of the environment source\<close>

lemma env_range_missing:
  "env_range p es mis h = Returns (e, mis', h') \<Longrightarrow>
     \<exists>new. mis' = mis @ new
       \<and> set new \<subseteq> {n. (\<exists>t. (n, t) \<in> set es) \<and> rawVal p n = [] \<and> n \<in> set (env_required p)}
       \<and> (e = None \<longrightarrow>
            new = map fst (filter (\<lambda>(n, t). rawVal p n = [] \<and> n \<in> set (env_required p)) es))"
proof (induction p es mis h rule: env_range.induct)
  case (1 p missing h)
  then show ?case by simp
next
  case (2 p name to rest missing h)
  show ?case
  proof (cases "rawVal p name = []")
    case True
    with 2 show ?thesis by (fastforce simp: Let_def split: if_splits)
  next
    case False
    with 2 show ?thesis
      by (cases "kind to")
         (fastforce simp: Let_def split: option.splits sum.splits)+
  qed
qed

lemma deref_strings_other:
  "target to \<noteq> Some (KString, a) \<Longrightarrow> deref (h\<lparr>strings := (strings h)(a := v)\<rparr>) to = deref h to"
  by (auto simp: deref_def split: option.splits)

lemma deref_ints_other:
  "target to \<noteq> Some (KInt, a) \<Longrightarrow> deref (h\<lparr>ints := (ints h)(a := v)\<rparr>) to = deref h to"
  by (auto simp: deref_def split: option.splits)

lemma deref_bools_other:
  "target to \<noteq> Some (KBool, a) \<Longrightarrow> deref (h\<lparr>bools := (bools h)(a := v)\<rparr>) to = deref h to"
  by (auto simp: deref_def target_def split: option.splits Kind.splits)

lemma env_range_frame:
  "env_range p es mis h = Returns (e, mis', h') \<Longrightarrow>
   \<forall>(n, t) \<in> set es. rawVal p n \<noteq> [] \<longrightarrow> target t \<noteq> target to \<Longrightarrow>
   deref h' to = deref h to"
proof (induction p es mis h rule: env_range.induct)
  case (1 p missing h)
  then show ?case by simp
next
  case (2 p name t rest missing h)
  show ?case
  proof (cases "rawVal p name = []")
    case True
    with 2 show ?thesis by (auto simp: Let_def split: if_splits)
  next
    case False
    with 2 have ne: "target t \<noteq> target to" by auto
    show ?thesis
    proof (cases "kind t")
      case KString
      with 2 False ne show ?thesis
        by (auto simp: Let_def target_def deref_strings_other split: option.splits)
    next
      case KInt
      with 2 False ne show ?thesis
        by (auto simp: Let_def target_def deref_ints_other split: option.splits sum.splits)
    next
      case KBool
      with 2 False ne show ?thesis
        by (auto simp: Let_def target_def deref_bools_other split: option.splits sum.splits)
    qed (use 2 False in \<open>auto simp: Let_def\<close>)
  qed
qed


lemma env_range_step:
  assumes ok: "parse_failure p n t = None" and tg: "target t \<noteq> None"
  shows "\<exists>mis1 h1. \<forall>rest. env_range p ((n, t) # rest) mis h = env_range p rest mis1 h1"
proof (cases "rawVal p n = []")
  case True
  then have "\<forall>rest. env_range p ((n, t) # rest) mis h =
      env_range p rest (if n \<in> set (env_required p) then mis @ [n] else mis) h"
    by (simp add: Let_def)
  then show ?thesis by blast
next
  case False
  show ?thesis
  proof (cases "kind t")
    case KString
    with tg obtain a where "stringVal t = Some a" by (auto simp: target_def)
    with False KString have "\<forall>rest. env_range p ((n, t) # rest) mis h =
        env_range p rest mis (h\<lparr>strings := (strings h)(a := rawVal p n)\<rparr>)"
      by (simp add: Let_def)
    then show ?thesis by blast
  next
    case KInt
    with tg obtain a where a: "intVal t = Some a" by (auto simp: target_def)
    from ok False KInt obtain v where "Atoi (rawVal p n) = Inr v"
      by (auto simp: parse_failure_def split: sum.splits)
    with a False KInt have "\<forall>rest. env_range p ((n, t) # rest) mis h =
        env_range p rest mis (h\<lparr>ints := (ints h)(a := v)\<rparr>)"
      by (simp add: Let_def)
    then show ?thesis by blast
  next
    case KBool
    with tg obtain a where a: "boolVal t = Some a" by (auto simp: target_def)
    from ok False KBool obtain v where "ParseBool (rawVal p n) = Inr v"
      by (auto simp: parse_failure_def split: sum.splits)
    with a False KBool have "\<forall>rest. env_range p ((n, t) # rest) mis h =
        env_range p rest mis (h\<lparr>bools := (bools h)(a := v)\<rparr>)"
      by (simp add: Let_def)
    then show ?thesis by blast
  qed (use tg in \<open>simp_all add: target_def\<close>)
qed

lemma env_range_fails:
  assumes "parse_failure p n t = Some c"
  shows "env_range p ((n, t) # rest) mis h =
           Returns (Some (wrapError (''failed to parse '' @ n @ '' as '' @ Kind_String (kind t) @ '': '') c),
                    mis, h)"
  using assms
  by (cases "kind t")
     (auto simp: Let_def parse_failure_def split: sum.splits option.splits if_splits)

lemma env_range_abort:
  assumes "\<forall>(n, t) \<in> set es. target t \<noteq> None"
    and "\<exists>(n, t) \<in> set es. parse_failure p n t \<noteq> None"
  shows "\<exists>before q tq cq after mis' h'.
           es = before @ (q, tq) # after
         \<and> (\<forall>(n, t) \<in> set before. parse_failure p n t = None)
         \<and> parse_failure p q tq = Some cq
         \<and> env_range p before mis h = Returns (None, mis', h')
         \<and> env_range p es mis h =
             Returns (Some (wrapError (''failed to parse '' @ q @ '' as '' @ Kind_String (kind tq) @ '': '') cq),
                      mis', h')"
  using assms
proof (induction es arbitrary: mis h)
  case Nil
  then show ?case by simp
next
  case (Cons e es)
  obtain n t where e: "e = (n, t)" by (cases e)
  show ?case
  proof (cases "parse_failure p n t")
    case (Some c)
    have "e # es = [] @ (n, t) # es" by (simp add: e)
    moreover have "env_range p [] mis h = Returns (None, mis, h)" by simp
    ultimately show ?thesis
      using Some env_range_fails [OF Some, of es mis h] unfolding e
      by (metis (no_types, lifting) empty_iff list.set(1) ball_empty)
  next
    case None
    from Cons.prems have tg: "target t \<noteq> None" by (simp add: e)
    from env_range_step [OF None tg] obtain mis1 h1
      where step: "\<And>rest. env_range p ((n, t) # rest) mis h = env_range p rest mis1 h1"
      by blast
    from Cons.prems None have "\<forall>(n, t) \<in> set es. target t \<noteq> None"
      and "\<exists>(n, t) \<in> set es. parse_failure p n t \<noteq> None" by (auto simp: e)
    from Cons.IH [OF this, of mis1 h1] obtain before q tq cq after mis' h' where
      IH: "es = before @ (q, tq) # after"
        "\<forall>(n, t) \<in> set before. parse_failure p n t = None"
        "parse_failure p q tq = Some cq"
        "env_range p before mis1 h1 = Returns (None, mis', h')"
        "env_range p es mis1 h1 =
           Returns (Some (wrapError (''failed to parse '' @ q @ '' as '' @ Kind_String (kind tq) @ '': '') cq), mis', h')"
      by blast
    have "e # es = ((n, t) # before) @ (q, tq) # after" using IH(1) e by simp
    moreover have "\<forall>(n, t) \<in> set ((n, t) # before). parse_failure p n t = None"
      using IH(2) None by simp
    moreover have "env_range p ((n, t) # before) mis h = Returns (None, mis', h')"
      using step IH(4) by simp
    moreover have "env_range p (e # es) mis h =
           Returns (Some (wrapError (''failed to parse '' @ q @ '' as '' @ Kind_String (kind tq) @ '': '') cq), mis', h')"
      using step IH(5) e by simp
    ultimately show ?thesis using IH(3) by blast
  qed
qed

lemma dotenv_stage_same:
  "dotenv_stage sys p = (err, p') \<Longrightarrow>
     env_m p' = env_m p \<and> fallbacks p' = fallbacks p \<and> env_required p' = env_required p
     \<and> env_missing p' = env_missing p \<and> env_hint p' = env_hint p"
  by (auto simp: dotenv_stage_def AddDotEnv_def Let_def split: if_splits option.splits sum.splits)

text \<open>
  Claim C4, as amended. Let the dotenv stage of \<open>Load\<close> pass, let every registered
  destination have a supported kind and a pointer that is not nil (as every registration
  with a pointer that is not nil leaves them), and let a registered parameter have a raw
  value, after the fallback, that is not empty and that the parser of its kind (integer
  or boolean) rejects. Then \<open>Load\<close> of the environment source returns an error at once.
  The loop stops at the first parameter of the iteration, \<open>q\<close>, whose value fails its
  coercion: the entries before it are resolved, the entries after it are not looked at,
  and the error is \<open>failed to parse q as int\<close> or \<open>failed to parse q as bool\<close>,
  wrapping the cause of the parser. Neither \<open>q\<close> nor the parameter of the hypothesis is
  among the names added to the missing list. When the parameter of the hypothesis is the
  only one whose value fails, it is the one the error names.
\<close>

theorem C4_parse_failure_aborts:
  assumes stage: "dotenv_stage sys p = (None, pe)"
    and wf: "\<forall>(n, t) \<in> set (env_m p). target t \<noteq> None"
    and bound: "map_of (env_m p) name = Some to"
    and bad: "parse_failure pe name to = Some cause"
  shows "\<exists>before q tq cq after missing' h'.
           range_order (env_hint p) (env_m p) = before @ (q, tq) # after
         \<and> (\<forall>(n, t) \<in> set before. parse_failure pe n t = None)
         \<and> parse_failure pe q tq = Some cq
         \<and> env_range pe before (env_missing p) h = Returns (None, missing', h')
         \<and> EnvProvider_Load sys p h =
             Returns (Some (wrapError (''failed to parse '' @ q @ '' as '' @ Kind_String (kind tq) @ '': '') cq),
                      pe\<lparr>env_missing := missing'\<rparr>, h')
         \<and> (\<exists>new. missing' = env_missing p @ new \<and> name \<notin> set new \<and> q \<notin> set new)
         \<and> ((\<forall>n t. n \<noteq> name \<and> map_of (env_m p) n = Some t \<longrightarrow> parse_failure pe n t = None)
              \<longrightarrow> q = name \<and> tq = to \<and> cq = cause)"
proof -
  let ?es = "range_order (env_hint p) (env_m p)"
  have same: "env_m pe = env_m p" "env_missing pe = env_missing p" "env_hint pe = env_hint p"
    using dotenv_stage_same [OF stage] by simp_all
  have 1: "\<forall>(n, t) \<in> set ?es. target t \<noteq> None"
    using wf by (fastforce simp: range_order_iff dest: map_of_SomeD)
  have "(name, to) \<in> set ?es" using bound by (simp add: range_order_iff)
  with bad have 2: "\<exists>(n, t) \<in> set ?es. parse_failure pe n t \<noteq> None" by force
  from env_range_abort [OF 1 2, of "env_missing p" h]
  obtain before q tq cq after missing' h' where
    A: "?es = before @ (q, tq) # after"
      "\<forall>(n, t) \<in> set before. parse_failure pe n t = None"
      "parse_failure pe q tq = Some cq"
      "env_range pe before (env_missing p) h = Returns (None, missing', h')"
      "env_range pe ?es (env_missing p) h =
         Returns (Some (wrapError (''failed to parse '' @ q @ '' as '' @ Kind_String (kind tq) @ '': '') cq), missing', h')"
    by blast
  from env_range_missing [OF A(5)] obtain new where
    new: "missing' = env_missing p @ new"
      "set new \<subseteq> {n. (\<exists>t. (n, t) \<in> set ?es) \<and> rawVal pe n = [] \<and> n \<in> set (env_required pe)}"
    by blast
  have "rawVal pe name \<noteq> []" using bad by (auto simp: parse_failure_def split: if_splits)
  with new(2) have "name \<notin> set new" by auto
  moreover have "rawVal pe q \<noteq> []" using A(3) by (auto simp: parse_failure_def split: if_splits)
  with new(2) have "q \<notin> set new" by auto
  moreover have "EnvProvider_Load sys p h =
      Returns (Some (wrapError (''failed to parse '' @ q @ '' as '' @ Kind_String (kind tq) @ '': '') cq),
               pe\<lparr>env_missing := missing'\<rparr>, h')"
    using stage A(5) same by (simp add: EnvProvider_Load_def)
  moreover have "(\<forall>n t. n \<noteq> name \<and> map_of (env_m p) n = Some t \<longrightarrow> parse_failure pe n t = None)
              \<longrightarrow> q = name \<and> tq = to \<and> cq = cause"
  proof
    assume only: "\<forall>n t. n \<noteq> name \<and> map_of (env_m p) n = Some t \<longrightarrow> parse_failure pe n t = None"
    have "(q, tq) \<in> set ?es" using A(1) by simp
    then have q: "map_of (env_m p) q = Some tq" by (simp add: range_order_iff)
    with only A(3) have "q = name" by force
    with q bound bad A(3) show "q = name \<and> tq = to \<and> cq = cause" by simp
  qed
  ultimately show ?thesis using A(1-4) new(1) by blast
qed

text \<open>
  The claim as it is stated fails when two parameters have values that fail: the error
  names the first of them in the order of the iteration only. Here both \<open>a\<close> and \<open>b\<close>
  are integers with values that do not parse, and the error names \<open>a\<close>.
\<close>

theorem C4_two_failures_counterexample:
  "parse_failure C4_two_bad ''b'' (typ_int (Some 1)) = Some (NumError ''Atoi'' ''y'' ErrSyntax)
   \<and> returned (EnvProvider_Load bare_os C4_two_bad zero_store)
       = Returns (Some (wrapError ''failed to parse a as int: '' (NumError ''Atoi'' ''x'' ErrSyntax)))"
  by code_simp

lemma uppersnake_port: "uppersnake ''port'' = ''PORT''"
  by code_simp

lemma uppersnake_host: "uppersnake ''host'' = ''HOST''"
  by code_simp

lemma Atoi_abc: "Atoi ''abc'' = Inl (NumError ''Atoi'' ''abc'' ErrSyntax)"
  by (simp add: Atoi_def isDigit_def)

lemma Atoi_8080: "Atoi ''8080'' = Inr 8080"
  by (simp add: Atoi_def isDigit_def digitVal_def minInt_def maxInt_def)

lemma C4_env_fields:
  "withDotEnv C4_env = False"
  "getenv C4_env = (\<lambda>k. if k = ''PORT'' then ''abc'' else [])"
  "env_m C4_env = [(''port'', typ_int (Some 1)), (''host'', typ_string (Some 0))]"
  "fallbacks C4_env = Map.empty"
  "env_required C4_env = [''host'', ''port'']"
  "env_missing C4_env = []"
  "env_hint C4_env = [''host'', ''port'']"
  by (simp_all add: C4_env_def EnvProvider_IntVar_def EnvProvider_StringVar_def NewEnvProvider_def)

lemma C4_env_raw: "rawVal C4_env ''port'' = ''abc''" "rawVal C4_env ''host'' = []"
  by (simp_all add: C4_env_fields rawVal_def uppersnake_port uppersnake_host)

lemma C4_env_order:
  "range_order (env_hint C4_env) (env_m C4_env) =
     [(''host'', typ_string (Some 0)), (''port'', typ_int (Some 1))]"
  by (simp add: C4_env_fields range_order_def range_keys_def map_keys_def)

lemma C4_env_load:
  "EnvProvider_Load bare_os C4_env zero_store =
     Returns (Some (wrapError ''failed to parse port as int: '' (NumError ''Atoi'' ''abc'' ErrSyntax)),
              C4_env\<lparr>env_missing := [''host'']\<rparr>, zero_store)"
  by (simp add: EnvProvider_Load_def dotenv_stage_def C4_env_order C4_env_raw Atoi_abc Let_def
        typ_int_def typ_string_def C4_env_fields(1,5,6))


theorem C4_parse_failure_aborts_witness:
  "dotenv_stage bare_os C4_env = (None, C4_env)
   \<and> list_all (\<lambda>(n, t). target t \<noteq> None) (env_m C4_env)
   \<and> map_of (env_m C4_env) ''port'' = Some (typ_int (Some 1))
   \<and> parse_failure C4_env ''port'' (typ_int (Some 1)) = Some (NumError ''Atoi'' ''abc'' ErrSyntax)
   \<and> (\<exists>p' new. EnvProvider_Load bare_os C4_env zero_store =
          Returns (Some (wrapError ''failed to parse port as int: '' (NumError ''Atoi'' ''abc'' ErrSyntax)),
                   p', zero_store)
        \<and> env_missing p' = env_missing C4_env @ new \<and> ''port'' \<notin> set new)"
proof -
  have stage: "dotenv_stage bare_os C4_env = (None, C4_env)"
    by (simp add: dotenv_stage_def C4_env_fields)
  have wf: "\<forall>(n, t) \<in> set (env_m C4_env). target t \<noteq> None"
    by (simp add: C4_env_fields target_def typ_int_def typ_string_def)
  have bound: "map_of (env_m C4_env) ''port'' = Some (typ_int (Some 1))"
    by (simp add: C4_env_fields)
  have bad: "parse_failure C4_env ''port'' (typ_int (Some 1)) = Some (NumError ''Atoi'' ''abc'' ErrSyntax)"
    by (simp add: parse_failure_def C4_env_raw Atoi_abc typ_int_def)
  from C4_parse_failure_aborts [OF stage wf bound bad, of zero_store]
  obtain q and tq :: typ_rec and cq missing' and h' :: store and new where
    "EnvProvider_Load bare_os C4_env zero_store =
       Returns (Some (wrapError (''failed to parse '' @ q @ '' as '' @ Kind_String (kind tq) @ '': '') cq),
                C4_env\<lparr>env_missing := missing'\<rparr>, h')"
    and "missing' = env_missing C4_env @ new" and "''port'' \<notin> set new"
    by (elim exE conjE) (rule that, assumption+)
  then have "\<exists>p' new. EnvProvider_Load bare_os C4_env zero_store =
          Returns (Some (wrapError ''failed to parse port as int: '' (NumError ''Atoi'' ''abc'' ErrSyntax)),
                   p', zero_store)
        \<and> env_missing p' = env_missing C4_env @ new \<and> ''port'' \<notin> set new"
    using C4_env_load by auto
  with stage wf bound bad show ?thesis by (simp add: list_all_iff)
qed

lemma C5_env_fields:
  "withDotEnv C5_env = False"
  "getenv C5_env = (\<lambda>k. if k = ''PORT'' then ''8080'' else [])"
  "env_m C5_env = [(''port'', typ_int (Some 1)), (''host'', typ_string (Some 0))]"
  "fallbacks C5_env = Map.empty"
  "env_required C5_env = [''host'', ''port'']"
  "env_missing C5_env = []"
  "env_hint C5_env = [''host'', ''port'']"
  by (simp_all add: C5_env_def EnvProvider_IntVar_def EnvProvider_StringVar_def NewEnvProvider_def)

lemma C5_env_load:
  "EnvProvider_Load bare_os C5_env zero_store =
     Returns (None, C5_env\<lparr>env_missing := [''host'']\<rparr>, zero_store\<lparr>ints := (ints zero_store)(1 := 8080)\<rparr>)"
  by (simp add: EnvProvider_Load_def dotenv_stage_def C5_env_fields range_order_def range_keys_def
        map_keys_def rawVal_def uppersnake_port uppersnake_host Atoi_8080 Let_def
        typ_int_def typ_string_def)

lemma FormatInt_1: "FormatInt 1 = ''1''"
  by code_simp

lemma ParseReader_MALFORMED:
  "ParseReader ''MALFORMED'' = Inl (errorString ''malformed line 1: MALFORMED'')"
  by (simp add: ParseReader_def ScanLines_def dropCR_def TrimSpace_def isSpace_def HasPrefix_def
        Split_def Let_def FormatInt_1)

section \<open>The dotenv stream\<close>

text \<open>
  Claim C8, at the input where the code departs from it: an environment source with a
  dotenv stream whose content does not parse. \<open>Load\<close> returns the parse failure and the
  stream has not been closed: \<open>AddDotEnv\<close> returns before it reaches \<open>Close\<close>.
\<close>

theorem C8_stream_left_open_on_parse_failure:
  "\<exists>p'. EnvProvider_Load bare_os C8_env zero_store =
      Returns (Some (wrapError ''failed to add .env file: ''
                 (wrapError ''failed to parse .env file: ''
                    (errorString ''malformed line 1: MALFORMED''))), p', zero_store)
     \<and> map_option rd_closed (dotEnvReader p') = Some False"
  by (simp add: EnvProvider_Load_def dotenv_stage_def AddDotEnv_def C8_env_def WithDotEnv_def
        NewEnvProvider_def ParseReader_MALFORMED Let_def)

lemma AddDotEnv_closes_on_success:
  "AddDotEnv sys p = (None, p') \<Longrightarrow> dotEnvReader p = Some rd \<Longrightarrow>
     map_option rd_closed (dotEnvReader p') = Some True"
  by (auto simp: AddDotEnv_def Let_def split: sum.splits option.splits)

section \<open>The tokens the argument source leaves\<close>



lemma parseOne_suffix:
  "parseOne fm as h = (seen, e, left, h') \<Longrightarrow> \<exists>consumed. as = consumed @ left"
  by (auto simp: parseOne_def Let_def
           split: list.splits if_splits prod.splits option.splits sum.splits)


lemma FlagSet_parse_seen:
  "parseOne fm as h = (True, e1, left1, h1) \<Longrightarrow> FlagSet_parse fm as h = FlagSet_parse fm left1 h1"
  by (simp add: FlagSet_parse.simps [of fm as h])

lemma FlagSet_parse_unseen:
  "parseOne fm as h = (False, e1, left1, h1) \<Longrightarrow> FlagSet_parse fm as h = (e1, left1, h1)"
  by (simp add: FlagSet_parse.simps [of fm as h])

lemma parseOne_seen_shorter:
  "parseOne fm as h = (True, e, left, h') \<Longrightarrow> length left < length as"
  by (auto simp: parseOne_def Let_def
           split: list.splits if_splits prod.splits option.splits sum.splits)






text \<open>The same example through \<open>LoadFlagsWithRemaining\<close>, from the record.\<close>

lemma C7_example_toplevel:
  "(case LoadFlagsWithRemaining bare_os (StructPointer False [Field True False TString ''field1,required'' 0])
      [''--field1'', ''value1'', ''extra'', ''--field1'', ''value2''] (Some 0) zero_store of
      Returns (None, h') \<Rightarrow> strings h' 0 = ''value1'' \<and> remaining_calls h' = [(0, [''extra'', ''--field1'', ''value2''])]
    | _ \<Rightarrow> False)"
  by code_simp



section \<open>The later member of a composer wins\<close>

text \<open>
  Claim C1. Let a composer have the two members \<open>A\<close> and \<open>B\<close>, in this order, and let
  its \<open>Load\<close> succeed. Then \<open>Load\<close> of \<open>A\<close> has succeeded on the store of the call,
  \<open>Load\<close> of \<open>B\<close> has succeeded on the store \<open>A\<close> left, and the store \<open>B\<close> left is
  the final one: a slot to which \<open>B\<close> assigns a value holds that value in the end,
  whatever \<open>A\<close> assigned to it. (Nothing is asked of the values: the later member wins
  also with an empty one.)
\<close>

theorem C1_later_source_wins:
  assumes load: "Provider_Load sys (Priority m [A, B] required missing hint) h = Returns (None, P', h')"
    and A: "assigns sys A to va"
    and B: "assigns sys B to vb"
  shows "\<exists>A' B' h1. Provider_Load sys A h = Returns (None, A', h1)
            \<and> Provider_Load sys B h1 = Returns (None, B', h')
            \<and> deref h' to = Some vb"
proof -
  from load obtain A' h1 where a: "Provider_Load sys A h = Returns (None, A', h1)"
    by (auto split: exec.splits option.splits prod.splits)
  with load obtain B' where b: "Provider_Load sys B h1 = Returns (None, B', h')"
    by (auto split: exec.splits option.splits prod.splits)
  from B b have "deref h' to = Some vb"
    by (auto simp: assigns_def dest: spec [of _ h1])
  with a b show ?thesis by blast
qed

lemma C1_registration:
  "\<exists>h. Provider_Var (StringVar (Some 0) []) ''field1'' True
     (NewPriorityProvider [Env (NewEnvProvider (\<lambda>k. if k = ''FIELD1'' then ''value1'' else []) []),
                           Flag (NewFlagProvider [''-field1'', ''value2''] [])] []) zero_store
   = Returns (C1_composer, h)"
  by (simp add: NewPriorityProvider_def C1_composer_def C1_env_def C1_flag_def NewFlagProvider_def
        FlagProvider_StringVar_def FlagSet_StringVar_def FlagSet_Var_def NewFlagSet_def
        normalizeName_def ReplaceAll_def HasPrefix_def Let_def)

lemma uppersnake_field1: "uppersnake ''field1'' = ''FIELD1''"
  by code_simp

lemma C1_env_load:
  "EnvProvider_Load sys C1_env h =
     Returns (None, C1_env, h\<lparr>strings := (strings h)(0 := ''value1'')\<rparr>)"
  by (simp add: EnvProvider_Load_def dotenv_stage_def C1_env_def EnvProvider_StringVar_def
        NewEnvProvider_def range_order_def range_keys_def map_keys_def rawVal_def
        uppersnake_field1 Let_def typ_string_def)

lemma C1_flag_load:
  "FlagProvider_Load C1_flag h =
     (None, C1_flag\<lparr>fs := \<lparr>formal = [''field1'' \<mapsto> stringValue 0], fs_args = []\<rparr>\<rparr>,
      h\<lparr>strings := (strings h)(0 := ''value2'')\<rparr>)"
  by (simp add: FlagProvider_Load_def FlagSet_Parse_def C1_flag_def FlagSet_parse.simps parseOne_def
        splitValue.simps isBoolFlag_def Let_def range_missing_def range_order_def range_keys_def
        map_keys_def Empty_def typ_string_def)


lemma C1_composer_load:
  "\<exists>P'. Provider_Load bare_os C1_composer zero_store =
      Returns (None, P', zero_store\<lparr>strings := ((strings zero_store)(0 := ''value1''))(0 := ''value2'')\<rparr>)
    \<and> Provider_Missing P' = []"
  by (simp add: C1_composer_def C1_env_load C1_flag_load range_missing_def range_order_def
        range_keys_def map_keys_def Empty_def typ_string_def)

theorem C1_later_source_wins_witness:
  "assigns bare_os (Env C1_env) (typ_string (Some 0)) (VString ''value1'')
   \<and> assigns bare_os (Flag C1_flag) (typ_string (Some 0)) (VString ''value2'')
   \<and> (\<exists>P' h'. Provider_Load bare_os C1_composer zero_store = Returns (None, P', h')
         \<and> deref h' (typ_string (Some 0)) = Some (VString ''value2''))"
proof -
  have A: "assigns bare_os (Env C1_env) (typ_string (Some 0)) (VString ''value1'')"
    by (simp add: assigns_def C1_env_load deref_def target_def typ_string_def)
  have B: "assigns bare_os (Flag C1_flag) (typ_string (Some 0)) (VString ''value2'')"
    by (simp add: assigns_def C1_flag_load deref_def target_def typ_string_def)
  obtain P' h' where load: "Provider_Load bare_os C1_composer zero_store = Returns (None, P', h')"
    using C1_composer_load by blast
  from C1_later_source_wins [OF load [unfolded C1_composer_def] A B]
  have "deref h' (typ_string (Some 0)) = Some (VString ''value2'')" by blast
  with A B load show ?thesis by blast
qed

section \<open>Unexported fields\<close>

lemma LoadFields_append:
  "LoadFields sticky (xs @ ys) c h =
     (case LoadFields sticky xs c h of
        Returns (None, c', h') \<Rightarrow> LoadFields sticky ys c' h'
      | r \<Rightarrow> r)"
  by (induction xs arbitrary: c h) (auto split: exec.splits option.splits prod.splits)

lemma LoadField_unexported:
  assumes prim: "ty = TString \<or> ty = TInt \<or> ty = TBool"
    and tagged: "tagv \<noteq> []"
    and dflt: "default_ok ty tagv"
  shows "LoadField sticky (Field False em ty tagv a) c h = Panics UnexportedFieldInterface"
  using assms
  by (auto simp: default_ok_def register_field_def field_pointer_def
           split: prod.splits sum.splits)

text \<open>
  Claim C10, as amended. Take an unexported field of type \<open>string\<close>, \<open>int\<close> or \<open>bool\<close>
  whose \<open>conf\<close> tag is not empty and whose default literal, if it has one, is well formed
  for the type. \<open>LoadField\<close> panics at this field, at any depth of the record and
  whatever the provider: \<open>Interface\<close> refuses a value reached through an unexported
  field. \<open>Load\<close> panics when the field is a field of the record and the fields before it
  bind without a failure.
\<close>

theorem C10_unexported_field_panics:
  assumes prim: "ty = TString \<or> ty = TInt \<or> ty = TBool"
    and tagged: "tagv \<noteq> []"
    and dflt: "default_ok ty tagv"
  shows "LoadField sticky (Field False em ty tagv a) c h = Panics UnexportedFieldInterface
       \<and> (LoadFields False before (initial_provider sys hint opts) h = Returns (None, c1, h1)
            \<longrightarrow> Load sys hint (StructPointer False (before @ Field False em ty tagv a # after)) opts h
                  = Panics UnexportedFieldInterface)"
proof -
  note one = LoadField_unexported [OF assms]
  show ?thesis
    by (simp add: one Load_def LoadFields_append initial_provider_def Let_def
             del: LoadField.simps)
qed

text \<open>
  The claim as it is stated fails for an unexported \<open>int\<close> field whose default literal is
  malformed: the binder parses the default before it takes the address, and \<open>Load\<close>
  returns the error of the default instead of panicking.
\<close>

theorem C10_malformed_default_counterexample:
  "returned (Load bare_os [] (StructPointer False [Field False False TInt ''retries,default=abc'' 0]) [] zero_store)
     = Returns (Some (fallbackError KInt ''abc'' (NumError ''Atoi'' ''abc'' ErrSyntax)))"
  by code_simp

theorem C10_unexported_field_panics_witness:
  "default_ok TString ''secret''
   \<and> (\<exists>c1 h1. LoadFields False [Field True False TString ''host,required'' 0]
                  (initial_provider bare_os [] []) zero_store = Returns (None, c1, h1))
   \<and> Load bare_os [] (StructPointer False
          [Field True False TString ''host,required'' 0, Field False False TString ''secret'' 1])
        [] zero_store = Panics UnexportedFieldInterface"
proof -
  have d: "default_ok TString ''secret''" by (simp add: default_ok_def split: prod.splits)
  have t: "''secret'' \<noteq> []" by simp
  have b: "\<exists>c1 h1. LoadFields False [Field True False TString ''host,required'' 0]
                  (initial_provider bare_os [] []) zero_store = Returns (None, c1, h1)"
    by (simp add: initial_provider_def register_field_def field_pointer_def split: prod.splits)
  then obtain c1 h1 where b1: "LoadFields False [Field True False TString ''host,required'' 0]
                  (initial_provider bare_os [] []) zero_store = Returns (None, c1, h1)" by blast
  have p: "TString = TString \<or> TString = TInt \<or> TString = TBool" by simp
  from C10_unexported_field_panics [OF p t d, where before = "[Field True False TString ''host,required'' 0]"
         and sys = bare_os and hint = "[]" and opts = "[]" and h = zero_store and ?c1.0 = c1 and ?h1.0 = h1
         and after = "[]" and em = False and a = 1] b1
  have "Load bare_os [] (StructPointer False
          ([Field True False TString ''host,required'' 0] @ Field False False TString ''secret'' 1 # []))
        [] zero_store = Panics UnexportedFieldInterface"
    by simp
  with d b show ?thesis by simp
qed

section \<open>What the environment source writes\<close>

lemma deref_strings_same:
  "target to = Some (KString, a) \<Longrightarrow> deref (h\<lparr>strings := (strings h)(a := v)\<rparr>) to = Some (VString v)"
  by (simp add: deref_def)

lemma deref_ints_same:
  "target to = Some (KInt, a) \<Longrightarrow> deref (h\<lparr>ints := (ints h)(a := v)\<rparr>) to = Some (VInt v)"
  by (simp add: deref_def)

lemma deref_bools_same:
  "target to = Some (KBool, a) \<Longrightarrow> deref (h\<lparr>bools := (bools h)(a := v)\<rparr>) to = Some (VBool v)"
  by (simp add: deref_def)

lemma env_range_Cons_success:
  assumes "env_range p ((n, t) # rest) mis h = Returns (None, mis', h')"
  shows "\<exists>mis1 h1. env_range p rest mis1 h1 = Returns (None, mis', h')
           \<and> (rawVal p n = [] \<longrightarrow> h1 = h)
           \<and> (rawVal p n \<noteq> [] \<longrightarrow> target t \<noteq> None \<and> deref h1 t = coerce (kind t) (rawVal p n))"
proof (cases "rawVal p n = []")
  case True
  with assms show ?thesis by (auto simp: Let_def)
next
  case False
  show ?thesis
  proof (cases "kind t")
    case KString
    with assms False obtain a where a: "stringVal t = Some a"
      and run: "env_range p rest mis (h\<lparr>strings := (strings h)(a := rawVal p n)\<rparr>) = Returns (None, mis', h')"
      by (auto simp: Let_def split: option.splits)
    from a KString have "target t = Some (KString, a)" by (simp add: target_def)
    with run False KString show ?thesis
      by (intro exI [of _ mis] exI [of _ "h\<lparr>strings := (strings h)(a := rawVal p n)\<rparr>"])
         (simp add: deref_strings_same coerce_def)
  next
    case KInt
    with assms False obtain a v where a: "intVal t = Some a" and v: "Atoi (rawVal p n) = Inr v"
      and run: "env_range p rest mis (h\<lparr>ints := (ints h)(a := v)\<rparr>) = Returns (None, mis', h')"
      by (auto simp: Let_def split: option.splits sum.splits)
    from a KInt have "target t = Some (KInt, a)" by (simp add: target_def)
    with run False KInt v show ?thesis
      by (intro exI [of _ mis] exI [of _ "h\<lparr>ints := (ints h)(a := v)\<rparr>"])
         (simp add: deref_ints_same coerce_def)
  next
    case KBool
    with assms False obtain a v where a: "boolVal t = Some a" and v: "ParseBool (rawVal p n) = Inr v"
      and run: "env_range p rest mis (h\<lparr>bools := (bools h)(a := v)\<rparr>) = Returns (None, mis', h')"
      by (auto simp: Let_def split: option.splits sum.splits)
    from a KBool have "target t = Some (KBool, a)" by (simp add: target_def)
    with run False KBool v show ?thesis
      by (intro exI [of _ mis] exI [of _ "h\<lparr>bools := (bools h)(a := v)\<rparr>"])
         (simp add: deref_bools_same coerce_def)
  qed (use assms False in \<open>auto simp: Let_def\<close>)
qed

lemma env_range_writes:
  assumes "env_range p es mis h = Returns (None, mis', h')"
    and "distinct (map fst es)"
    and "(name, to) \<in> set es"
    and "rawVal p name \<noteq> []"
    and "\<forall>(n, t) \<in> set es. n \<noteq> name \<longrightarrow> target t \<noteq> target to"
  shows "deref h' to = coerce (kind to) (rawVal p name)"
  using assms
proof (induction es arbitrary: mis h)
  case Nil
  then show ?case by simp
next
  case (Cons e es)
  obtain n t where e: "e = (n, t)" by (cases e)
  from env_range_Cons_success [OF Cons.prems(1) [unfolded e]] obtain mis1 h1 where
    run: "env_range p es mis1 h1 = Returns (None, mis', h')"
    and wr: "rawVal p n \<noteq> [] \<longrightarrow> target t \<noteq> None \<and> deref h1 t = coerce (kind t) (rawVal p n)"
    by blast
  show ?case
  proof (cases "n = name")
    case True
    with Cons.prems(2,3) e have t: "t = to" by (auto simp: rev_image_eqI)
    from Cons.prems(2,5) e True have "\<forall>(n', t') \<in> set es. rawVal p n' \<noteq> [] \<longrightarrow> target t' \<noteq> target to"
      by (auto simp: rev_image_eqI)
    from env_range_frame [OF run this] wr True t Cons.prems(4) show ?thesis by simp
  next
    case False
    with Cons.prems e have "distinct (map fst es)" "(name, to) \<in> set es"
      "\<forall>(n, t) \<in> set es. n \<noteq> name \<longrightarrow> target t \<noteq> target to"
      by auto
    from Cons.IH [OF run this(1,2) Cons.prems(4) this(3)] show ?thesis .
  qed
qed

section \<open>Registering a name twice\<close>

lemma EnvProvider_Load_writes:
  assumes load: "EnvProvider_Load sys e h = Returns (None, e', h')"
    and bound: "map_of (env_m e) name = Some to"
    and raw: "rawVal (resolving sys e) name \<noteq> []"
    and sole: "\<forall>n t. n \<noteq> name \<and> map_of (env_m e) n = Some t \<longrightarrow> target t \<noteq> target to"
  shows "deref h' to = coerce (kind to) (rawVal (resolving sys e) name)"
proof -
  obtain er pe where stage: "dotenv_stage sys e = (er, pe)" by (cases "dotenv_stage sys e")
  have same: "env_m pe = env_m e" "env_missing pe = env_missing e" "env_hint pe = env_hint e"
    using dotenv_stage_same [OF stage] by simp_all
  have pe: "resolving sys e = pe" using stage by (simp add: resolving_def)
  let ?es = "range_order (env_hint e) (env_m e)"
  from load stage same obtain mis' where
    run: "env_range pe ?es (env_missing e) h = Returns (None, mis', h')"
    by (auto simp: EnvProvider_Load_def split: option.splits exec.splits)
  have "\<forall>(n, t) \<in> set ?es. n \<noteq> name \<longrightarrow> target t \<noteq> target to"
    using sole by (auto simp: range_order_iff)
  from env_range_writes [OF run range_order_distinct _ raw [unfolded pe] this] bound
  show ?thesis by (simp add: range_order_iff pe)
qed

lemma EnvProvider_Var_fields:
  "env_m (EnvProvider_Var v n r e) = (n, var_typ v) # env_m e"
  "getenv (EnvProvider_Var v n r e) = getenv e"
  "withDotEnv (EnvProvider_Var v n r e) = withDotEnv e"
  "dotEnvReader (EnvProvider_Var v n r e) = dotEnvReader e"
  "env_missing (EnvProvider_Var v n r e) = env_missing e"
  "env_hint (EnvProvider_Var v n r e) = env_hint e"
  by (cases v; simp add: EnvProvider_StringVar_def EnvProvider_IntVar_def EnvProvider_BoolVar_def Let_def)+

lemma FlagProvider_Var_defined:
  "FlagProvider_Var v name r p h = Returns (p1, h1) \<Longrightarrow>
     formal (fs p1) (normalizeName name) \<noteq> None
     \<and> \<not> HasPrefix (normalizeName name) ''-'' \<and> CHR ''='' \<notin> set (normalizeName name)"
  by (cases v)
     (auto simp: FlagProvider_StringVar_def FlagProvider_IntVar_def FlagProvider_BoolVar_def
                 FlagSet_StringVar_def FlagSet_IntVar_def FlagSet_BoolVar_def FlagSet_Var_def Let_def
           split: option.splits if_splits exec.splits)




section \<open>The steps of the binder\<close>

lemma run_steps_append:
  "run_steps (xs @ ys) c h =
     (case run_steps xs c h of
        Returns (None, c', h') \<Rightarrow> run_steps ys c' h'
      | r \<Rightarrow> r)"
proof (induction xs arbitrary: c h)
  case Nil
  then show ?case by simp
next
  case (Cons s xs)
  then show ?case by (cases s) (auto split: exec.splits)
qed

lemma register_field_step:
  "register_field ro ty a mk name req c h = run_steps [register_step ro ty a mk name req] c h"
  by (auto simp: register_field_def register_step_def split: exec.splits)

lemma LoadField_steps:
  "LoadField sticky f c h = run_steps (field_steps sticky f) c h"
  and LoadFields_steps:
  "LoadFields sticky fs' c h = run_steps (fields_steps sticky fs') c h"
proof (induction sticky f c h and sticky fs' c h rule: LoadField_LoadFields.induct)
  case (1 sticky ex em ty tagv a c h)
  show ?case
  proof (cases ty)
    case (TStruct flds)
    with 1 show ?thesis by simp
  qed (auto simp: register_field_step split: prod.splits sum.splits Kind.splits)
next
  case (2 sticky c h)
  then show ?case by simp
next
  case (3 sticky f rest c h)
  then show ?case
    by (auto simp: run_steps_append split: exec.splits option.splits prod.splits)
qed

section \<open>Required text parameters that stay empty\<close>

lemma HasPrefix_append: "HasPrefix (sub @ post) sub"
  by (simp add: HasPrefix_def)

lemma Contains_prefix: "HasPrefix s sub \<Longrightarrow> Contains s sub"
  by (cases s) (auto simp: HasPrefix_def)

lemma Contains_append: "Contains (pre @ sub @ post) sub"
proof (induction pre)
  case Nil
  show ?case using Contains_prefix [OF HasPrefix_append] by simp
next
  case (Cons c pre)
  then show ?case by simp
qed

lemma Join_member: "x \<in> set xs \<Longrightarrow> \<exists>pre post. Join xs sep = pre @ x @ post"
proof (induction xs sep rule: Join.induct)
  case (1 sep)
  then show ?case by simp
next
  case (2 y sep)
  then show ?case by (auto intro: exI [of _ "[]"])
next
  case (3 y z zs sep)
  show ?case
  proof (cases "x = y")
    case True
    then show ?thesis by (auto intro: exI [of _ "[]"])
  next
    case False
    with 3 obtain pre post where "Join (z # zs) sep = pre @ x @ post" by auto
    then have "Join (y # z # zs) sep = (y @ sep @ pre) @ x @ post" by simp
    then show ?thesis by blast
  qed
qed

lemma Contains_Join: "x \<in> set xs \<Longrightarrow> Contains (pre @ Join xs sep) x"
proof -
  assume "x \<in> set xs"
  from Join_member [OF this] obtain p q where "Join xs sep = p @ x @ q" by blast
  then have "pre @ Join xs sep = (pre @ p) @ x @ q" by simp
  then show ?thesis using Contains_append by metis
qed

lemma env_range_keeps_text:
  "env_range p es mis h = Returns (e, mis', h') \<Longrightarrow> strings h a \<noteq> [] \<Longrightarrow> strings h' a \<noteq> []"
proof (induction p es mis h rule: env_range.induct)
  case (1 p missing h)
  then show ?case by simp
next
  case (2 p name t rest missing h)
  show ?case
  proof (cases "rawVal p name = []")
    case True
    with 2 show ?thesis by (auto simp: Let_def split: if_splits)
  next
    case False
    show ?thesis
    proof (cases "kind t")
      case KString
      with 2 False show ?thesis
        by (auto simp: Let_def split: option.splits if_splits)
    next
      case KInt
      with 2 False show ?thesis
        by (auto simp: Let_def split: option.splits sum.splits)
    next
      case KBool
      with 2 False show ?thesis
        by (auto simp: Let_def split: option.splits sum.splits)
    qed (use 2 False in \<open>auto simp: Let_def\<close>)
  qed
qed

lemma Empty_text:
  "kind to = KString \<Longrightarrow> Empty h to \<longleftrightarrow> (\<forall>a. stringVal to = Some a \<longrightarrow> strings h a = [])"
  by (auto simp: Empty_def split: option.splits)

lemma env_range_empty_slot:
  assumes "env_range p es mis h = Returns (None, mis', h')"
    and "(name, to) \<in> set es" and "kind to = KString" and "Empty h' to"
  shows "rawVal p name = []"
  using assms
proof (induction es arbitrary: mis h)
  case Nil
  then show ?case by simp
next
  case (Cons e es)
  obtain n t where e: "e = (n, t)" by (cases e)
  from env_range_Cons_success [OF Cons.prems(1) [unfolded e]] obtain mis1 h1 where
    run: "env_range p es mis1 h1 = Returns (None, mis', h')"
    and wr: "rawVal p n \<noteq> [] \<longrightarrow> target t \<noteq> None \<and> deref h1 t = coerce (kind t) (rawVal p n)"
    by blast
  show ?case
  proof (cases "(name, to) \<in> set es")
    case True
    from Cons.IH [OF run True Cons.prems(3,4)] show ?thesis .
  next
    case False
    with Cons.prems(2) e have nt: "n = name" "t = to" by auto
    show ?thesis
    proof (rule ccontr)
      assume raw: "rawVal p name \<noteq> []"
      with wr nt Cons.prems(3) obtain a where a: "stringVal to = Some a"
        and "deref h1 to = Some (VString (rawVal p name))"
        by (auto simp: target_def coerce_def)
      then have "strings h1 a \<noteq> []" using raw Cons.prems(3)
        by (auto simp: deref_def target_def)
      from env_range_keeps_text [OF run this] a Cons.prems(3,4) show False
        by (simp add: Empty_text)
    qed
  qed
qed

lemma Empty_calls [simp]: "Empty (h\<lparr>remaining_calls := x\<rparr>) to = Empty h to"
  by (simp add: Empty_def split: Kind.splits option.splits)

lemma missing_reported:
  assumes load: "Provider_Load sys P h = Returns (None, P', h')"
    and bound: "map_of (Provider_m P) name = Some to"
    and str: "kind to = KString"
    and req: "name \<in> set (Provider_required P)"
    and empty: "Empty h' to"
  shows "name \<in> set (Provider_Missing P')"
proof (cases P)
  case (Env e)
  obtain er pe where stage: "dotenv_stage sys e = (er, pe)" by (cases "dotenv_stage sys e")
  have same: "env_m pe = env_m e" "env_missing pe = env_missing e" "env_hint pe = env_hint e"
    "env_required pe = env_required e"
    using dotenv_stage_same [OF stage] by simp_all
  let ?es = "range_order (env_hint e) (env_m e)"
  from load Env stage same obtain mis' where
    run: "env_range pe ?es (env_missing e) h = Returns (None, mis', h')"
    and P': "P' = Env (pe\<lparr>env_missing := mis'\<rparr>)"
    by (auto simp: EnvProvider_Load_def split: option.splits exec.splits)
  have in_es: "(name, to) \<in> set ?es" using bound Env by (simp add: range_order_iff)
  from env_range_empty_slot [OF run in_es str empty] have raw: "rawVal pe name = []" .
  from env_range_missing [OF run] obtain new where
    "mis' = env_missing e @ new"
    "new = map fst (filter (\<lambda>(n, t). rawVal pe n = [] \<and> n \<in> set (env_required pe)) ?es)"
    by blast
  moreover have "(name, to) \<in> set (filter (\<lambda>(n, t). rawVal pe n = [] \<and> n \<in> set (env_required pe)) ?es)"
    using in_es raw req Env same by simp
  ultimately have "name \<in> set mis'" by force
  then show ?thesis by (simp add: P' EnvProvider_Missing_def)
next
  case (Flag p)
  from load Flag obtain f h1 where
    "FlagSet_Parse (fs p) (args p) h = (None, f, h1)"
    and P': "P' = Flag (p\<lparr>fs := f, flag_missing := flag_missing p
                        @ range_missing h1 (flag_required p) (range_order (flag_hint p) (flag_m p))\<rparr>)"
    and h': "h' = h1 \<or> (\<exists>x. h' = h1\<lparr>remaining_calls := x\<rparr>)"
    by (auto simp: FlagProvider_Load_def Let_def split: prod.splits option.splits)
  from h' empty have "Empty h1 to" by auto
  with bound req Flag have "name \<in> set (range_missing h1 (flag_required p) (range_order (flag_hint p) (flag_m p)))"
    by (auto simp: range_missing_iff range_order_iff)
  then show ?thesis by (simp add: P' FlagProvider_Missing_def)
next
  case (Priority m ps required missing hint)
  from load Priority obtain ps' where
    P': "P' = Priority m ps' required (missing @ range_missing h' required (range_order hint m)) hint"
    by (auto split: exec.splits option.splits prod.splits)
  from bound req empty Priority have "name \<in> set (range_missing h' required (range_order hint m))"
    by (auto simp: range_missing_iff range_order_iff)
  then show ?thesis by (simp add: P')
qed

lemma EnvProvider_Var_required:
  "env_required (EnvProvider_Var v n r e) = env_required e @ (if r then [n] else [])"
  by (cases v; simp add: EnvProvider_StringVar_def EnvProvider_IntVar_def EnvProvider_BoolVar_def Let_def)

lemma Provider_Var_top:
  assumes "Provider_Var v name r c h = Returns (c', h')" and "\<forall>p. c \<noteq> Flag p"
  shows "Provider_m c' = (name, var_typ v) # Provider_m c
       \<and> Provider_required c' = Provider_required c @ (if r then [name] else [])
       \<and> Provider_Missing c' = Provider_Missing c
       \<and> (\<forall>p. c' \<noteq> Flag p)"
proof (cases c)
  case (Env e)
  with assms show ?thesis
    by (auto simp: EnvProvider_Var_fields EnvProvider_Var_required EnvProvider_Missing_def)
next
  case (Flag p)
  with assms show ?thesis by simp
next
  case (Priority m ps required missing hint)
  with assms show ?thesis by (auto split: exec.splits prod.splits)
qed

lemma run_steps_shape:
  assumes "run_steps ss c h = Returns (None, c', h')" and "\<forall>p. c \<noteq> Flag p"
  shows "set (Provider_required c) \<subseteq> set (Provider_required c')
       \<and> Provider_Missing c' = Provider_Missing c
       \<and> (\<forall>p. c' \<noteq> Flag p)"
  using assms
proof (induction ss arbitrary: c h)
  case Nil
  then show ?case by simp
next
  case (Cons s ss)
  show ?case
  proof (cases s)
    case (Register v n r)
    with Cons.prems(1) obtain c1 h1 where
      one: "Provider_Var v n r c h = Returns (c1, h1)"
      and rest: "run_steps ss c1 h1 = Returns (None, c', h')"
      by (auto split: exec.splits prod.splits)
    note top = Provider_Var_top [OF one Cons.prems(2)]
    from Cons.IH [OF rest] top have
      "set (Provider_required c1) \<subseteq> set (Provider_required c')"
      "Provider_Missing c' = Provider_Missing c1" "\<forall>p. c' \<noteq> Flag p"
      by simp_all
    with top show ?thesis by auto
  next
    case (Fails e)
    with Cons.prems(1) show ?thesis by simp
  next
    case (Crashes x)
    with Cons.prems(1) show ?thesis by simp
  qed
qed

lemma run_steps_binding:
  assumes "run_steps ss c h = Returns (None, c', h')" and "\<forall>p. c \<noteq> Flag p"
    and "\<forall>v n r. Register v n r \<in> set ss \<longrightarrow> n \<noteq> name"
  shows "map_of (Provider_m c') name = map_of (Provider_m c) name"
  using assms
proof (induction ss arbitrary: c h)
  case Nil
  then show ?case by simp
next
  case (Cons s ss)
  show ?case
  proof (cases s)
    case (Register v n r)
    with Cons.prems(1) obtain c1 h1 where
      one: "Provider_Var v n r c h = Returns (c1, h1)"
      and rest: "run_steps ss c1 h1 = Returns (None, c', h')"
      by (auto split: exec.splits prod.splits)
    note top = Provider_Var_top [OF one Cons.prems(2)]
    from Cons.prems(3) Register have ne: "n \<noteq> name"
      and later: "\<forall>v n r. Register v n r \<in> set ss \<longrightarrow> n \<noteq> name" by auto
    from Cons.IH [OF rest _ later] top have
      "map_of (Provider_m c') name = map_of (Provider_m c1) name" by simp
    with top ne show ?thesis by auto
  next
    case (Fails e)
    with Cons.prems(1) show ?thesis by simp
  next
    case (Crashes x)
    with Cons.prems(1) show ?thesis by simp
  qed
qed

lemma initial_provider_top:
  "(\<forall>p. initial_provider sys hint opts \<noteq> Flag p) \<and> Provider_Missing (initial_provider sys hint opts) = []"
proof (cases opts rule: rev_cases)
  case Nil
  then show ?thesis
    by (simp add: initial_provider_def NewEnvProvider_def EnvProvider_Missing_def)
next
  case (snoc os' opt)
  then show ?thesis
    by (cases opt) (simp add: initial_provider_def NewPriorityProvider_def)
qed

section \<open>Printing and parsing an integer\<close>

lemma digitChar_table: "map digitChar [0, 1, 2, 3, 4, 5, 6, 7, 8, 9] = ''0123456789''"
  by code_simp

lemma digitChar_nth: "d < 10 \<Longrightarrow> digitChar d = ''0123456789'' ! d"
proof -
  assume "d < 10"
  then have "digitChar d = map digitChar [0, 1, 2, 3, 4, 5, 6, 7, 8, 9] ! d"
    by (auto simp: less_Suc_eq numeral_eq_Suc)
  then show ?thesis by (simp only: digitChar_table)
qed

lemma digitChar_props:
  assumes "d < 10"
  shows "isDigit (digitChar d)" "digitVal (digitChar d) = d"
    "digitChar d \<noteq> CHR ''-''" "digitChar d \<noteq> CHR ''+''"
proof -
  from assms have "d \<in> {0, 1, 2, 3, 4, 5, 6, 7, 8, 9}" by auto
  then show "isDigit (digitChar d)" "digitVal (digitChar d) = d"
    "digitChar d \<noteq> CHR ''-''" "digitChar d \<noteq> CHR ''+''"
    using digitChar_nth [OF assms]
    by (auto simp: isDigit_def digitVal_def)
qed

lemma digitsVal_snoc: "digitsVal acc (xs @ [c]) = 10 * digitsVal acc xs + digitVal c"
  by (induction xs arbitrary: acc) auto

lemma natDigits_props:
  "natDigits n \<noteq> [] \<and> list_all isDigit (natDigits n) \<and> digitsVal 0 (natDigits n) = n
   \<and> hd (natDigits n) \<noteq> CHR ''-'' \<and> hd (natDigits n) \<noteq> CHR ''+''"
proof (induction n rule: natDigits.induct)
  case (1 n)
  show ?case
  proof (cases "n < 10")
    case True
    then show ?thesis
      by (subst (1 2 3 4 5) natDigits.simps) (simp add: digitChar_props)
  next
    case False
    with 1 have IH: "natDigits (n div 10) \<noteq> []" "list_all isDigit (natDigits (n div 10))"
      "digitsVal 0 (natDigits (n div 10)) = n div 10"
      "hd (natDigits (n div 10)) \<noteq> CHR ''-''" "hd (natDigits (n div 10)) \<noteq> CHR ''+''"
      by simp_all
    have d: "n mod 10 < 10" by simp
    from False IH show ?thesis
      by (subst (1 2 3 4 5) natDigits.simps)
         (simp add: digitChar_props [OF d] digitsVal_snoc)
  qed
qed

lemma Atoi_FormatInt:
  assumes "minInt \<le> n" and "n \<le> maxInt"
  shows "Atoi (FormatInt n) = Inr n"
proof (cases "n < 0")
  case True
  note p = natDigits_props [of "nat (- n)"]
  from True assms p show ?thesis
    by (simp add: Atoi_def FormatInt_def Let_def)
next
  case False
  note p = natDigits_props [of "nat n"]
  have "natDigits (nat n) = hd (natDigits (nat n)) # tl (natDigits (nat n))"
    using p by simp
  with False assms p show ?thesis
    by (simp add: Atoi_def FormatInt_def Let_def)
qed

lemma FormatInt_nonempty: "FormatInt n \<noteq> []"
  using natDigits_props by (simp add: FormatInt_def)

section \<open>Defaults: what the sources do at \<open>Load\<close>\<close>

lemma flagValue_Set_frame:
  "flagValue_Set fv s h = Inr h' \<Longrightarrow> Some (flag_slot fv) \<noteq> target to \<Longrightarrow> deref h' to = deref h to"
  by (cases fv)
     (auto simp: deref_strings_other deref_ints_other deref_bools_other split: sum.splits)

lemma parseOne_frame:
  assumes one: "parseOne fm as h = (seen, e, left, h')"
    and quiet: "\<forall>tok n fv. tok \<in> set as \<and> token_flag tok = Some n \<and> fm n = Some fv
                  \<longrightarrow> Some (flag_slot fv) \<noteq> target to"
  shows "deref h' to = deref h to"
proof (cases as)
  case Nil
  with one show ?thesis by (simp add: parseOne_def)
next
  case (Cons s rest)
  show ?thesis
  proof (cases "token_flag s")
    case None
    then have "length s < 2 \<or> hd s \<noteq> CHR ''-''"
      by (auto simp: token_flag_def split: if_splits)
    with one Cons show ?thesis by (auto simp: parseOne_def)
  next
    case (Some n)
    then have form: "\<not> (length s < 2 \<or> hd s \<noteq> CHR ''-'')"
      and n: "n = fst (splitValue [] (drop (if s ! 1 = CHR ''-'' then 2 else 1) s))"
      by (auto simp: token_flag_def split: if_splits)
    obtain arg where sv: "splitValue [] (drop (if s ! 1 = CHR ''-'' then 2 else 1) s) = (n, arg)"
      using n by (cases "splitValue [] (drop (if s ! 1 = CHR ''-'' then 2 else 1) s)") auto
    show ?thesis
    proof (cases "fm n")
      case None
      with one Cons form sv show ?thesis
        by (auto simp: parseOne_def Let_def split: if_splits)
    next
      case (Some fv)
      with quiet Cons \<open>token_flag s = Some n\<close> have ne: "Some (flag_slot fv) \<noteq> target to"
        by auto
      note fr = flagValue_Set_frame [OF _ ne]
      from one Cons form sv Some show ?thesis
        by (auto simp: parseOne_def Let_def
                 split: if_splits option.splits sum.splits list.splits dest: fr)
    qed
  qed
qed


lemma FlagSet_parse_frame:
  assumes "FlagSet_parse fm as h = (e, left, h')"
    and "\<forall>tok n fv. tok \<in> set as \<and> token_flag tok = Some n \<and> fm n = Some fv
            \<longrightarrow> Some (flag_slot fv) \<noteq> target to"
  shows "deref h' to = deref h to"
  using assms
proof (induction "length as" arbitrary: as h rule: less_induct)
  case less
  obtain seen e1 left1 h1 where one: "parseOne fm as h = (seen, e1, left1, h1)"
    by (cases "parseOne fm as h") auto
  note fr = parseOne_frame [OF one less.prems(2)]
  show ?case
  proof (cases seen)
    case True
    with one less.prems(1) have run: "FlagSet_parse fm left1 h1 = (e, left, h')"
      by (simp add: FlagSet_parse_seen)
    from one True have shorter: "length left1 < length as" by (auto dest: parseOne_seen_shorter)
    from parseOne_suffix [OF one] have "set left1 \<subseteq> set as" by auto
    with less.prems(2) have "\<forall>tok n fv. tok \<in> set left1 \<and> token_flag tok = Some n \<and> fm n = Some fv
            \<longrightarrow> Some (flag_slot fv) \<noteq> target to"
      by blast
    from less.hyps [OF shorter run this] fr show ?thesis by simp
  next
    case False
    with one less.prems(1) fr show ?thesis
      by (simp add: FlagSet_parse_unseen)
  qed
qed

lemma deref_calls [simp]: "deref (h\<lparr>remaining_calls := x\<rparr>) to = deref h to"
  by (simp add: deref_def split: option.splits)

lemma FlagProvider_Load_frame:
  assumes "ready sys name to v (Flag f)" and "FlagProvider_Load f h = (e, f', h')"
  shows "deref h' to = deref h to"
proof -
  obtain e1 left h1 where parse: "FlagSet_parse (formal (fs f)) (args f) h = (e1, left, h1)"
    by (cases "FlagSet_parse (formal (fs f)) (args f) h") auto
  from assms(1) have "\<forall>tok n fv. tok \<in> set (args f) \<and> token_flag tok = Some n
        \<and> formal (fs f) n = Some fv \<longrightarrow> Some (flag_slot fv) \<noteq> target to"
    by auto
  from FlagSet_parse_frame [OF parse this] have "deref h1 to = deref h to" .
  with assms(2) parse show ?thesis
    by (auto simp: FlagProvider_Load_def FlagSet_Parse_def Let_def split: option.splits)
qed

lemma Providers_Load_ready:
  assumes IH: "\<forall>p \<in> set ps. \<forall>h P' h'. ready sys name to v p \<longrightarrow>
                 Provider_Load sys p h = Returns (None, P', h') \<longrightarrow>
                 (deref h to = Some v \<longrightarrow> deref h' to = Some v) \<and> (has_env p \<longrightarrow> deref h' to = Some v)"
  shows "list_all (ready sys name to v) ps \<Longrightarrow> Providers_Load sys ps h = Returns (None, ps', h') \<Longrightarrow>
           (deref h to = Some v \<longrightarrow> deref h' to = Some v) \<and> (list_ex has_env ps \<longrightarrow> deref h' to = Some v)"
  using IH
proof (induction ps arbitrary: h ps' h')
  case Nil
  then show ?case by simp
next
  case (Cons p ps)
  from Cons.prems(2) obtain p1 h1 ps1 where
    one: "Provider_Load sys p h = Returns (None, p1, h1)"
    and rest: "Providers_Load sys ps h1 = Returns (None, ps1, h')"
    by (auto split: exec.splits option.splits prod.splits)
  from Cons.prems(1) have rp: "ready sys name to v p" and rps: "list_all (ready sys name to v) ps"
    by simp_all
  from Cons.prems(3) rp one have
    a: "deref h to = Some v \<longrightarrow> deref h1 to = Some v" and b: "has_env p \<longrightarrow> deref h1 to = Some v"
    by (metis list.set_intros(1))+
  have "\<forall>p \<in> set ps. \<forall>h P' h'. ready sys name to v p \<longrightarrow>
                 Provider_Load sys p h = Returns (None, P', h') \<longrightarrow>
                 (deref h to = Some v \<longrightarrow> deref h' to = Some v) \<and> (has_env p \<longrightarrow> deref h' to = Some v)"
    using Cons.prems(3) by simp
  from Cons.IH [OF rps rest this] have
    c: "deref h1 to = Some v \<longrightarrow> deref h' to = Some v" and d: "list_ex has_env ps \<longrightarrow> deref h' to = Some v"
    by simp_all
  from a b c d show ?case by auto
qed

lemma Provider_Load_ready:
  "ready sys name to v P \<Longrightarrow> Provider_Load sys P h = Returns (None, P', h') \<Longrightarrow>
     (deref h to = Some v \<longrightarrow> deref h' to = Some v) \<and> (has_env P \<longrightarrow> deref h' to = Some v)"
proof (induction P arbitrary: h P' h')
  case (Env e)
  from Env.prems(2) obtain e' where load: "EnvProvider_Load sys e h = Returns (None, e', h')"
    by (auto split: exec.splits prod.splits)
  from Env.prems(1) have "map_of (env_m e) name = Some to"
    "rawVal (resolving sys e) name \<noteq> []"
    "\<forall>n t. n \<noteq> name \<and> map_of (env_m e) n = Some t \<longrightarrow> target t \<noteq> target to"
    "coerce (kind to) (rawVal (resolving sys e) name) = Some v"
    by simp_all
  from EnvProvider_Load_writes [OF load this(1,2,3)] this(4) show ?case by simp
next
  case (Flag f)
  from Flag.prems(2) obtain e f' where "FlagProvider_Load f h = (e, f', h')"
    by (auto split: prod.splits)
  from FlagProvider_Load_frame [OF Flag.prems(1) this] show ?case by simp
next
  case (Priority m ps required missing hint)
  from Priority.prems(2) obtain ps' where load: "Providers_Load sys ps h = Returns (None, ps', h')"
    by (auto split: exec.splits option.splits prod.splits)
  from Priority.prems(1) have r: "list_all (ready sys name to v) ps" by simp
  have "\<forall>p \<in> set ps. \<forall>h P' h'. ready sys name to v p \<longrightarrow>
                 Provider_Load sys p h = Returns (None, P', h') \<longrightarrow>
                 (deref h to = Some v \<longrightarrow> deref h' to = Some v) \<and> (has_env p \<longrightarrow> deref h' to = Some v)"
    using Priority.IH by blast
  from Providers_Load_ready [OF this r load] show ?case by simp
qed


section \<open>Defaults: what registration leaves\<close>

lemma resolving_fields:
  "env_m (resolving sys e) = env_m e" "fallbacks (resolving sys e) = fallbacks e"
  using dotenv_stage_same [of sys e "fst (dotenv_stage sys e)" "snd (dotenv_stage sys e)"]
  by (simp_all add: resolving_def)

lemma resolving_Var:
  "getenv (resolving sys (EnvProvider_Var v n r e)) = getenv (resolving sys e)"
  by (simp add: resolving_def dotenv_stage_def AddDotEnv_def EnvProvider_Var_fields Let_def
           split: option.splits sum.splits cong: option.case_cong)

lemma rawVal_resolving:
  "rawVal (resolving sys e) name =
     (if getenv (resolving sys e) (uppersnake name) = []
      then (case fallbacks e name of Some fallback \<Rightarrow> fallback | None \<Rightarrow> [])
      else getenv (resolving sys e) (uppersnake name))"
  by (simp add: rawVal_def resolving_fields Let_def split: option.splits)

lemma EnvProvider_Var_fallbacks_other:
  "n \<noteq> name \<Longrightarrow> fallbacks (EnvProvider_Var v n r e) name = fallbacks e name"
  by (cases v; simp add: EnvProvider_StringVar_def EnvProvider_IntVar_def EnvProvider_BoolVar_def Let_def)

lemma ParseBool_true: "ParseBool ''true'' = Inr True"
  by (simp add: ParseBool_def)

lemma ParseBool_false: "ParseBool ''false'' = Inr False"
  by (simp add: ParseBool_def)

lemma EnvProvider_Var_fallback_own:
  assumes "fallback_registered v"
  shows "\<exists>raw. fallbacks (EnvProvider_Var v name r e) name = Some raw \<and> raw \<noteq> []
           \<and> coerce (kind (var_typ v)) raw = Some (var_default v)"
proof (cases v)
  case (StringVar to fallback)
  with assms show ?thesis
    by (simp add: EnvProvider_StringVar_def Let_def coerce_def typ_string_def)
next
  case (IntVar to fallback)
  with assms show ?thesis
    by (simp add: EnvProvider_IntVar_def Let_def coerce_def typ_int_def Atoi_FormatInt
          FormatInt_nonempty)
next
  case (BoolVar to fallback)
  then show ?thesis
    by (cases fallback)
       (simp_all add: EnvProvider_BoolVar_def Let_def coerce_def typ_bool_def
          ParseBool_true ParseBool_false)
qed

lemma Env_Var_unused:
  "unused s (Env e) \<Longrightarrow> target (var_typ v) \<noteq> Some s \<Longrightarrow> unused s (Env (EnvProvider_Var v n r e))"
  by (auto simp: EnvProvider_Var_fields split: if_splits)

lemma Env_Var_unsupplied:
  "unsupplied sys name (Env e) \<Longrightarrow> unsupplied sys name (Env (EnvProvider_Var v n r e))"
  by (simp add: resolving_Var)

lemma Env_Var_ready_own:
  assumes "unused s (Env e)" and "unsupplied sys name (Env e)"
    and "fallback_registered v" and "target (var_typ v) = Some s"
  shows "ready sys name (var_typ v) (var_default v) (Env (EnvProvider_Var v name r e))"
proof -
  from EnvProvider_Var_fallback_own [OF assms(3), of name r e] obtain raw where
    raw: "fallbacks (EnvProvider_Var v name r e) name = Some raw" "raw \<noteq> []"
      "coerce (kind (var_typ v)) raw = Some (var_default v)"
    by blast
  from assms(2) have "getenv (resolving sys (EnvProvider_Var v name r e)) (uppersnake name) = []"
    by (simp add: resolving_Var)
  with raw have "rawVal (resolving sys (EnvProvider_Var v name r e)) name = raw"
    by (simp add: rawVal_resolving)
  with raw assms(1,4) show ?thesis
    by (auto simp: EnvProvider_Var_fields)
qed

lemma Env_Var_ready_other:
  assumes "ready sys name to v (Env e)" and "n \<noteq> name" and "target (var_typ v') \<noteq> target to"
  shows "ready sys name to v (Env (EnvProvider_Var v' n r e))"
proof -
  have "rawVal (resolving sys (EnvProvider_Var v' n r e)) name = rawVal (resolving sys e) name"
    using assms(2) by (simp add: rawVal_resolving resolving_Var EnvProvider_Var_fallbacks_other)
  with assms show ?thesis
    by (auto simp: EnvProvider_Var_fields)
qed

lemma FlagProvider_Var_Returns:
  assumes "FlagProvider_Var v n r f h = Returns (f', h')"
  shows "\<exists>fv. target (var_typ v) = Some (flag_slot fv)
           \<and> formal (fs f) (normalizeName n) = None
           \<and> formal (fs f') = (formal (fs f))(normalizeName n \<mapsto> fv)
           \<and> args f' = args f
           \<and> deref h' (var_typ v) = Some (var_default v)
           \<and> (\<forall>to. target to \<noteq> target (var_typ v) \<longrightarrow> deref h' to = deref h to)"
proof (cases v)
  case (StringVar to fallback)
  with assms obtain a where a: "to = Some a"
    by (auto simp: FlagProvider_StringVar_def FlagSet_StringVar_def Let_def split: option.splits)
  have tg: "target (typ_string (Some a)) = Some (KString, a)" by (simp add: target_def typ_string_def)
  from assms StringVar a show ?thesis
    by (intro exI [of _ "stringValue a"])
       (auto simp: FlagProvider_StringVar_def FlagSet_StringVar_def FlagSet_Var_def Let_def tg
                   deref_strings_same deref_strings_other
             split: option.splits if_splits exec.splits)
next
  case (IntVar to fallback)
  with assms obtain a where a: "to = Some a"
    by (auto simp: FlagProvider_IntVar_def FlagSet_IntVar_def Let_def split: option.splits)
  have tg: "target (typ_int (Some a)) = Some (KInt, a)" by (simp add: target_def typ_int_def)
  from assms IntVar a show ?thesis
    by (intro exI [of _ "intValue a"])
       (auto simp: FlagProvider_IntVar_def FlagSet_IntVar_def FlagSet_Var_def Let_def tg
                   deref_ints_same deref_ints_other
             split: option.splits if_splits exec.splits)
next
  case (BoolVar to fallback)
  with assms obtain a where a: "to = Some a"
    by (auto simp: FlagProvider_BoolVar_def FlagSet_BoolVar_def Let_def split: option.splits)
  have tg: "target (typ_bool (Some a)) = Some (KBool, a)" by (simp add: target_def typ_bool_def)
  from assms BoolVar a show ?thesis
    by (intro exI [of _ "boolValue a"])
       (auto simp: FlagProvider_BoolVar_def FlagSet_BoolVar_def FlagSet_Var_def Let_def tg
                   deref_bools_same deref_bools_other
             split: option.splits if_splits exec.splits)
qed

lemma Flag_Var_unused:
  assumes "FlagProvider_Var v n r f h = Returns (f', h')" and "unused s (Flag f)"
    and "target (var_typ v) \<noteq> Some s"
  shows "unused s (Flag f')"
proof -
  from FlagProvider_Var_Returns [OF assms(1)] obtain fv where
    fv: "target (var_typ v) = Some (flag_slot fv)"
      "formal (fs f') = (formal (fs f))(normalizeName n \<mapsto> fv)"
    by blast
  from fv(1) assms(3) have "flag_slot fv \<noteq> s" by simp
  with assms(2) show ?thesis by (simp add: fv(2))
qed

lemma Flag_Var_unsupplied:
  assumes "FlagProvider_Var v n r f h = Returns (f', h')" and "unsupplied sys name (Flag f)"
  shows "unsupplied sys name (Flag f')"
proof -
  from FlagProvider_Var_Returns [OF assms(1)] have "args f' = args f" by blast
  with assms(2) show ?thesis by simp
qed

lemma Flag_Var_ready_own:
  assumes "FlagProvider_Var v name r f h = Returns (f', h')" and "unused s (Flag f)"
    and "unsupplied sys name (Flag f)" and "target (var_typ v) = Some s"
  shows "ready sys name (var_typ v) x (Flag f') \<and> deref h' (var_typ v) = Some (var_default v)"
proof -
  from FlagProvider_Var_Returns [OF assms(1)] obtain fv where
    fv: "formal (fs f') = (formal (fs f))(normalizeName name \<mapsto> fv)" "args f' = args f"
      "deref h' (var_typ v) = Some (var_default v)"
    by blast
  have "ready sys name (var_typ v) x (Flag f')"
    using assms(2,3,4) by (simp add: fv(1,2)) blast
  with fv(3) show ?thesis by simp
qed

lemma Flag_Var_ready_other:
  assumes "FlagProvider_Var v n r f h = Returns (f', h')" and "ready sys name to x (Flag f)"
    and "target (var_typ v) \<noteq> target to"
  shows "ready sys name to x (Flag f') \<and> deref h' to = deref h to"
proof -
  from FlagProvider_Var_Returns [OF assms(1)] obtain fv where
    fv: "target (var_typ v) = Some (flag_slot fv)"
      "formal (fs f') = (formal (fs f))(normalizeName n \<mapsto> fv)" "args f' = args f"
      "\<forall>to. target to \<noteq> target (var_typ v) \<longrightarrow> deref h' to = deref h to"
    by blast
  from fv(4) assms(3) have "deref h' to = deref h to" by metis
  moreover from fv(1) assms(3) have "Some (flag_slot fv) \<noteq> target to" by simp
  with assms(2) have "ready sys name to x (Flag f')" by (simp add: fv(2,3))
  ultimately show ?thesis by simp
qed


lemma Ball_Cons_head: "\<forall>x \<in> set (p # ps). Q x \<Longrightarrow> Q p"
  by simp

lemma Ball_Cons_tail: "\<forall>x \<in> set (p # ps). Q x \<Longrightarrow> \<forall>x \<in> set ps. Q x"
  by simp

lemma Providers_Var_Cons:
  assumes "Providers_Var v n r (p # ps) h = Returns (ps', h')"
  shows "\<exists>p1 h1 ps1. Provider_Var v n r p h = Returns (p1, h1)
           \<and> Providers_Var v n r ps h1 = Returns (ps1, h') \<and> ps' = p1 # ps1"
  using assms by (auto split: exec.splits prod.splits)

lemma Provider_Var_Priority:
  assumes "Provider_Var v n r (Priority m ps required missing hint) h = Returns (P', h')"
  shows "\<exists>ps'. Providers_Var v n r ps h = Returns (ps', h')
           \<and> P' = Priority ((n, var_typ v) # m) ps' (if r then required @ [n] else required) missing hint"
  using assms by (auto split: exec.splits prod.splits)

lemma Provider_Var_Flag:
  assumes "Provider_Var v n r (Flag f) h = Returns (P', h')"
  shows "\<exists>f'. FlagProvider_Var v n r f h = Returns (f', h') \<and> P' = Flag f'"
  using assms by (auto split: exec.splits prod.splits)

lemma Providers_Var_pre:
  assumes IH: "\<forall>p \<in> set ps. \<forall>h P' h'. unused s p \<longrightarrow> unsupplied sys name p \<longrightarrow>
                 Provider_Var v n r p h = Returns (P', h') \<longrightarrow>
                 unused s P' \<and> unsupplied sys name P'
                 \<and> has_env P' = has_env p \<and> has_flag P' = has_flag p"
  shows "list_all (unused s) ps \<Longrightarrow> list_all (unsupplied sys name) ps \<Longrightarrow>
         Providers_Var v n r ps h = Returns (ps', h') \<Longrightarrow>
           list_all (unused s) ps' \<and> list_all (unsupplied sys name) ps'
           \<and> list_ex has_env ps' = list_ex has_env ps \<and> list_ex has_flag ps' = list_ex has_flag ps"
  using IH
proof (induction ps arbitrary: h ps' h')
  case Nil
  from Nil.prems(3) have "ps' = []" by simp
  then show ?case by simp
next
  case (Cons p ps)
  from Providers_Var_Cons [OF Cons.prems(3)] obtain p1 h1 ps1 where
    one: "Provider_Var v n r p h = Returns (p1, h1)"
    and more: "Providers_Var v n r ps h1 = Returns (ps1, h')"
    and ps': "ps' = p1 # ps1"
    by blast
  have p_ok: "unused s p" "unsupplied sys name p" "list_all (unused s) ps"
      "list_all (unsupplied sys name) ps"
    using Cons.prems(1,2) by simp_all
  from Ball_Cons_head [OF Cons.prems(4), rule_format, OF p_ok(1,2) one] have
    a: "unused s p1 \<and> unsupplied sys name p1 \<and> has_env p1 = has_env p \<and> has_flag p1 = has_flag p" .
  from Cons.IH [OF p_ok(3,4) more Ball_Cons_tail [OF Cons.prems(4)]] have
    b: "list_all (unused s) ps1 \<and> list_all (unsupplied sys name) ps1
        \<and> list_ex has_env ps1 = list_ex has_env ps \<and> list_ex has_flag ps1 = list_ex has_flag ps" .
  from a b show ?case by (simp add: ps')
qed

lemma Provider_Var_pre:
  assumes tg: "target (var_typ v) \<noteq> Some s"
  shows "unused s P \<Longrightarrow> unsupplied sys name P \<Longrightarrow> Provider_Var v n r P h = Returns (P', h') \<Longrightarrow>
           unused s P' \<and> unsupplied sys name P' \<and> has_env P' = has_env P \<and> has_flag P' = has_flag P"
proof (induction P arbitrary: h P' h')
  case (Env e)
  from Env.prems(3) have P': "P' = Env (EnvProvider_Var v n r e)" by simp
  have a: "unused s (Env (EnvProvider_Var v n r e))"
    by (rule Env_Var_unused [OF Env.prems(1) tg])
  have b: "unsupplied sys name (Env (EnvProvider_Var v n r e))"
    by (rule Env_Var_unsupplied [OF Env.prems(2)])
  from a b show ?case unfolding P' by (simp del: unused.simps unsupplied.simps)
next
  case (Flag f)
  from Provider_Var_Flag [OF Flag.prems(3)] obtain f' where
    f': "FlagProvider_Var v n r f h = Returns (f', h')" and P': "P' = Flag f'"
    by blast
  from Flag_Var_unused [OF f' Flag.prems(1) tg] Flag_Var_unsupplied [OF f' Flag.prems(2)]
  show ?case unfolding P' by (simp del: unused.simps unsupplied.simps)
next
  case (Priority m ps required missing hint)
  from Provider_Var_Priority [OF Priority.prems(3)] obtain ps' where
    ps': "Providers_Var v n r ps h = Returns (ps', h')"
    and P': "P' = Priority ((n, var_typ v) # m) ps' (if r then required @ [n] else required) missing hint"
    by blast
  have u: "list_all (unused s) ps" "list_all (unsupplied sys name) ps"
    using Priority.prems(1,2) by simp_all
  have "\<forall>p \<in> set ps. \<forall>h P' h'. unused s p \<longrightarrow> unsupplied sys name p \<longrightarrow>
                 Provider_Var v n r p h = Returns (P', h') \<longrightarrow>
                 unused s P' \<and> unsupplied sys name P'
                 \<and> has_env P' = has_env p \<and> has_flag P' = has_flag p"
    using Priority.IH by blast
  from Providers_Var_pre [OF this u ps'] show ?case by (simp add: P')
qed


lemma Providers_Var_own:
  assumes IH: "\<forall>p \<in> set ps. \<forall>h P' h'. unused s p \<longrightarrow> unsupplied sys name p \<longrightarrow>
                 Provider_Var v name r p h = Returns (P', h') \<longrightarrow>
                 ready sys name (var_typ v) (var_default v) P'
                 \<and> (has_flag p \<longrightarrow> deref h' (var_typ v) = Some (var_default v))
                 \<and> (deref h (var_typ v) = Some (var_default v) \<longrightarrow> deref h' (var_typ v) = Some (var_default v))
                 \<and> has_env P' = has_env p \<and> has_flag P' = has_flag p"
  shows "list_all (unused s) ps \<Longrightarrow> list_all (unsupplied sys name) ps \<Longrightarrow>
         Providers_Var v name r ps h = Returns (ps', h') \<Longrightarrow>
           list_all (ready sys name (var_typ v) (var_default v)) ps'
           \<and> (list_ex has_flag ps \<longrightarrow> deref h' (var_typ v) = Some (var_default v))
           \<and> (deref h (var_typ v) = Some (var_default v) \<longrightarrow> deref h' (var_typ v) = Some (var_default v))
           \<and> list_ex has_env ps' = list_ex has_env ps \<and> list_ex has_flag ps' = list_ex has_flag ps"
  using IH
proof (induction ps arbitrary: h ps' h')
  case Nil
  from Nil.prems(3) have "ps' = []" "h' = h" by simp_all
  then show ?case by simp
next
  case (Cons p ps)
  from Providers_Var_Cons [OF Cons.prems(3)] obtain p1 h1 ps1 where
    one: "Provider_Var v name r p h = Returns (p1, h1)"
    and more: "Providers_Var v name r ps h1 = Returns (ps1, h')"
    and ps': "ps' = p1 # ps1"
    by blast
  have p_ok: "unused s p" "unsupplied sys name p" "list_all (unused s) ps"
      "list_all (unsupplied sys name) ps"
    using Cons.prems(1,2) by simp_all
  from Ball_Cons_head [OF Cons.prems(4), rule_format, OF p_ok(1,2) one] have
    a: "ready sys name (var_typ v) (var_default v) p1
        \<and> (has_flag p \<longrightarrow> deref h1 (var_typ v) = Some (var_default v))
        \<and> (deref h (var_typ v) = Some (var_default v) \<longrightarrow> deref h1 (var_typ v) = Some (var_default v))
        \<and> has_env p1 = has_env p \<and> has_flag p1 = has_flag p" .
  from Cons.IH [OF p_ok(3,4) more Ball_Cons_tail [OF Cons.prems(4)]] have
    b: "list_all (ready sys name (var_typ v) (var_default v)) ps1
        \<and> (list_ex has_flag ps \<longrightarrow> deref h' (var_typ v) = Some (var_default v))
        \<and> (deref h1 (var_typ v) = Some (var_default v) \<longrightarrow> deref h' (var_typ v) = Some (var_default v))
        \<and> list_ex has_env ps1 = list_ex has_env ps \<and> list_ex has_flag ps1 = list_ex has_flag ps" .
  from a b show ?case unfolding ps' by (simp del: ready.simps)
qed

lemma Provider_Var_own:
  assumes dflt: "fallback_registered v" and tg: "target (var_typ v) = Some s"
  shows "unused s P \<Longrightarrow> unsupplied sys name P \<Longrightarrow> Provider_Var v name r P h = Returns (P', h') \<Longrightarrow>
           ready sys name (var_typ v) (var_default v) P'
           \<and> (has_flag P \<longrightarrow> deref h' (var_typ v) = Some (var_default v))
           \<and> (deref h (var_typ v) = Some (var_default v) \<longrightarrow> deref h' (var_typ v) = Some (var_default v))
           \<and> has_env P' = has_env P \<and> has_flag P' = has_flag P"
proof (induction P arbitrary: h P' h')
  case (Env e)
  from Env.prems(3) have P': "P' = Env (EnvProvider_Var v name r e)" and h': "h' = h" by simp_all
  from Env_Var_ready_own [OF Env.prems(1,2) dflt tg, of r] show ?case
    unfolding P' h' by (simp del: ready.simps)
next
  case (Flag f)
  from Provider_Var_Flag [OF Flag.prems(3)] obtain f' where
    f': "FlagProvider_Var v name r f h = Returns (f', h')" and P': "P' = Flag f'"
    by blast
  from Flag_Var_ready_own [OF f' Flag.prems(1,2) tg] show ?case
    unfolding P' by (simp del: ready.simps)
next
  case (Priority m ps required missing hint)
  from Provider_Var_Priority [OF Priority.prems(3)] obtain ps' where
    ps': "Providers_Var v name r ps h = Returns (ps', h')"
    and P': "P' = Priority ((name, var_typ v) # m) ps' (if r then required @ [name] else required) missing hint"
    by blast
  have u: "list_all (unused s) ps" "list_all (unsupplied sys name) ps"
    using Priority.prems(1,2) by simp_all
  have "\<forall>p \<in> set ps. \<forall>h P' h'. unused s p \<longrightarrow> unsupplied sys name p \<longrightarrow>
                 Provider_Var v name r p h = Returns (P', h') \<longrightarrow>
                 ready sys name (var_typ v) (var_default v) P'
                 \<and> (has_flag p \<longrightarrow> deref h' (var_typ v) = Some (var_default v))
                 \<and> (deref h (var_typ v) = Some (var_default v) \<longrightarrow> deref h' (var_typ v) = Some (var_default v))
                 \<and> has_env P' = has_env p \<and> has_flag P' = has_flag p"
    using Priority.IH by blast
  from Providers_Var_own [OF this u ps'] show ?case by (simp add: P')
qed

lemma Providers_Var_post:
  assumes IH: "\<forall>p \<in> set ps. \<forall>h P' h'. ready sys name to x p \<longrightarrow>
                 Provider_Var v n r p h = Returns (P', h') \<longrightarrow>
                 ready sys name to x P' \<and> deref h' to = deref h to \<and> has_env P' = has_env p"
  shows "list_all (ready sys name to x) ps \<Longrightarrow> Providers_Var v n r ps h = Returns (ps', h') \<Longrightarrow>
           list_all (ready sys name to x) ps' \<and> deref h' to = deref h to
           \<and> list_ex has_env ps' = list_ex has_env ps"
  using IH
proof (induction ps arbitrary: h ps' h')
  case Nil
  from Nil.prems(2) have "ps' = []" "h' = h" by simp_all
  then show ?case by simp
next
  case (Cons p ps)
  from Providers_Var_Cons [OF Cons.prems(2)] obtain p1 h1 ps1 where
    one: "Provider_Var v n r p h = Returns (p1, h1)"
    and more: "Providers_Var v n r ps h1 = Returns (ps1, h')"
    and ps': "ps' = p1 # ps1"
    by blast
  have p_ok: "ready sys name to x p" "list_all (ready sys name to x) ps"
    using Cons.prems(1) by simp_all
  from Ball_Cons_head [OF Cons.prems(3), rule_format, OF p_ok(1) one] have
    a: "ready sys name to x p1 \<and> deref h1 to = deref h to \<and> has_env p1 = has_env p" .
  from Cons.IH [OF p_ok(2) more Ball_Cons_tail [OF Cons.prems(3)]] have
    b: "list_all (ready sys name to x) ps1 \<and> deref h' to = deref h1 to
        \<and> list_ex has_env ps1 = list_ex has_env ps" .
  from a b show ?case unfolding ps' by (simp del: ready.simps)
qed

lemma Provider_Var_post:
  assumes ne: "n \<noteq> name" and tg: "target (var_typ v) \<noteq> target to"
  shows "ready sys name to x P \<Longrightarrow> Provider_Var v n r P h = Returns (P', h') \<Longrightarrow>
           ready sys name to x P' \<and> deref h' to = deref h to \<and> has_env P' = has_env P"
proof (induction P arbitrary: h P' h')
  case (Env e)
  from Env.prems(2) have P': "P' = Env (EnvProvider_Var v n r e)" and h': "h' = h" by simp_all
  from Env_Var_ready_other [OF Env.prems(1) ne tg, of r] show ?case
    unfolding P' h' by (simp del: ready.simps)
next
  case (Flag f)
  from Provider_Var_Flag [OF Flag.prems(2)] obtain f' where
    f': "FlagProvider_Var v n r f h = Returns (f', h')" and P': "P' = Flag f'"
    by blast
  from Flag_Var_ready_other [OF f' Flag.prems(1) tg] show ?case
    unfolding P' by (simp del: ready.simps)
next
  case (Priority m ps required missing hint)
  from Provider_Var_Priority [OF Priority.prems(2)] obtain ps' where
    ps': "Providers_Var v n r ps h = Returns (ps', h')"
    and P': "P' = Priority ((n, var_typ v) # m) ps' (if r then required @ [n] else required) missing hint"
    by blast
  have u: "list_all (ready sys name to x) ps"
    using Priority.prems(1) by simp
  have "\<forall>p \<in> set ps. \<forall>h P' h'. ready sys name to x p \<longrightarrow>
                 Provider_Var v n r p h = Returns (P', h') \<longrightarrow>
                 ready sys name to x P' \<and> deref h' to = deref h to \<and> has_env P' = has_env p"
    using Priority.IH by blast
  from Providers_Var_post [OF this u ps'] show ?case by (simp add: P')
qed

lemma run_steps_Register:
  assumes "run_steps (Register v n r # ss) c h = Returns (None, c', h')"
  shows "\<exists>c1 h1. Provider_Var v n r c h = Returns (c1, h1)
           \<and> run_steps ss c1 h1 = Returns (None, c', h')"
  using assms by (auto split: exec.splits prod.splits)

lemma run_steps_pre:
  assumes "run_steps ss c h = Returns (None, c', h')"
    and "\<forall>v n r. Register v n r \<in> set ss \<longrightarrow> target (var_typ v) \<noteq> Some s"
    and "unused s c" and "unsupplied sys name c"
  shows "unused s c' \<and> unsupplied sys name c' \<and> has_env c' = has_env c \<and> has_flag c' = has_flag c"
  using assms
proof (induction ss arbitrary: c h)
  case Nil
  then show ?case by simp
next
  case (Cons st ss)
  show ?case
  proof (cases st)
    case (Register v n r)
    from run_steps_Register [OF Cons.prems(1) [unfolded Register]] obtain c1 h1 where
      one: "Provider_Var v n r c h = Returns (c1, h1)"
      and more: "run_steps ss c1 h1 = Returns (None, c', h')"
      by blast
    from Cons.prems(2) Register have tg: "target (var_typ v) \<noteq> Some s"
      and others: "\<forall>v n r. Register v n r \<in> set ss \<longrightarrow> target (var_typ v) \<noteq> Some s"
      by auto
    from Provider_Var_pre [OF tg Cons.prems(3,4) one] have
      a: "unused s c1" "unsupplied sys name c1" "has_env c1 = has_env c" "has_flag c1 = has_flag c"
      by blast+
    from Cons.IH [OF more others a(1,2)] a(3,4) show ?thesis by simp
  next
    case (Fails e)
    with Cons.prems(1) show ?thesis by simp
  next
    case (Crashes x)
    with Cons.prems(1) show ?thesis by simp
  qed
qed

lemma run_steps_post:
  assumes "run_steps ss c h = Returns (None, c', h')"
    and "\<forall>v n r. Register v n r \<in> set ss \<longrightarrow> n \<noteq> name \<and> target (var_typ v) \<noteq> target to"
    and "ready sys name to x c"
  shows "ready sys name to x c' \<and> deref h' to = deref h to \<and> has_env c' = has_env c"
  using assms
proof (induction ss arbitrary: c h)
  case Nil
  then show ?case by simp
next
  case (Cons st ss)
  show ?case
  proof (cases st)
    case (Register v n r)
    from run_steps_Register [OF Cons.prems(1) [unfolded Register]] obtain c1 h1 where
      one: "Provider_Var v n r c h = Returns (c1, h1)"
      and more: "run_steps ss c1 h1 = Returns (None, c', h')"
      by blast
    from Cons.prems(2) Register have ne: "n \<noteq> name" and tg: "target (var_typ v) \<noteq> target to"
      and others: "\<forall>v n r. Register v n r \<in> set ss \<longrightarrow> n \<noteq> name \<and> target (var_typ v) \<noteq> target to"
      by auto
    from Provider_Var_post [OF ne tg Cons.prems(3) one] have
      a: "ready sys name to x c1" "deref h1 to = deref h to" "has_env c1 = has_env c"
      by blast+
    from Cons.IH [OF more others a(1)] a(2,3) show ?thesis by simp
  next
    case (Fails e)
    with Cons.prems(1) show ?thesis by simp
  next
    case (Crashes x)
    with Cons.prems(1) show ?thesis by simp
  qed
qed

lemma deref_full: "deref h to = Some v \<Longrightarrow> v \<noteq> VString [] \<Longrightarrow> \<not> Empty h to"
  by (auto simp: deref_def target_def Empty_def split: option.splits Kind.splits if_splits)

lemma fallback_registered_full: "fallback_registered v \<Longrightarrow> var_default v \<noteq> VString []"
  by (cases v) auto

lemma not_missing:
  assumes load: "Provider_Load sys P h = Returns (None, P', h')"
    and top: "\<forall>p. P \<noteq> Flag p"
    and bound: "map_of (Provider_m P) name = Some to"
    and rdy: "ready sys name to v P"
    and fresh: "name \<notin> set (Provider_Missing P)"
    and full: "\<not> Empty h' to"
  shows "name \<notin> set (Provider_Missing P')"
proof (cases P)
  case (Env e)
  obtain er pe where stage: "dotenv_stage sys e = (er, pe)" by (cases "dotenv_stage sys e")
  have same: "env_m pe = env_m e" "env_missing pe = env_missing e" "env_hint pe = env_hint e"
    "env_required pe = env_required e"
    using dotenv_stage_same [OF stage] by simp_all
  have pe: "pe = resolving sys e" using stage by (simp add: resolving_def)
  let ?es = "range_order (env_hint e) (env_m e)"
  from load Env stage same obtain mis' where
    run: "env_range pe ?es (env_missing e) h = Returns (None, mis', h')"
    and P': "P' = Env (pe\<lparr>env_missing := mis'\<rparr>)"
    by (auto simp: EnvProvider_Load_def split: option.splits exec.splits)
  from rdy Env have raw: "rawVal pe name \<noteq> []" by (simp add: pe)
  from env_range_missing [OF run] obtain new where
    new: "mis' = env_missing e @ new"
      "set new \<subseteq> {n. (\<exists>t. (n, t) \<in> set ?es) \<and> rawVal pe n = [] \<and> n \<in> set (env_required pe)}"
    by blast
  from new(2) raw have "name \<notin> set new" by blast
  with fresh Env new(1) show ?thesis by (simp add: P' EnvProvider_Missing_def)
next
  case (Flag p)
  with top show ?thesis by simp
next
  case (Priority m ps required missing hint)
  from load Priority obtain ps' where
    P': "P' = Priority m ps' required (missing @ range_missing h' required (range_order hint m)) hint"
    by (auto split: exec.splits option.splits prod.splits)
  from bound full Priority have "name \<notin> set (range_missing h' required (range_order hint m))"
    by (auto simp: range_missing_iff range_order_iff)
  with fresh Priority show ?thesis by (simp add: P')
qed


section \<open>Parameters with an empty lookup\<close>

lemma WithDotEnv_fields:
  "env_m (WithDotEnv r p) = env_m p" "fallbacks (WithDotEnv r p) = fallbacks p"
  by (simp_all add: WithDotEnv_def Let_def split: option.splits)

lemma registered_boolean_fallback:
  assumes "registered p" and "map_of (env_m p) name = Some to" and "kind to = KBool"
  shows "fallbacks p name = Some ''true'' \<or> fallbacks p name = Some ''false''"
  using assms
proof (induction arbitrary: to rule: registered.induct)
  case (registered_new g hint)
  then show ?case by (simp add: NewEnvProvider_def)
next
  case (registered_dotenv p r)
  then show ?case by (simp add: WithDotEnv_fields)
next
  case (registered_var p v n req)
  show ?case
  proof (cases "n = name")
    case True
    with registered_var.prems(1) have "to = var_typ v" by (simp add: EnvProvider_Var_fields)
    with registered_var.prems(2) obtain a b where v: "v = BoolVar a b"
      by (cases v) (auto simp: typ_string_def typ_int_def)
    show ?thesis unfolding v True
      by (auto simp: EnvProvider_BoolVar_def Let_def)
  next
    case False
    with registered_var.prems have "map_of (env_m p) name = Some to"
      by (simp add: EnvProvider_Var_fields)
    from registered_var.IH [OF this registered_var.prems(2)] False show ?thesis
      by (simp add: EnvProvider_Var_fallbacks_other)
  qed
qed

text \<open>
  Claim C5, as amended. Let a name be registered in an environment source, with a
  destination that is registered under no other name of that source, and let the lookup
  of its upper-snake name (through the dotenv overlay, when there is one) be empty.

  If the registered fallback of the name is empty too, as it is for a text parameter
  without a default and for an integer parameter whose default is 0 or absent, then,
  however \<open>Load\<close> returns, the slot of the destination holds the value it held before; the
  name is added to the missing list only if it is required, and it is added when it is
  required and \<open>Load\<close> succeeds.

  A boolean parameter of a source built by registrations never has an empty fallback:
  its fallback is \<open>true\<close> or \<open>false\<close>, and after a \<open>Load\<close> that succeeds its slot holds
  that boolean, whatever it held before, and the name is not added to the missing list.
\<close>

theorem C5_empty_lookup_keeps_slot:
  assumes load: "EnvProvider_Load sys p h = Returns (err, p', h')"
    and bound: "map_of (env_m p) name = Some to"
    and lookup: "getenv (resolving sys p) (uppersnake name) = []"
    and sole: "\<forall>n t. n \<noteq> name \<and> map_of (env_m p) n = Some t \<longrightarrow> target t \<noteq> target to"
  shows "(fallbacks p name = None \<or> fallbacks p name = Some [] \<longrightarrow>
            deref h' to = deref h to
          \<and> (\<exists>new. env_missing p' = env_missing p @ new
                \<and> (name \<in> set new \<longrightarrow> name \<in> set (env_required p))
                \<and> (err = None \<and> name \<in> set (env_required p) \<longrightarrow> name \<in> set new)))
       \<and> (registered p \<and> kind to = KBool \<and> err = None \<longrightarrow>
            (\<exists>b. fallbacks p name = Some (if b then ''true'' else ''false'')
                \<and> deref h' to = Some (VBool b))
          \<and> (\<exists>new. env_missing p' = env_missing p @ new \<and> name \<notin> set new))"
proof -
  have part1: "fallbacks p name = None \<or> fallbacks p name = Some [] \<longrightarrow>
            deref h' to = deref h to
          \<and> (\<exists>new. env_missing p' = env_missing p @ new
                \<and> (name \<in> set new \<longrightarrow> name \<in> set (env_required p))
                \<and> (err = None \<and> name \<in> set (env_required p) \<longrightarrow> name \<in> set new))"
  proof
  assume fallback: "fallbacks p name = None \<or> fallbacks p name = Some []"
  obtain e pe where stage: "dotenv_stage sys p = (e, pe)" by (cases "dotenv_stage sys p")
  have same: "env_m pe = env_m p" "env_missing pe = env_missing p" "env_hint pe = env_hint p"
    "fallbacks pe = fallbacks p" "env_required pe = env_required p"
    using dotenv_stage_same [OF stage] by simp_all
  show "deref h' to = deref h to
          \<and> (\<exists>new. env_missing p' = env_missing p @ new
                \<and> (name \<in> set new \<longrightarrow> name \<in> set (env_required p))
                \<and> (err = None \<and> name \<in> set (env_required p) \<longrightarrow> name \<in> set new))"
  proof (cases e)
    case (Some x)
    with load stage have "h' = h" "p' = pe" "err \<noteq> None" by (auto simp: EnvProvider_Load_def)
    with same show ?thesis by simp
  next
    case None
    let ?es = "range_order (env_hint p) (env_m p)"
    from load stage None same obtain mis' where
      run: "env_range pe ?es (env_missing p) h = Returns (err, mis', h')"
      and p': "p' = pe\<lparr>env_missing := mis'\<rparr>"
      by (auto simp: EnvProvider_Load_def split: exec.splits)
    have raw: "rawVal pe name = []"
      using lookup fallback stage same by (auto simp: rawVal_def resolving_def Let_def)
    have "\<forall>(n, t) \<in> set ?es. rawVal pe n \<noteq> [] \<longrightarrow> target t \<noteq> target to"
    proof (clarify)
      fix n t assume nt: "(n, t) \<in> set ?es" "rawVal pe n \<noteq> []" "target t = target to"
      then have "n \<noteq> name" using raw by auto
      moreover have "map_of (env_m p) n = Some t" using nt(1) by (simp add: range_order_iff)
      ultimately show False using sole nt(3) by blast
    qed
    from env_range_frame [OF run this] have frame: "deref h' to = deref h to" .
    from env_range_missing [OF run] obtain new where
      new: "mis' = env_missing p @ new"
        "set new \<subseteq> {n. (\<exists>t. (n, t) \<in> set ?es) \<and> rawVal pe n = [] \<and> n \<in> set (env_required pe)}"
        "err = None \<longrightarrow>
            new = map fst (filter (\<lambda>(n, t). rawVal pe n = [] \<and> n \<in> set (env_required pe)) ?es)"
      by blast
    have in_es: "(name, to) \<in> set ?es" using bound by (simp add: range_order_iff)
    have "err = None \<and> name \<in> set (env_required p) \<longrightarrow> name \<in> set new"
    proof
      assume a: "err = None \<and> name \<in> set (env_required p)"
      with new(3) have "new = map fst (filter (\<lambda>(n, t). rawVal pe n = [] \<and> n \<in> set (env_required pe)) ?es)"
        by simp
      moreover have "(name, to) \<in> set (filter (\<lambda>(n, t). rawVal pe n = [] \<and> n \<in> set (env_required pe)) ?es)"
        using in_es raw a same by simp
      ultimately show "name \<in> set new" by force
    qed
    moreover have "name \<in> set new \<longrightarrow> name \<in> set (env_required p)"
      using new(2) same by auto
    ultimately show ?thesis using frame new(1) p' by auto
  qed
  qed
  have part2: "registered p \<and> kind to = KBool \<and> err = None \<longrightarrow>
            (\<exists>b. fallbacks p name = Some (if b then ''true'' else ''false'')
                \<and> deref h' to = Some (VBool b))"
  proof
  assume a: "registered p \<and> kind to = KBool \<and> err = None"
  then have ok: "EnvProvider_Load sys p h = Returns (None, p', h')" using load by simp
  from a have r: "registered p" and k: "kind to = KBool" by simp_all
  from registered_boolean_fallback [OF r bound k]
  have "\<exists>b. fallbacks p name = Some (if b then ''true'' else ''false'')"
    by (elim disjE) (rule exI [of _ True], simp, rule exI [of _ False], simp)
  then obtain b where fb: "fallbacks p name = Some (if b then ''true'' else ''false'')" ..
  with lookup have raw: "rawVal (resolving sys p) name = (if b then ''true'' else ''false'')"
    by (simp add: rawVal_resolving)
  then have ne: "rawVal (resolving sys p) name \<noteq> []" by simp
  from EnvProvider_Load_writes [OF ok bound ne sole] a raw
  have "deref h' to = Some (VBool b)"
    by (simp add: coerce_def ParseBool_true ParseBool_false)
  with fb show "\<exists>b. fallbacks p name = Some (if b then ''true'' else ''false'')
                  \<and> deref h' to = Some (VBool b)" by blast
  qed
  have part3: "registered p \<and> kind to = KBool \<and> err = None \<longrightarrow>
            (\<exists>new. env_missing p' = env_missing p @ new \<and> name \<notin> set new)"
  proof
  assume a: "registered p \<and> kind to = KBool \<and> err = None"
  from a have r: "registered p" and k: "kind to = KBool" by simp_all
  from registered_boolean_fallback [OF r bound k] lookup
  have ne: "rawVal (resolving sys p) name \<noteq> []"
    by (auto simp: rawVal_resolving)
  obtain e pe where stage: "dotenv_stage sys p = (e, pe)" by (cases "dotenv_stage sys p")
  have same: "env_m pe = env_m p" "env_missing pe = env_missing p" "env_hint pe = env_hint p"
    using dotenv_stage_same [OF stage] by simp_all
  have pe: "pe = resolving sys p" using stage by (simp add: resolving_def)
  let ?es = "range_order (env_hint p) (env_m p)"
  from load a stage same obtain mis' where
    run: "env_range pe ?es (env_missing p) h = Returns (None, mis', h')"
    and p': "p' = pe\<lparr>env_missing := mis'\<rparr>"
    by (auto simp: EnvProvider_Load_def split: option.splits exec.splits)
  from env_range_missing [OF run] obtain new where
    new: "mis' = env_missing p @ new"
      "set new \<subseteq> {n. (\<exists>t. (n, t) \<in> set ?es) \<and> rawVal pe n = [] \<and> n \<in> set (env_required pe)}"
    by blast
  from new(2) ne have "name \<notin> set new" by (auto simp: pe)
  with new(1) show "\<exists>new. env_missing p' = env_missing p @ new \<and> name \<notin> set new"
    by (auto simp: p')
  qed
  from part1 part2 part3 show ?thesis by blast
qed

text \<open>
  The claim as it is stated fails for a boolean parameter: a boolean field without a
  default, in an empty environment, holds \<open>true\<close> before \<open>Load\<close> and \<open>false\<close> after it.
\<close>

theorem C5_boolean_overwritten_counterexample:
  "bools C5_store 0 = True
   \<and> returned (LoadEnv bare_os (StructPointer False [Field True False TBool ''debug'' 0]) (\<lambda>k. []) C5_store)
       = Returns None
   \<and> map_option (\<lambda>h. bools h 0)
        (store_after (LoadEnv bare_os (StructPointer False [Field True False TBool ''debug'' 0])
                        (\<lambda>k. []) C5_store))
       = Some False"
  by code_simp


lemma uppersnake_debug: "uppersnake ''debug'' = ''DEBUG''"
  by code_simp

lemma C5_bool_env_load:
  "EnvProvider_Load bare_os C5_bool_env C5_store =
     Returns (None, C5_bool_env, C5_store\<lparr>bools := (bools C5_store)(0 := False)\<rparr>)"
  by (simp add: EnvProvider_Load_def dotenv_stage_def C5_bool_env_def EnvProvider_BoolVar_def
        NewEnvProvider_def range_order_def range_keys_def map_keys_def rawVal_def
        uppersnake_debug ParseBool_false Let_def typ_bool_def)

theorem C5_empty_lookup_keeps_slot_witness:
  "map_of (env_m C5_env) ''host'' = Some (typ_string (Some 0))
   \<and> getenv (resolving bare_os C5_env) (uppersnake ''host'') = []
   \<and> fallbacks C5_env ''host'' = None
   \<and> target (typ_int (Some 1)) \<noteq> target (typ_string (Some 0))
   \<and> (\<exists>p' h'. EnvProvider_Load bare_os C5_env zero_store = Returns (None, p', h')
         \<and> ints h' 1 = 8080
         \<and> deref h' (typ_string (Some 0)) = Some (VString [])
         \<and> ''host'' \<in> set (env_missing p'))
   \<and> registered C5_bool_env
   \<and> map_of (env_m C5_bool_env) ''debug'' = Some (typ_bool (Some 0))
   \<and> getenv (resolving bare_os C5_bool_env) (uppersnake ''debug'') = []
   \<and> deref C5_store (typ_bool (Some 0)) = Some (VBool True)
   \<and> (\<exists>p' h'. EnvProvider_Load bare_os C5_bool_env C5_store = Returns (None, p', h')
         \<and> deref h' (typ_bool (Some 0)) = Some (VBool False))"
proof -
  have bound: "map_of (env_m C5_env) ''host'' = Some (typ_string (Some 0))"
    by (simp add: C5_env_fields)
  have lookup: "getenv (resolving bare_os C5_env) (uppersnake ''host'') = []"
    by (simp add: resolving_def dotenv_stage_def C5_env_fields uppersnake_host)
  have fallback: "fallbacks C5_env ''host'' = None \<or> fallbacks C5_env ''host'' = Some []"
    by (simp add: C5_env_fields)
  have ne: "target (typ_int (Some 1)) \<noteq> target (typ_string (Some 0))"
    by (simp add: target_def typ_int_def typ_string_def)
  have sole: "\<forall>n t. n \<noteq> ''host'' \<and> map_of (env_m C5_env) n = Some t
                 \<longrightarrow> target t \<noteq> target (typ_string (Some 0))"
    using ne by (auto simp: C5_env_fields split: if_splits)
  from C5_empty_lookup_keeps_slot [OF C5_env_load bound lookup sole] fallback
  obtain new where
    "deref (zero_store\<lparr>ints := (ints zero_store)(1 := 8080)\<rparr>) (typ_string (Some 0))
       = deref zero_store (typ_string (Some 0))"
    and "env_missing (C5_env\<lparr>env_missing := [''host'']\<rparr>) = env_missing C5_env @ new"
    and "''host'' \<in> set (env_required C5_env) \<longrightarrow> ''host'' \<in> set new"
    by auto
  moreover have "deref zero_store (typ_string (Some 0)) = Some (VString [])"
    by (simp add: deref_def target_def typ_string_def zero_store_def)
  ultimately have text_part:
    "deref (zero_store\<lparr>ints := (ints zero_store)(1 := 8080)\<rparr>) (typ_string (Some 0))
       = Some (VString [])"
    "''host'' \<in> set (env_missing (C5_env\<lparr>env_missing := [''host'']\<rparr>))"
    by (simp_all add: C5_env_fields)
  have reg: "registered C5_bool_env"
    unfolding C5_bool_env_def
    using registered_var [OF registered_new, of "BoolVar (Some 0) False" "''debug''" False "\<lambda>k. []" "[]"]
    by simp
  have bound_b: "map_of (env_m C5_bool_env) ''debug'' = Some (typ_bool (Some 0))"
    by (simp add: C5_bool_env_def EnvProvider_BoolVar_def Let_def)
  have lookup_b: "getenv (resolving bare_os C5_bool_env) (uppersnake ''debug'') = []"
    by (simp add: resolving_def dotenv_stage_def C5_bool_env_def EnvProvider_BoolVar_def
          NewEnvProvider_def Let_def)
  have sole_b: "\<forall>n t. n \<noteq> ''debug'' \<and> map_of (env_m C5_bool_env) n = Some t
                 \<longrightarrow> target t \<noteq> target (typ_bool (Some 0))"
    by (simp add: C5_bool_env_def EnvProvider_BoolVar_def NewEnvProvider_def Let_def)
  have before: "deref C5_store (typ_bool (Some 0)) = Some (VBool True)"
    by (simp add: deref_def target_def typ_bool_def C5_store_def)
  have kb: "kind (typ_bool (Some 0)) = KBool" by (simp add: typ_bool_def)
  from C5_empty_lookup_keeps_slot [OF C5_bool_env_load bound_b lookup_b sole_b] reg kb
  obtain b where "fallbacks C5_bool_env ''debug'' = Some (if b then ''true'' else ''false'')"
    and "deref (C5_store\<lparr>bools := (bools C5_store)(0 := False)\<rparr>) (typ_bool (Some 0)) = Some (VBool b)"
    by auto
  moreover have "fallbacks C5_bool_env ''debug'' = Some ''false''"
    by (simp add: C5_bool_env_def EnvProvider_BoolVar_def Let_def)
  ultimately have bool_part:
    "deref (C5_store\<lparr>bools := (bools C5_store)(0 := False)\<rparr>) (typ_bool (Some 0)) = Some (VBool False)"
    by (cases b) simp_all
  from bound lookup fallback ne C5_env_load text_part reg bound_b lookup_b before
    C5_bool_env_load bool_part
  show ?thesis by (simp add: C5_env_fields)
qed


section \<open>Defaults that are not recorded\<close>

lemma EnvProvider_Var_zero_default:
  "zero_default v \<Longrightarrow> fallbacks (EnvProvider_Var v n r e) = fallbacks e"
  by (cases v) (simp_all add: EnvProvider_StringVar_def EnvProvider_IntVar_def Let_def)

lemma Env_Var_unrecorded:
  "unrecorded name (Env e) \<Longrightarrow> n \<noteq> name \<Longrightarrow> unrecorded name (Env (EnvProvider_Var v n r e))"
  by (simp add: EnvProvider_Var_fallbacks_other)

lemma Env_Var_idle_own:
  assumes "zero_default v" and "unused s (Env e)" and "unsupplied sys name (Env e)"
    and "unrecorded name (Env e)" and "target (var_typ v) = Some s"
  shows "idle sys (var_typ v) (Env (EnvProvider_Var v name r e))"
proof -
  have raw: "rawVal (resolving sys (EnvProvider_Var v name r e)) name = []"
    using assms(1,3,4)
    by (auto simp: rawVal_resolving resolving_Var EnvProvider_Var_zero_default)
  show ?thesis
    unfolding idle.simps
  proof (intro allI impI)
    fix n t
    assume a: "map_of (env_m (EnvProvider_Var v name r e)) n = Some t \<and> target t = target (var_typ v)"
    show "rawVal (resolving sys (EnvProvider_Var v name r e)) n = []"
    proof (cases "n = name")
      case True
      with raw show ?thesis by simp
    next
      case False
      with a have "map_of (env_m e) n = Some t" by (simp add: EnvProvider_Var_fields)
      with assms(2) have "target t \<noteq> Some s" by simp
      with a assms(5) show ?thesis by simp
    qed
  qed
qed

lemma Env_Var_idle_other:
  assumes "idle sys to (Env e)" and "target (var_typ v) \<noteq> target to"
  shows "idle sys to (Env (EnvProvider_Var v n r e))"
  unfolding idle.simps
proof (intro allI impI)
  fix k t
  assume a: "map_of (env_m (EnvProvider_Var v n r e)) k = Some t \<and> target t = target to"
  with assms(2) have ne: "k \<noteq> n" by (auto simp: EnvProvider_Var_fields split: if_splits)
  with a have "map_of (env_m e) k = Some t" by (simp add: EnvProvider_Var_fields)
  with a assms(1) have "rawVal (resolving sys e) k = []" by simp
  moreover have "rawVal (resolving sys (EnvProvider_Var v n r e)) k = rawVal (resolving sys e) k"
    using ne by (simp add: rawVal_resolving resolving_Var EnvProvider_Var_fallbacks_other)
  ultimately show "rawVal (resolving sys (EnvProvider_Var v n r e)) k = []" by simp
qed

lemma idle_Flag_ready: "idle sys to (Flag f) = ready sys name to x (Flag f)"
  by simp

lemma Flag_Var_idle_own:
  assumes "FlagProvider_Var v name r f h = Returns (f', h')" and "unused s (Flag f)"
    and "unsupplied sys name (Flag f)" and "target (var_typ v) = Some s"
  shows "idle sys (var_typ v) (Flag f') \<and> deref h' (var_typ v) = Some (var_default v)"
  using Flag_Var_ready_own [OF assms, of "var_default v"]
  by (simp only: idle_Flag_ready [of sys "var_typ v" f' name "var_default v"])

lemma Flag_Var_idle_other:
  assumes "FlagProvider_Var v n r f h = Returns (f', h')" and "idle sys to (Flag f)"
    and "target (var_typ v) \<noteq> target to"
  shows "idle sys to (Flag f') \<and> deref h' to = deref h to"
  using Flag_Var_ready_other [OF assms(1) assms(2) [unfolded idle_Flag_ready [of sys to f n "VBool True"]] assms(3)]
  by (simp only: idle_Flag_ready [of sys to f' n "VBool True"])

lemma Flag_Var_frame:
  assumes "FlagProvider_Var v n r f h = Returns (f', h')" and "target (var_typ v) \<noteq> target to"
  shows "deref h' to = deref h to"
  using FlagProvider_Var_Returns [OF assms(1)] assms(2) by metis

lemma Providers_Var_zero_pre:
  assumes IH: "\<forall>p \<in> set ps. \<forall>h P' h'. unrecorded name p \<longrightarrow>
                 Provider_Var v n r p h = Returns (P', h') \<longrightarrow>
                 unrecorded name P' \<and> deref h' to = deref h to"
  shows "list_all (unrecorded name) ps \<Longrightarrow> Providers_Var v n r ps h = Returns (ps', h') \<Longrightarrow>
           list_all (unrecorded name) ps' \<and> deref h' to = deref h to"
  using IH
proof (induction ps arbitrary: h ps' h')
  case Nil
  from Nil.prems(2) have "ps' = []" "h' = h" by simp_all
  then show ?case by simp
next
  case (Cons p ps)
  from Providers_Var_Cons [OF Cons.prems(2)] obtain p1 h1 ps1 where
    one: "Provider_Var v n r p h = Returns (p1, h1)"
    and more: "Providers_Var v n r ps h1 = Returns (ps1, h')"
    and ps': "ps' = p1 # ps1"
    by blast
  have p_ok: "unrecorded name p" "list_all (unrecorded name) ps"
    using Cons.prems(1) by simp_all
  from Ball_Cons_head [OF Cons.prems(3), rule_format, OF p_ok(1) one] have
    a: "unrecorded name p1 \<and> deref h1 to = deref h to" .
  from Cons.IH [OF p_ok(2) more Ball_Cons_tail [OF Cons.prems(3)]] have
    b: "list_all (unrecorded name) ps1 \<and> deref h' to = deref h1 to" .
  from a b show ?case unfolding ps' by simp
qed

lemma Provider_Var_zero_pre:
  assumes ne: "n \<noteq> name" and tg: "target (var_typ v) \<noteq> target to"
  shows "unrecorded name P \<Longrightarrow> Provider_Var v n r P h = Returns (P', h') \<Longrightarrow>
           unrecorded name P' \<and> deref h' to = deref h to"
proof (induction P arbitrary: h P' h')
  case (Env e)
  from Env.prems(2) have P': "P' = Env (EnvProvider_Var v n r e)" and h': "h' = h" by simp_all
  from Env_Var_unrecorded [OF Env.prems(1) ne, of v r] show ?case
    unfolding P' h' by (simp del: unrecorded.simps)
next
  case (Flag f)
  from Provider_Var_Flag [OF Flag.prems(2)] obtain f' where
    f': "FlagProvider_Var v n r f h = Returns (f', h')" and P': "P' = Flag f'"
    by blast
  from Flag_Var_frame [OF f' tg] show ?case unfolding P' by simp
next
  case (Priority m ps required missing hint)
  from Provider_Var_Priority [OF Priority.prems(2)] obtain ps' where
    ps': "Providers_Var v n r ps h = Returns (ps', h')"
    and P': "P' = Priority ((n, var_typ v) # m) ps' (if r then required @ [n] else required) missing hint"
    by blast
  have u: "list_all (unrecorded name) ps" using Priority.prems(1) by simp
  have "\<forall>p \<in> set ps. \<forall>h P' h'. unrecorded name p \<longrightarrow>
                 Provider_Var v n r p h = Returns (P', h') \<longrightarrow>
                 unrecorded name P' \<and> deref h' to = deref h to"
    using Priority.IH by blast
  from Providers_Var_zero_pre [OF this u ps'] show ?case by (simp add: P')
qed

lemma Providers_Var_zero_own:
  assumes IH: "\<forall>p \<in> set ps. \<forall>h P' h'. unused s p \<longrightarrow> unsupplied sys name p \<longrightarrow>
                 unrecorded name p \<longrightarrow>
                 Provider_Var v name r p h = Returns (P', h') \<longrightarrow>
                 idle sys (var_typ v) P'
                 \<and> (has_flag p \<longrightarrow> deref h' (var_typ v) = Some (var_default v))
                 \<and> (deref h (var_typ v) = Some (var_default v) \<longrightarrow> deref h' (var_typ v) = Some (var_default v))
                 \<and> (\<not> has_flag p \<longrightarrow> h' = h)"
  shows "list_all (unused s) ps \<Longrightarrow> list_all (unsupplied sys name) ps \<Longrightarrow>
         list_all (unrecorded name) ps \<Longrightarrow>
         Providers_Var v name r ps h = Returns (ps', h') \<Longrightarrow>
           list_all (idle sys (var_typ v)) ps'
           \<and> (list_ex has_flag ps \<longrightarrow> deref h' (var_typ v) = Some (var_default v))
           \<and> (deref h (var_typ v) = Some (var_default v) \<longrightarrow> deref h' (var_typ v) = Some (var_default v))
           \<and> (\<not> list_ex has_flag ps \<longrightarrow> h' = h)"
  using IH
proof (induction ps arbitrary: h ps' h')
  case Nil
  from Nil.prems(4) have "ps' = []" "h' = h" by simp_all
  then show ?case by simp
next
  case (Cons p ps)
  from Providers_Var_Cons [OF Cons.prems(4)] obtain p1 h1 ps1 where
    one: "Provider_Var v name r p h = Returns (p1, h1)"
    and more: "Providers_Var v name r ps h1 = Returns (ps1, h')"
    and ps': "ps' = p1 # ps1"
    by blast
  have p_ok: "unused s p" "unsupplied sys name p" "unrecorded name p"
      "list_all (unused s) ps" "list_all (unsupplied sys name) ps" "list_all (unrecorded name) ps"
    using Cons.prems(1,2,3) by simp_all
  from Ball_Cons_head [OF Cons.prems(5), rule_format, OF p_ok(1,2,3) one] have
    a: "idle sys (var_typ v) p1
        \<and> (has_flag p \<longrightarrow> deref h1 (var_typ v) = Some (var_default v))
        \<and> (deref h (var_typ v) = Some (var_default v) \<longrightarrow> deref h1 (var_typ v) = Some (var_default v))
        \<and> (\<not> has_flag p \<longrightarrow> h1 = h)" .
  from Cons.IH [OF p_ok(4,5,6) more Ball_Cons_tail [OF Cons.prems(5)]] have
    b: "list_all (idle sys (var_typ v)) ps1
        \<and> (list_ex has_flag ps \<longrightarrow> deref h' (var_typ v) = Some (var_default v))
        \<and> (deref h1 (var_typ v) = Some (var_default v) \<longrightarrow> deref h' (var_typ v) = Some (var_default v))
        \<and> (\<not> list_ex has_flag ps \<longrightarrow> h' = h1)" .
  from a b show ?case unfolding ps' by (simp del: idle.simps)
qed

lemma Provider_Var_zero_own:
  assumes zd: "zero_default v" and tg: "target (var_typ v) = Some s"
  shows "unused s P \<Longrightarrow> unsupplied sys name P \<Longrightarrow> unrecorded name P \<Longrightarrow>
         Provider_Var v name r P h = Returns (P', h') \<Longrightarrow>
           idle sys (var_typ v) P'
           \<and> (has_flag P \<longrightarrow> deref h' (var_typ v) = Some (var_default v))
           \<and> (deref h (var_typ v) = Some (var_default v) \<longrightarrow> deref h' (var_typ v) = Some (var_default v))
           \<and> (\<not> has_flag P \<longrightarrow> h' = h)"
proof (induction P arbitrary: h P' h')
  case (Env e)
  from Env.prems(4) have P': "P' = Env (EnvProvider_Var v name r e)" and h': "h' = h" by simp_all
  from Env_Var_idle_own [OF zd Env.prems(1,2,3) tg, of r] show ?case
    unfolding P' h' by (simp del: idle.simps)
next
  case (Flag f)
  from Provider_Var_Flag [OF Flag.prems(4)] obtain f' where
    f': "FlagProvider_Var v name r f h = Returns (f', h')" and P': "P' = Flag f'"
    by blast
  from Flag_Var_idle_own [OF f' Flag.prems(1,2) tg] show ?case
    unfolding P' by (simp del: idle.simps)
next
  case (Priority m ps required missing hint)
  from Provider_Var_Priority [OF Priority.prems(4)] obtain ps' where
    ps': "Providers_Var v name r ps h = Returns (ps', h')"
    and P': "P' = Priority ((name, var_typ v) # m) ps' (if r then required @ [name] else required) missing hint"
    by blast
  have u: "list_all (unused s) ps" "list_all (unsupplied sys name) ps" "list_all (unrecorded name) ps"
    using Priority.prems(1,2,3) by simp_all
  have "\<forall>p \<in> set ps. \<forall>h P' h'. unused s p \<longrightarrow> unsupplied sys name p \<longrightarrow>
                 unrecorded name p \<longrightarrow>
                 Provider_Var v name r p h = Returns (P', h') \<longrightarrow>
                 idle sys (var_typ v) P'
                 \<and> (has_flag p \<longrightarrow> deref h' (var_typ v) = Some (var_default v))
                 \<and> (deref h (var_typ v) = Some (var_default v) \<longrightarrow> deref h' (var_typ v) = Some (var_default v))
                 \<and> (\<not> has_flag p \<longrightarrow> h' = h)"
    using Priority.IH by blast
  from Providers_Var_zero_own [OF this u ps'] show ?case by (simp add: P')
qed

lemma Providers_Var_idle_post:
  assumes IH: "\<forall>p \<in> set ps. \<forall>h P' h'. idle sys to p \<longrightarrow>
                 Provider_Var v n r p h = Returns (P', h') \<longrightarrow>
                 idle sys to P' \<and> deref h' to = deref h to"
  shows "list_all (idle sys to) ps \<Longrightarrow> Providers_Var v n r ps h = Returns (ps', h') \<Longrightarrow>
           list_all (idle sys to) ps' \<and> deref h' to = deref h to"
  using IH
proof (induction ps arbitrary: h ps' h')
  case Nil
  from Nil.prems(2) have "ps' = []" "h' = h" by simp_all
  then show ?case by simp
next
  case (Cons p ps)
  from Providers_Var_Cons [OF Cons.prems(2)] obtain p1 h1 ps1 where
    one: "Provider_Var v n r p h = Returns (p1, h1)"
    and more: "Providers_Var v n r ps h1 = Returns (ps1, h')"
    and ps': "ps' = p1 # ps1"
    by blast
  have p_ok: "idle sys to p" "list_all (idle sys to) ps"
    using Cons.prems(1) by simp_all
  from Ball_Cons_head [OF Cons.prems(3), rule_format, OF p_ok(1) one] have
    a: "idle sys to p1 \<and> deref h1 to = deref h to" .
  from Cons.IH [OF p_ok(2) more Ball_Cons_tail [OF Cons.prems(3)]] have
    b: "list_all (idle sys to) ps1 \<and> deref h' to = deref h1 to" .
  from a b show ?case unfolding ps' by (simp del: idle.simps)
qed

lemma Provider_Var_idle_post:
  assumes tg: "target (var_typ v) \<noteq> target to"
  shows "idle sys to P \<Longrightarrow> Provider_Var v n r P h = Returns (P', h') \<Longrightarrow>
           idle sys to P' \<and> deref h' to = deref h to"
proof (induction P arbitrary: h P' h')
  case (Env e)
  from Env.prems(2) have P': "P' = Env (EnvProvider_Var v n r e)" and h': "h' = h" by simp_all
  from Env_Var_idle_other [OF Env.prems(1) tg, of n r] show ?case
    unfolding P' h' by (simp del: idle.simps)
next
  case (Flag f)
  from Provider_Var_Flag [OF Flag.prems(2)] obtain f' where
    f': "FlagProvider_Var v n r f h = Returns (f', h')" and P': "P' = Flag f'"
    by blast
  from Flag_Var_idle_other [OF f' Flag.prems(1) tg] show ?case
    unfolding P' by (simp del: idle.simps)
next
  case (Priority m ps required missing hint)
  from Provider_Var_Priority [OF Priority.prems(2)] obtain ps' where
    ps': "Providers_Var v n r ps h = Returns (ps', h')"
    and P': "P' = Priority ((n, var_typ v) # m) ps' (if r then required @ [n] else required) missing hint"
    by blast
  have u: "list_all (idle sys to) ps" using Priority.prems(1) by simp
  have "\<forall>p \<in> set ps. \<forall>h P' h'. idle sys to p \<longrightarrow>
                 Provider_Var v n r p h = Returns (P', h') \<longrightarrow>
                 idle sys to P' \<and> deref h' to = deref h to"
    using Priority.IH by blast
  from Providers_Var_idle_post [OF this u ps'] show ?case by (simp add: P')
qed

lemma EnvProvider_Load_idle:
  assumes load: "EnvProvider_Load sys e h = Returns (err, e', h')" and idle: "idle sys to (Env e)"
  shows "deref h' to = deref h to"
proof -
  obtain er pe where stage: "dotenv_stage sys e = (er, pe)" by (cases "dotenv_stage sys e")
  have same: "env_m pe = env_m e" "env_missing pe = env_missing e" "env_hint pe = env_hint e"
    using dotenv_stage_same [OF stage] by simp_all
  have pe: "resolving sys e = pe" using stage by (simp add: resolving_def)
  show ?thesis
  proof (cases er)
    case (Some x)
    with load stage show ?thesis by (auto simp: EnvProvider_Load_def)
  next
    case None
    let ?es = "range_order (env_hint e) (env_m e)"
    from load stage None same obtain mis' where
      run: "env_range pe ?es (env_missing e) h = Returns (err, mis', h')"
      by (auto simp: EnvProvider_Load_def split: exec.splits)
    have "\<forall>(n, t) \<in> set ?es. rawVal pe n \<noteq> [] \<longrightarrow> target t \<noteq> target to"
      using idle by (auto simp: range_order_iff pe)
    from env_range_frame [OF run this] show ?thesis .
  qed
qed

lemma Providers_Load_Cons:
  assumes "Providers_Load sys (p # ps) h = Returns (None, ps', h')"
  shows "\<exists>p1 h1 ps1. Provider_Load sys p h = Returns (None, p1, h1)
           \<and> Providers_Load sys ps h1 = Returns (None, ps1, h') \<and> ps' = p1 # ps1"
  using assms by (auto split: exec.splits option.splits prod.splits)

lemma Provider_Load_Priority:
  assumes "Provider_Load sys (Priority m ps required missing hint) h = Returns (None, P', h')"
  shows "\<exists>ps'. Providers_Load sys ps h = Returns (None, ps', h')
           \<and> P' = Priority m ps' required (missing @ range_missing h' required (range_order hint m)) hint"
  using assms by (auto split: exec.splits option.splits prod.splits)

lemma Providers_Load_idle:
  assumes IH: "\<forall>p \<in> set ps. \<forall>h P' h'. idle sys to p \<longrightarrow>
                 Provider_Load sys p h = Returns (None, P', h') \<longrightarrow> deref h' to = deref h to"
  shows "list_all (idle sys to) ps \<Longrightarrow> Providers_Load sys ps h = Returns (None, ps', h') \<Longrightarrow>
           deref h' to = deref h to"
  using IH
proof (induction ps arbitrary: h ps' h')
  case Nil
  then show ?case by simp
next
  case (Cons p ps)
  from Providers_Load_Cons [OF Cons.prems(2)] obtain p1 h1 ps1 where
    one: "Provider_Load sys p h = Returns (None, p1, h1)"
    and more: "Providers_Load sys ps h1 = Returns (None, ps1, h')"
    by blast
  have p_ok: "idle sys to p" "list_all (idle sys to) ps"
    using Cons.prems(1) by simp_all
  from Ball_Cons_head [OF Cons.prems(3), rule_format, OF p_ok(1) one] have
    a: "deref h1 to = deref h to" .
  from Cons.IH [OF p_ok(2) more Ball_Cons_tail [OF Cons.prems(3)]] a show ?case by simp
qed

lemma Provider_Load_idle:
  "idle sys to P \<Longrightarrow> Provider_Load sys P h = Returns (None, P', h') \<Longrightarrow> deref h' to = deref h to"
proof (induction P arbitrary: h P' h')
  case (Env e)
  from Env.prems(2) obtain e' where load: "EnvProvider_Load sys e h = Returns (None, e', h')"
    by (auto split: exec.splits prod.splits)
  from EnvProvider_Load_idle [OF load Env.prems(1)] show ?case .
next
  case (Flag f)
  from Flag.prems(2) obtain e f' where load: "FlagProvider_Load f h = (e, f', h')"
    by (auto split: prod.splits)
  from Flag.prems(1) have "ready sys [] to (VBool True) (Flag f)" by simp
  from FlagProvider_Load_frame [OF this load] show ?case .
next
  case (Priority m ps required missing hint)
  from Provider_Load_Priority [OF Priority.prems(2)] obtain ps' where
    load: "Providers_Load sys ps h = Returns (None, ps', h')" by blast
  have u: "list_all (idle sys to) ps" using Priority.prems(1) by simp
  have "\<forall>p \<in> set ps. \<forall>h P' h'. idle sys to p \<longrightarrow>
                 Provider_Load sys p h = Returns (None, P', h') \<longrightarrow> deref h' to = deref h to"
    using Priority.IH by blast
  from Providers_Load_idle [OF this u load] show ?case .
qed

lemma FlagProvider_Var_defined_panics:
  assumes "formal (fs f) (normalizeName n) \<noteq> None"
  shows "\<exists>x. FlagProvider_Var v n r f h = Panics x"
  using assms
  by (cases v)
     (auto simp: FlagProvider_StringVar_def FlagProvider_IntVar_def FlagProvider_BoolVar_def
                 FlagSet_StringVar_def FlagSet_IntVar_def FlagSet_BoolVar_def FlagSet_Var_def Let_def
           split: option.splits)

lemma FlagProvider_Var_keeps:
  assumes "FlagProvider_Var v n r f h = Returns (f', h')" and "formal (fs f) k \<noteq> None"
  shows "formal (fs f') k \<noteq> None"
  using FlagProvider_Var_Returns [OF assms(1)] assms(2) by auto

lemma Providers_Var_defines:
  assumes IH: "\<forall>p \<in> set ps. \<forall>h P' h'. has_flag p \<or> flag_defined k p \<longrightarrow>
                 Provider_Var v n r p h = Returns (P', h') \<longrightarrow>
                 (has_flag p \<longrightarrow> flag_defined (normalizeName n) P')
                 \<and> (flag_defined k p \<longrightarrow> flag_defined k P')"
  shows "Providers_Var v n r ps h = Returns (ps', h') \<Longrightarrow>
           (list_ex has_flag ps \<longrightarrow> list_ex (flag_defined (normalizeName n)) ps')
           \<and> (list_ex (flag_defined k) ps \<longrightarrow> list_ex (flag_defined k) ps')"
  using IH
proof (induction ps arbitrary: h ps' h')
  case Nil
  from Nil.prems(1) have "ps' = []" by simp
  then show ?case by simp
next
  case (Cons p ps)
  from Providers_Var_Cons [OF Cons.prems(1)] obtain p1 h1 ps1 where
    one: "Provider_Var v n r p h = Returns (p1, h1)"
    and more: "Providers_Var v n r ps h1 = Returns (ps1, h')"
    and ps': "ps' = p1 # ps1"
    by blast
  note head = Ball_Cons_head [OF Cons.prems(2), rule_format, OF _ one]
  have a: "has_flag p \<longrightarrow> flag_defined (normalizeName n) p1"
    using head by blast
  have b: "flag_defined k p \<longrightarrow> flag_defined k p1"
    using head by blast
  from Cons.IH [OF more Ball_Cons_tail [OF Cons.prems(2)]] have
    c: "(list_ex has_flag ps \<longrightarrow> list_ex (flag_defined (normalizeName n)) ps1)
        \<and> (list_ex (flag_defined k) ps \<longrightarrow> list_ex (flag_defined k) ps1)" .
  from a b c show ?case unfolding ps' by (auto simp del: flag_defined.simps)
qed

lemma Provider_Var_defines:
  "has_flag P \<or> flag_defined k P \<Longrightarrow> Provider_Var v n r P h = Returns (P', h') \<Longrightarrow>
     (has_flag P \<longrightarrow> flag_defined (normalizeName n) P') \<and> (flag_defined k P \<longrightarrow> flag_defined k P')"
proof (induction P arbitrary: h P' h')
  case (Env e)
  then show ?case by simp
next
  case (Flag f)
  from Provider_Var_Flag [OF Flag.prems(2)] obtain f' where
    f': "FlagProvider_Var v n r f h = Returns (f', h')" and P': "P' = Flag f'"
    by blast
  from FlagProvider_Var_defined [OF f'] FlagProvider_Var_keeps [OF f', of k]
  show ?case unfolding P' by simp
next
  case (Priority m ps required missing hint)
  from Provider_Var_Priority [OF Priority.prems(2)] obtain ps' where
    ps': "Providers_Var v n r ps h = Returns (ps', h')"
    and P': "P' = Priority ((n, var_typ v) # m) ps' (if r then required @ [n] else required) missing hint"
    by blast
  have "\<forall>p \<in> set ps. \<forall>h P' h'. has_flag p \<or> flag_defined k p \<longrightarrow>
                 Provider_Var v n r p h = Returns (P', h') \<longrightarrow>
                 (has_flag p \<longrightarrow> flag_defined (normalizeName n) P')
                 \<and> (flag_defined k p \<longrightarrow> flag_defined k P')"
    using Priority.IH by blast
  from Providers_Var_defines [OF this ps'] show ?case by (simp add: P')
qed

lemma Providers_Var_defined_panics:
  assumes IH: "\<forall>p \<in> set ps. flag_defined (normalizeName n) p \<longrightarrow>
                 (\<forall>h. \<exists>x. Provider_Var v n r p h = Panics x)"
  shows "list_ex (flag_defined (normalizeName n)) ps \<Longrightarrow> \<exists>x. Providers_Var v n r ps h = Panics x"
  using IH
proof (induction ps arbitrary: h)
  case Nil
  then show ?case by simp
next
  case (Cons p ps)
  show ?case
  proof (cases "Provider_Var v n r p h")
    case (Panics x)
    then show ?thesis by simp
  next
    case (Returns res)
    obtain p1 h1 where res: "res = (p1, h1)" by (cases res)
    have "\<not> flag_defined (normalizeName n) p"
    proof
      assume "flag_defined (normalizeName n) p"
      from Ball_Cons_head [OF Cons.prems(2), rule_format, OF this, of h] Returns
      show False by simp
    qed
    with Cons.prems(1) have "list_ex (flag_defined (normalizeName n)) ps" by simp
    from Cons.IH [OF this Ball_Cons_tail [OF Cons.prems(2)], of h1]
    obtain x where "Providers_Var v n r ps h1 = Panics x" by blast
    with Returns res show ?thesis by simp
  qed
qed

lemma Provider_Var_defined_panics:
  "flag_defined (normalizeName n) P \<Longrightarrow> \<exists>x. Provider_Var v n r P h = Panics x"
proof (induction P arbitrary: h)
  case (Env e)
  then show ?case by simp
next
  case (Flag f)
  then have "formal (fs f) (normalizeName n) \<noteq> None" by simp
  from FlagProvider_Var_defined_panics [OF this, of v r h] show ?case by auto
next
  case (Priority m ps required missing hint)
  then have ex: "list_ex (flag_defined (normalizeName n)) ps" by simp
  have "\<forall>p \<in> set ps. flag_defined (normalizeName n) p \<longrightarrow>
                 (\<forall>h. \<exists>x. Provider_Var v n r p h = Panics x)"
    using Priority.IH by blast
  from Providers_Var_defined_panics [OF this ex, of h] show ?case by auto
qed

lemma Providers_Var_env_only:
  assumes IH: "\<forall>p \<in> set ps. \<not> has_flag p \<longrightarrow>
                 (\<forall>h. \<exists>P'. Provider_Var v n r p h = Returns (P', h)
                         \<and> \<not> has_flag P' \<and> has_env P' = has_env p)"
  shows "\<not> list_ex has_flag ps \<Longrightarrow>
           \<exists>ps'. Providers_Var v n r ps h = Returns (ps', h)
              \<and> \<not> list_ex has_flag ps' \<and> list_ex has_env ps' = list_ex has_env ps"
  using IH
proof (induction ps)
  case Nil
  then show ?case by simp
next
  case (Cons p ps)
  from Cons.prems(1) have np: "\<not> has_flag p" and nps: "\<not> list_ex has_flag ps" by simp_all
  from Ball_Cons_head [OF Cons.prems(2), rule_format, OF np, of h] obtain p1 where
    one: "Provider_Var v n r p h = Returns (p1, h)" and a: "\<not> has_flag p1" "has_env p1 = has_env p"
    by blast
  from Cons.IH [OF nps Ball_Cons_tail [OF Cons.prems(2)]] obtain ps1 where
    more: "Providers_Var v n r ps h = Returns (ps1, h)"
    and b: "\<not> list_ex has_flag ps1" "list_ex has_env ps1 = list_ex has_env ps"
    by blast
  from one more a b show ?case by simp
qed

lemma Provider_Var_env_only:
  "\<not> has_flag P \<Longrightarrow>
     \<exists>P'. Provider_Var v n r P h = Returns (P', h) \<and> \<not> has_flag P' \<and> has_env P' = has_env P"
proof (induction P arbitrary: h)
  case (Env e)
  then show ?case by simp
next
  case (Flag f)
  then show ?case by simp
next
  case (Priority m ps required missing hint)
  then have n: "\<not> list_ex has_flag ps" by simp
  have "\<forall>p \<in> set ps. \<not> has_flag p \<longrightarrow>
                 (\<forall>h. \<exists>P'. Provider_Var v n r p h = Returns (P', h)
                         \<and> \<not> has_flag P' \<and> has_env P' = has_env p)"
    using Priority.IH by blast
  from Providers_Var_env_only [OF this n, of h] obtain ps' where
    "Providers_Var v n r ps h = Returns (ps', h)" "\<not> list_ex has_flag ps'"
    "list_ex has_env ps' = list_ex has_env ps"
    by blast
  then show ?case by simp
qed

lemma flag_defined_has_flag: "flag_defined k P \<Longrightarrow> has_flag P"
  by (induction P) (auto simp: list_ex_iff)

lemma run_steps_zero_pre:
  assumes "run_steps ss c h = Returns (None, c', h')"
    and "\<forall>v n r. Register v n r \<in> set ss \<longrightarrow> n \<noteq> name \<and> target (var_typ v) \<noteq> target to"
    and "unrecorded name c"
  shows "unrecorded name c' \<and> deref h' to = deref h to"
  using assms
proof (induction ss arbitrary: c h)
  case Nil
  then show ?case by simp
next
  case (Cons st ss)
  show ?case
  proof (cases st)
    case (Register v n r)
    from run_steps_Register [OF Cons.prems(1) [unfolded Register]] obtain c1 h1 where
      one: "Provider_Var v n r c h = Returns (c1, h1)"
      and more: "run_steps ss c1 h1 = Returns (None, c', h')"
      by blast
    from Cons.prems(2) Register have ne: "n \<noteq> name" and tg: "target (var_typ v) \<noteq> target to"
      and others: "\<forall>v n r. Register v n r \<in> set ss \<longrightarrow> n \<noteq> name \<and> target (var_typ v) \<noteq> target to"
      by auto
    from Provider_Var_zero_pre [OF ne tg Cons.prems(3) one] have
      a: "unrecorded name c1" "deref h1 to = deref h to"
      by blast+
    from Cons.IH [OF more others a(1)] a(2) show ?thesis by simp
  next
    case (Fails e)
    with Cons.prems(1) show ?thesis by simp
  next
    case (Crashes x)
    with Cons.prems(1) show ?thesis by simp
  qed
qed

lemma run_steps_idle_post:
  assumes "run_steps ss c h = Returns (None, c', h')"
    and "\<forall>v n r. Register v n r \<in> set ss \<longrightarrow> target (var_typ v) \<noteq> target to"
    and "idle sys to c"
  shows "idle sys to c' \<and> deref h' to = deref h to"
  using assms
proof (induction ss arbitrary: c h)
  case Nil
  then show ?case by simp
next
  case (Cons st ss)
  show ?case
  proof (cases st)
    case (Register v n r)
    from run_steps_Register [OF Cons.prems(1) [unfolded Register]] obtain c1 h1 where
      one: "Provider_Var v n r c h = Returns (c1, h1)"
      and more: "run_steps ss c1 h1 = Returns (None, c', h')"
      by blast
    from Cons.prems(2) Register have tg: "target (var_typ v) \<noteq> target to"
      and others: "\<forall>v n r. Register v n r \<in> set ss \<longrightarrow> target (var_typ v) \<noteq> target to"
      by auto
    from Provider_Var_idle_post [OF tg Cons.prems(3) one] have
      a: "idle sys to c1" "deref h1 to = deref h to"
      by blast+
    from Cons.IH [OF more others a(1)] a(2) show ?thesis by simp
  next
    case (Fails e)
    with Cons.prems(1) show ?thesis by simp
  next
    case (Crashes x)
    with Cons.prems(1) show ?thesis by simp
  qed
qed

lemma run_steps_keeps_flag:
  assumes "run_steps ss c h = Returns (None, c', h')" and "flag_defined k c"
  shows "flag_defined k c'"
  using assms
proof (induction ss arbitrary: c h)
  case Nil
  then show ?case by simp
next
  case (Cons st ss)
  show ?case
  proof (cases st)
    case (Register v n r)
    from run_steps_Register [OF Cons.prems(1) [unfolded Register]] obtain c1 h1 where
      one: "Provider_Var v n r c h = Returns (c1, h1)"
      and more: "run_steps ss c1 h1 = Returns (None, c', h')"
      by blast
    from Provider_Var_defines [OF _ one, of k] Cons.prems(2) have "flag_defined k c1" by blast
    from Cons.IH [OF more this] show ?thesis .
  next
    case (Fails e)
    with Cons.prems(1) show ?thesis by simp
  next
    case (Crashes x)
    with Cons.prems(1) show ?thesis by simp
  qed
qed

lemma run_steps_defines:
  assumes "run_steps ss c h = Returns (None, c', h')" and "has_flag c"
    and "Register v n r \<in> set ss"
  shows "flag_defined (normalizeName n) c'"
  using assms
proof (induction ss arbitrary: c h)
  case Nil
  then show ?case by simp
next
  case (Cons st ss)
  show ?case
  proof (cases st)
    case (Register v1 n1 r1)
    from run_steps_Register [OF Cons.prems(1) [unfolded Register]] obtain c1 h1 where
      one: "Provider_Var v1 n1 r1 c h = Returns (c1, h1)"
      and more: "run_steps ss c1 h1 = Returns (None, c', h')"
      by blast
    from Provider_Var_defines [OF _ one, of "normalizeName n1"] Cons.prems(2)
    have d: "flag_defined (normalizeName n1) c1" by blast
    then have f1: "has_flag c1" by (rule flag_defined_has_flag)
    show ?thesis
    proof (cases "Register v n r \<in> set ss")
      case True
      from Cons.IH [OF more f1 True] show ?thesis .
    next
      case False
      with Cons.prems(3) Register have "n = n1" by simp
      with run_steps_keeps_flag [OF more d] show ?thesis by simp
    qed
  next
    case (Fails e)
    with Cons.prems(1) show ?thesis by simp
  next
    case (Crashes x)
    with Cons.prems(1) show ?thesis by simp
  qed
qed

lemma run_steps_required:
  assumes "run_steps ss c h = Returns (None, c', h')" and "\<forall>p. c \<noteq> Flag p"
    and "\<forall>v n r. Register v n r \<in> set ss \<longrightarrow> n \<noteq> name"
  shows "name \<in> set (Provider_required c') \<longleftrightarrow> name \<in> set (Provider_required c)"
  using assms
proof (induction ss arbitrary: c h)
  case Nil
  then show ?case by simp
next
  case (Cons st ss)
  show ?case
  proof (cases st)
    case (Register v n r)
    from run_steps_Register [OF Cons.prems(1) [unfolded Register]] obtain c1 h1 where
      one: "Provider_Var v n r c h = Returns (c1, h1)"
      and more: "run_steps ss c1 h1 = Returns (None, c', h')"
      by blast
    note top = Provider_Var_top [OF one Cons.prems(2)]
    from Cons.prems(3) Register have ne: "n \<noteq> name"
      and others: "\<forall>v n r. Register v n r \<in> set ss \<longrightarrow> n \<noteq> name" by auto
    from top have top1: "\<forall>p. c1 \<noteq> Flag p" by simp
    from Cons.IH [OF more top1 others] top ne show ?thesis by auto
  next
    case (Fails e)
    with Cons.prems(1) show ?thesis by simp
  next
    case (Crashes x)
    with Cons.prems(1) show ?thesis by simp
  qed
qed

lemma initial_provider_required: "Provider_required (initial_provider sys hint opts) = []"
proof (cases opts rule: rev_cases)
  case Nil
  then show ?thesis by (simp add: initial_provider_def NewEnvProvider_def)
next
  case (snoc os' opt)
  then show ?thesis
    by (cases opt) (simp add: initial_provider_def NewPriorityProvider_def)
qed

lemma initial_provider_shape:
  "(opts = [] \<and> initial_provider sys hint opts = Env (NewEnvProvider (Getenv sys) hint))
   \<or> (\<exists>ps hint'. initial_provider sys hint opts = Priority [] ps [] [] hint')"
proof (cases opts rule: rev_cases)
  case Nil
  then show ?thesis by (simp add: initial_provider_def)
next
  case (snoc os' opt)
  then show ?thesis
    by (cases opt) (simp add: initial_provider_def NewPriorityProvider_def)
qed

lemma composer_missing_iff:
  assumes load: "Provider_Load sys (Priority m ps required missing hint) h = Returns (None, P', h')"
    and bound: "map_of m name = Some to"
    and fresh: "name \<notin> set missing"
  shows "name \<in> set (Provider_Missing P') \<longleftrightarrow> Empty h' to \<and> name \<in> set required"
proof -
  from Provider_Load_Priority [OF load] obtain ps' where
    P': "P' = Priority m ps' required (missing @ range_missing h' required (range_order hint m)) hint"
    by blast
  from bound have "name \<in> set (range_missing h' required (range_order hint m))
      \<longleftrightarrow> Empty h' to \<and> name \<in> set required"
    by (auto simp: range_missing_iff range_order_iff)
  with fresh show ?thesis by (simp add: P')
qed


section \<open>Claim C3: defaults\<close>

lemma run_steps_has_flag:
  assumes "run_steps ss c h = Returns (None, c', h')" and "has_flag c"
  shows "has_flag c'"
  using assms
proof (induction ss arbitrary: c h)
  case Nil
  then show ?case by simp
next
  case (Cons st ss)
  show ?case
  proof (cases st)
    case (Register v n r)
    from run_steps_Register [OF Cons.prems(1) [unfolded Register]] obtain c1 h1 where
      one: "Provider_Var v n r c h = Returns (c1, h1)"
      and more: "run_steps ss c1 h1 = Returns (None, c', h')"
      by blast
    from Provider_Var_defines [OF _ one, of "normalizeName n"] Cons.prems(2)
    have "flag_defined (normalizeName n) c1" by blast
    then have "has_flag c1" by (rule flag_defined_has_flag)
    from Cons.IH [OF more this] show ?thesis .
  next
    case (Fails e)
    with Cons.prems(1) show ?thesis by simp
  next
    case (Crashes x)
    with Cons.prems(1) show ?thesis by simp
  qed
qed

lemma deref_Empty_iff: "deref h to = Some v \<Longrightarrow> Empty h to \<longleftrightarrow> v = VString []"
  by (auto simp: deref_def target_def Empty_def split: option.splits Kind.splits if_splits)

lemma zero_default_empty: "zero_default v \<Longrightarrow> var_default v = VString [] \<longleftrightarrow> kind (var_typ v) = KString"
  by (cases v) (auto simp: typ_string_def typ_int_def)

text \<open>The part of the binding and of the resolution that every case shares.\<close>

lemma binding_parts:
  assumes fields: "fields_steps False flds = pre @ Register v0 name req # post"
    and later: "\<forall>v n r. Register v n r \<in> set post \<longrightarrow> n \<noteq> name"
    and bind: "LoadFields False flds (initial_provider sys hint opts) h = Returns (None, c1, h1)"
  shows "\<exists>ca ha cb hb.
           run_steps pre (initial_provider sys hint opts) h = Returns (None, ca, ha)
         \<and> Provider_Var v0 name req ca ha = Returns (cb, hb)
         \<and> run_steps post cb hb = Returns (None, c1, h1)
         \<and> (\<forall>p. ca \<noteq> Flag p) \<and> (\<forall>p. cb \<noteq> Flag p) \<and> (\<forall>p. c1 \<noteq> Flag p)
         \<and> Provider_Missing c1 = []
         \<and> map_of (Provider_m c1) name = Some (var_typ v0)
         \<and> Provider_required cb = Provider_required ca @ (if req then [name] else [])
         \<and> (name \<in> set (Provider_required c1) \<longleftrightarrow> name \<in> set (Provider_required cb))"
proof -
  let ?c0 = "initial_provider sys hint opts"
  from bind fields have run: "run_steps (pre @ Register v0 name req # post) ?c0 h
      = Returns (None, c1, h1)"
    by (simp add: LoadFields_steps)
  then obtain ca ha where pre: "run_steps pre ?c0 h = Returns (None, ca, ha)"
    and rest: "run_steps (Register v0 name req # post) ca ha = Returns (None, c1, h1)"
    by (auto simp: run_steps_append split: exec.splits option.splits prod.splits)
  from run_steps_Register [OF rest] obtain cb hb where
    one: "Provider_Var v0 name req ca ha = Returns (cb, hb)"
    and post: "run_steps post cb hb = Returns (None, c1, h1)"
    by blast
  have top0: "\<forall>p. ?c0 \<noteq> Flag p" and mis0: "Provider_Missing ?c0 = []"
    using initial_provider_top by blast+
  from run_steps_shape [OF pre top0] mis0 have topa: "\<forall>p. ca \<noteq> Flag p"
    and misa: "Provider_Missing ca = []" by simp_all
  note topb = Provider_Var_top [OF one topa]
  then have bound_b: "map_of (Provider_m cb) name = Some (var_typ v0)"
    and top_b: "\<forall>p. cb \<noteq> Flag p" and misb: "Provider_Missing cb = []"
    and reqb: "Provider_required cb = Provider_required ca @ (if req then [name] else [])"
    using misa by simp_all
  from run_steps_binding [OF post top_b later] bound_b
  have bound: "map_of (Provider_m c1) name = Some (var_typ v0)" by simp
  from run_steps_shape [OF post top_b] misb
  have top1: "\<forall>p. c1 \<noteq> Flag p" and mis1: "Provider_Missing c1 = []" by simp_all
  note req1 = run_steps_required [OF post top_b later]
  from pre one post topa top_b top1 mis1 bound reqb req1 show ?thesis by blast
qed

lemma round_trip_recorded:
  assumes fields: "fields_steps False flds = pre @ Register v0 name req # post"
    and dflt: "fallback_registered v0"
    and slot: "target (var_typ v0) = Some s"
    and before: "\<forall>v n r. Register v n r \<in> set pre \<longrightarrow> target (var_typ v) \<noteq> Some s"
    and later: "\<forall>v n r. Register v n r \<in> set post \<longrightarrow> n \<noteq> name \<and> target (var_typ v) \<noteq> Some s"
    and fresh: "unused s (initial_provider sys hint opts)"
    and absent: "unsupplied sys name (initial_provider sys hint opts)"
    and source: "has_env (initial_provider sys hint opts) \<or> has_flag (initial_provider sys hint opts)"
    and bind: "LoadFields False flds (initial_provider sys hint opts) h = Returns (None, c1, h1)"
    and load: "Provider_Load sys c1 h1 = Returns (None, c2, h2)"
  shows "deref h2 (var_typ v0) = Some (var_default v0) \<and> name \<notin> set (Provider_Missing c2)"
proof -
  let ?c0 = "initial_provider sys hint opts"
  let ?to = "var_typ v0"
  let ?d = "var_default v0"
  from later have later_n: "\<forall>v n r. Register v n r \<in> set post \<longrightarrow> n \<noteq> name" by blast
  from binding_parts [OF fields later_n bind] obtain ca ha cb hb where
    pre: "run_steps pre ?c0 h = Returns (None, ca, ha)"
    and one: "Provider_Var v0 name req ca ha = Returns (cb, hb)"
    and post: "run_steps post cb hb = Returns (None, c1, h1)"
    and top1: "\<forall>p. c1 \<noteq> Flag p" and mis1: "Provider_Missing c1 = []"
    and bound: "map_of (Provider_m c1) name = Some ?to"
    by blast
  from run_steps_pre [OF pre before fresh absent] have
    a: "unused s ca" "unsupplied sys name ca" "has_env ca = has_env ?c0" "has_flag ca = has_flag ?c0"
    by blast+
  from Provider_Var_own [OF dflt slot a(1,2) one] have
    b: "ready sys name ?to ?d cb" "has_flag ca \<longrightarrow> deref hb ?to = Some ?d"
      "has_env cb = has_env ca"
    by blast+
  from later slot have later_t:
    "\<forall>v n r. Register v n r \<in> set post \<longrightarrow> n \<noteq> name \<and> target (var_typ v) \<noteq> target ?to"
    by simp
  from run_steps_post [OF post later_t b(1)] have
    c: "ready sys name ?to ?d c1" "deref h1 ?to = deref hb ?to" "has_env c1 = has_env cb"
    by blast+
  from Provider_Load_ready [OF c(1) load] have
    d: "deref h1 ?to = Some ?d \<longrightarrow> deref h2 ?to = Some ?d" "has_env c1 \<longrightarrow> deref h2 ?to = Some ?d"
    by blast+
  from source a(3,4) b(2,3) c(2,3) d have val: "deref h2 ?to = Some ?d" by auto
  from deref_full [OF val fallback_registered_full [OF dflt]] have full: "\<not> Empty h2 ?to" .
  from mis1 have "name \<notin> set (Provider_Missing c1)" by simp
  from not_missing [OF load top1 bound c(1) this full]
  have mis: "name \<notin> set (Provider_Missing c2)" .
  with val show ?thesis by blast
qed

lemma round_trip_zero:
  assumes fields: "fields_steps False flds = pre @ Register v0 name req # post"
    and zero: "zero_default v0"
    and slot: "target (var_typ v0) = Some s"
    and before: "\<forall>v n r. Register v n r \<in> set pre \<longrightarrow> target (var_typ v) \<noteq> Some s"
    and later: "\<forall>v n r. Register v n r \<in> set post \<longrightarrow> n \<noteq> name \<and> target (var_typ v) \<noteq> Some s"
    and fresh: "unused s (initial_provider sys hint opts)"
    and absent: "unsupplied sys name (initial_provider sys hint opts)"
    and source: "has_flag (initial_provider sys hint opts)"
    and unrec: "unrecorded name (initial_provider sys hint opts)"
    and bind: "LoadFields False flds (initial_provider sys hint opts) h = Returns (None, c1, h1)"
    and load: "Provider_Load sys c1 h1 = Returns (None, c2, h2)"
  shows "deref h2 (var_typ v0) = Some (var_default v0)
       \<and> (name \<in> set (Provider_Missing c2) \<longleftrightarrow> req \<and> var_default v0 = VString [])"
proof -
  let ?c0 = "initial_provider sys hint opts"
  let ?to = "var_typ v0"
  let ?d = "var_default v0"
  from later have later_n: "\<forall>v n r. Register v n r \<in> set post \<longrightarrow> n \<noteq> name" by blast
  from binding_parts [OF fields later_n bind] obtain ca ha cb hb where
    pre: "run_steps pre ?c0 h = Returns (None, ca, ha)"
    and one: "Provider_Var v0 name req ca ha = Returns (cb, hb)"
    and post: "run_steps post cb hb = Returns (None, c1, h1)"
    and topa: "\<forall>p. ca \<noteq> Flag p"
    and top1: "\<forall>p. c1 \<noteq> Flag p" and mis1: "Provider_Missing c1 = []"
    and bound: "map_of (Provider_m c1) name = Some ?to"
    and reqb: "Provider_required cb = Provider_required ca @ (if req then [name] else [])"
    and req1: "name \<in> set (Provider_required c1) \<longleftrightarrow> name \<in> set (Provider_required cb)"
    by blast
  have names: "\<forall>v n r. Register v n r \<in> set pre \<longrightarrow> n \<noteq> name"
  proof (intro allI impI notI)
    fix v n r assume "Register v n r \<in> set pre" and "n = name"
    with run_steps_defines [OF pre source] have "flag_defined (normalizeName name) ca" by blast
    from Provider_Var_defined_panics [OF this, of v0 req ha] one show False by simp
  qed
  with before slot have before_z:
    "\<forall>v n r. Register v n r \<in> set pre \<longrightarrow> n \<noteq> name \<and> target (var_typ v) \<noteq> target ?to"
    by simp
  have top0: "\<forall>p. ?c0 \<noteq> Flag p" using initial_provider_top by blast
  from run_steps_pre [OF pre before fresh absent] have
    a: "unused s ca" "unsupplied sys name ca" "has_flag ca = has_flag ?c0"
    by blast+
  from run_steps_zero_pre [OF pre before_z unrec] have a2: "unrecorded name ca" by blast
  from Provider_Var_zero_own [OF zero slot a(1,2) a2 one] a(3) source have
    b: "idle sys ?to cb" "deref hb ?to = Some ?d"
    by blast+
  from later slot have later_t:
    "\<forall>v n r. Register v n r \<in> set post \<longrightarrow> target (var_typ v) \<noteq> target ?to"
    by simp
  from run_steps_idle_post [OF post later_t b(1)] have
    c: "idle sys ?to c1" "deref h1 ?to = deref hb ?to"
    by blast+
  from Provider_Load_idle [OF c(1) load] c(2) b(2) have val: "deref h2 ?to = Some ?d" by simp
  from run_steps_required [OF pre top0 names] initial_provider_required [of sys hint opts]
  have "name \<notin> set (Provider_required ca)" by simp
  with reqb req1 have req_iff: "name \<in> set (Provider_required c1) \<longleftrightarrow> req" by simp
  from run_steps_has_flag [OF pre source] have "has_flag ca" .
  with a(3) have "has_flag ca" by simp
  from Provider_Var_defines [OF _ one, of "normalizeName name"] this
  have "flag_defined (normalizeName name) cb" by blast
  from run_steps_keeps_flag [OF post this] have f1: "has_flag c1" by (rule flag_defined_has_flag)
  with top1 obtain m ps required missing hint' where
    c1: "c1 = Priority m ps required missing hint'"
    by (cases c1) auto
  from bound mis1 req_iff c1 have
    "map_of m name = Some ?to" "name \<notin> set missing" "name \<in> set required \<longleftrightarrow> req"
    by simp_all
  from composer_missing_iff [OF load [unfolded c1] this(1,2)] this(3) deref_Empty_iff [OF val]
  have "name \<in> set (Provider_Missing c2) \<longleftrightarrow> req \<and> ?d = VString []" by auto
  with val show ?thesis by blast
qed

text \<open>
  Claim C3, as amended. Take a record in which the binder registers a parameter,
  required or not, and let no other field of the record, and no destination registered
  in the provider beforehand, designate the slot of the parameter; let no later field
  declare the name again; and let no source supply a value for the name. Let either the
  default be one that the environment source records (a text default that is not empty,
  an integer default that is not zero, any boolean default) and the provider be, or have
  among its members, an environment or an argument source; or the default be the zero
  value of a text or an integer (the empty text, the integer 0), the provider have an
  argument source among its members, and no environment source hold an earlier fallback
  for the name. If the binding of the record and \<open>Load\<close> of the provider succeed, the slot
  holds the default; the name is in the missing list only when the parameter is a
  required text parameter and its default is empty; and \<open>Load\<close> returns success when the
  missing list is empty and the one aggregate failure for the missing names otherwise.
\<close>

theorem C3_default_round_trip:
  assumes fields: "fields_steps False flds = pre @ Register v0 name req # post"
    and slot: "target (var_typ v0) = Some s"
    and before: "\<forall>v n r. Register v n r \<in> set pre \<longrightarrow> target (var_typ v) \<noteq> Some s"
    and later: "\<forall>v n r. Register v n r \<in> set post \<longrightarrow> n \<noteq> name \<and> target (var_typ v) \<noteq> Some s"
    and fresh: "unused s (initial_provider sys hint opts)"
    and absent: "unsupplied sys name (initial_provider sys hint opts)"
    and source: "fallback_registered v0
                   \<and> (has_env (initial_provider sys hint opts) \<or> has_flag (initial_provider sys hint opts))
                 \<or> zero_default v0 \<and> has_flag (initial_provider sys hint opts)
                   \<and> unrecorded name (initial_provider sys hint opts)"
    and bind: "LoadFields False flds (initial_provider sys hint opts) h = Returns (None, c1, h1)"
    and load: "Provider_Load sys c1 h1 = Returns (None, c2, h2)"
  shows "deref h2 (var_typ v0) = Some (var_default v0)
       \<and> (name \<in> set (Provider_Missing c2) \<longleftrightarrow> req \<and> var_default v0 = VString [])
       \<and> Load sys hint (StructPointer False flds) opts h =
           Returns (if Provider_Missing c2 = [] then None
                    else Some (errorString (''missing configuration parameters: ''
                                            @ Join (Provider_Missing c2) '', '')), h2)"
proof -
  have main: "deref h2 (var_typ v0) = Some (var_default v0)
       \<and> (name \<in> set (Provider_Missing c2) \<longleftrightarrow> req \<and> var_default v0 = VString [])"
  proof -
    consider (recorded) "fallback_registered v0"
        "has_env (initial_provider sys hint opts) \<or> has_flag (initial_provider sys hint opts)"
      | (zero) "zero_default v0" "has_flag (initial_provider sys hint opts)"
        "unrecorded name (initial_provider sys hint opts)"
      using source by blast
    then show ?thesis
    proof cases
      case recorded
      from round_trip_recorded [OF fields recorded(1) slot before later fresh absent recorded(2) bind load]
        fallback_registered_full [OF recorded(1)]
      show ?thesis by simp
    next
      case zero
      from round_trip_zero [OF fields zero(1) slot before later fresh absent zero(2,3) bind load]
      show ?thesis .
    qed
  qed
  from bind load have "Load sys hint (StructPointer False flds) opts h =
           Returns (if Provider_Missing c2 = [] then None
                    else Some (errorString (''missing configuration parameters: ''
                                            @ Join (Provider_Missing c2) '', '')), h2)"
    by (simp add: Load_def initial_provider_def Let_def)
  with main show ?thesis by blast
qed

text \<open>
  The claim as it is stated fails for the empty text default. The tag \<open>default=\<close> gives
  the binder the empty fallback, as a tag without a default does; the argument source
  stores it, the environment source records nothing, the slot is empty after \<open>Load\<close>, and
  the required parameter is reported missing.
\<close>

theorem C3_empty_default_counterexample:
  "returned (LoadAll bare_os (StructPointer False [Field True False TString ''name,required,default='' 0])
       zero_store)
     = Returns (Some (errorString ''missing configuration parameters: name''))"
  by code_simp

text \<open>
  The integer default 0 where only environment sources resolve is outside the amended
  claim. There the paths differ: with the default environment source alone the required
  parameter is reported missing, through \<open>LoadEnv\<close> it is not, and neither writes the
  slot. With an argument source among the members (\<open>LoadAll\<close>) the slot is set to 0.
\<close>

lemma zero_default_paths:
  "returned (Load bare_os [] (StructPointer False C3_zero_record) [] C3_preset)
     = Returns (Some (errorString ''missing configuration parameters: port''))"
  "returned (LoadEnv bare_os (StructPointer False C3_zero_record) (\<lambda>k. []) C3_preset) = Returns None"
  "map_option (\<lambda>h. ints h 1) (store_after (LoadEnv bare_os (StructPointer False C3_zero_record) (\<lambda>k. []) C3_preset))
     = Some 7"
  "returned (LoadAll bare_os (StructPointer False C3_zero_record) C3_preset) = Returns None"
  "map_option (\<lambda>h. ints h 1) (store_after (LoadAll bare_os (StructPointer False C3_zero_record) C3_preset))
     = Some 0"
  by code_simp+

lemma parseTag_host: "parseTag ''host,required,default=localhost'' = (''host'', True, ''localhost'')"
  by (simp add: parseTag_def Split_def HasPrefix_def TrimPrefix_def Let_def)

lemma C3_record_steps:
  "fields_steps False C3_record = [] @ Register (StringVar (Some 0) ''localhost'') ''host'' True # []"
  by (simp add: C3_record_def parseTag_host register_step_def field_pointer_def)

lemma C3_record_bind:
  "LoadFields False C3_record (initial_provider bare_os [] C3_options) zero_store
     = Returns (None, C3_bound, C3_store)"
  by (simp add: C3_record_def C3_options_def C3_bound_def C3_store_def initial_provider_def
        NewPriorityProvider_def parseTag_host register_field_def field_pointer_def
        NewFlagProvider_def FlagProvider_StringVar_def FlagSet_StringVar_def FlagSet_Var_def
        NewFlagSet_def normalizeName_def ReplaceAll_def HasPrefix_def Let_def)

lemma C3_bound_load:
  "\<exists>c2. Provider_Load bare_os C3_bound C3_store = Returns (None, c2, C3_store)
      \<and> Provider_Missing c2 = []"
  by (simp add: C3_bound_def C3_store_def EnvProvider_Load_def dotenv_stage_def EnvProvider_StringVar_def
        NewEnvProvider_def range_order_def range_keys_def map_keys_def rawVal_def
        uppersnake_host Let_def typ_string_def range_missing_def Empty_def zero_store_def
        FlagProvider_Load_def FlagSet_Parse_def FlagSet_parse.simps parseOne_def)

lemma parseTag_port: "parseTag ''port,required,default=0'' = (''port'', True, ''0'')"
  by (simp add: parseTag_def Split_def HasPrefix_def TrimPrefix_def Let_def)

lemma Atoi_0: "Atoi ''0'' = Inr 0"
  by (simp add: Atoi_def isDigit_def digitVal_def minInt_def maxInt_def)

lemma C3_zero_record_steps:
  "fields_steps False C3_zero_record = [] @ Register (IntVar (Some 1) 0) ''port'' True # []"
  by (simp add: C3_zero_record_def parseTag_port Atoi_0 register_step_def field_pointer_def)

lemma C3_zero_record_bind:
  "LoadFields False C3_zero_record (initial_provider bare_os [] C3_options) C3_preset
     = Returns (None, C3_zero_bound, C3_zero_store)"
  by (simp add: C3_zero_record_def C3_options_def C3_zero_bound_def C3_zero_store_def
        initial_provider_def Atoi_0
        NewPriorityProvider_def parseTag_port register_field_def field_pointer_def
        NewFlagProvider_def FlagProvider_IntVar_def FlagSet_IntVar_def FlagSet_Var_def
        NewFlagSet_def normalizeName_def ReplaceAll_def HasPrefix_def Let_def)

lemma C3_zero_bound_load:
  "\<exists>c2. Provider_Load bare_os C3_zero_bound C3_zero_store = Returns (None, c2, C3_zero_store)
      \<and> Provider_Missing c2 = []"
  by (simp add: C3_zero_bound_def EnvProvider_Load_def dotenv_stage_def EnvProvider_IntVar_def
        NewEnvProvider_def range_order_def range_keys_def map_keys_def rawVal_def
        uppersnake_port Let_def typ_int_def range_missing_def Empty_def
        FlagProvider_Load_def FlagSet_Parse_def FlagSet_parse.simps parseOne_def)

theorem C3_default_round_trip_witness:
  "fields_steps False C3_record = [] @ Register (StringVar (Some 0) ''localhost'') ''host'' True # []
   \<and> LoadFields False C3_record (initial_provider bare_os [] C3_options) zero_store
        = Returns (None, C3_bound, C3_store)
   \<and> (\<exists>c2. Provider_Load bare_os C3_bound C3_store = Returns (None, c2, C3_store)
          \<and> ''host'' \<notin> set (Provider_Missing c2))
   \<and> deref C3_store (typ_string (Some 0)) = Some (VString ''localhost'')
   \<and> Load bare_os [] (StructPointer False C3_record) C3_options zero_store
        = Returns (None, C3_store)
   \<and> fields_steps False C3_zero_record = [] @ Register (IntVar (Some 1) 0) ''port'' True # []
   \<and> LoadFields False C3_zero_record (initial_provider bare_os [] C3_options) C3_preset
        = Returns (None, C3_zero_bound, C3_zero_store)
   \<and> (\<exists>c2. Provider_Load bare_os C3_zero_bound C3_zero_store = Returns (None, c2, C3_zero_store)
          \<and> ''port'' \<notin> set (Provider_Missing c2))
   \<and> deref C3_preset (typ_int (Some 1)) = Some (VInt 7)
   \<and> deref C3_zero_store (typ_int (Some 1)) = Some (VInt 0)
   \<and> Load bare_os [] (StructPointer False C3_zero_record) C3_options C3_preset
        = Returns (None, C3_zero_store)"
proof -
  let ?c0 = "initial_provider bare_os [] C3_options"
  have c0: "?c0 = Priority [] [Env (NewEnvProvider (\<lambda>k. []) []), Flag (NewFlagProvider [] [])] [] [] []"
    by (simp add: initial_provider_def C3_options_def NewPriorityProvider_def)
  have source: "has_env ?c0 \<or> has_flag ?c0" "has_flag ?c0" by (simp_all add: c0)
  have nothing: "Register v n r \<notin> set []" for v n r by simp
  have unrec: "unrecorded ''port'' ?c0" by (simp add: c0 NewEnvProvider_def)
  obtain c2 where load: "Provider_Load bare_os C3_bound C3_store = Returns (None, c2, C3_store)"
    and mis: "Provider_Missing c2 = []"
    using C3_bound_load by blast
  have dflt: "fallback_registered (StringVar (Some 0) ''localhost'')" by simp
  have slot: "target (var_typ (StringVar (Some 0) ''localhost'')) = Some (KString, 0)"
    by (simp add: target_def typ_string_def)
  have before: "\<forall>v n r. Register v n r \<in> set [] \<longrightarrow> target (var_typ v) \<noteq> Some (KString, 0)"
    by simp
  have later: "\<forall>v n r. Register v n r \<in> set [] \<longrightarrow> n \<noteq> ''host'' \<and> target (var_typ v) \<noteq> Some (KString, 0)"
    by simp
  have fresh: "unused (KString, 0) ?c0"
    by (simp add: c0 NewEnvProvider_def NewFlagProvider_def NewFlagSet_def)
  have absent: "unsupplied bare_os ''host'' ?c0"
    by (simp add: c0 NewEnvProvider_def NewFlagProvider_def resolving_def dotenv_stage_def)
  from dflt source(1) have src:
    "fallback_registered (StringVar (Some 0) ''localhost'') \<and> (has_env ?c0 \<or> has_flag ?c0)
     \<or> zero_default (StringVar (Some 0) ''localhost'') \<and> has_flag ?c0 \<and> unrecorded ''host'' ?c0"
    by blast
  from C3_default_round_trip [OF C3_record_steps slot before later fresh absent src
      C3_record_bind load]
  have "deref C3_store (var_typ (StringVar (Some 0) ''localhost''))
          = Some (var_default (StringVar (Some 0) ''localhost''))"
    and "''host'' \<in> set (Provider_Missing c2) \<longleftrightarrow>
           True \<and> var_default (StringVar (Some 0) ''localhost'') = VString []"
    and "Load bare_os [] (StructPointer False C3_record) C3_options zero_store =
           Returns (if Provider_Missing c2 = [] then None
                    else Some (errorString (''missing configuration parameters: ''
                                            @ Join (Provider_Missing c2) '', '')), C3_store)"
    by blast+
  with mis C3_record_steps C3_record_bind load have text_part:
    "\<exists>c2. Provider_Load bare_os C3_bound C3_store = Returns (None, c2, C3_store)
          \<and> ''host'' \<notin> set (Provider_Missing c2)"
    "deref C3_store (typ_string (Some 0)) = Some (VString ''localhost'')"
    "Load bare_os [] (StructPointer False C3_record) C3_options zero_store = Returns (None, C3_store)"
    by auto
  obtain c2z where loadz: "Provider_Load bare_os C3_zero_bound C3_zero_store = Returns (None, c2z, C3_zero_store)"
    and misz: "Provider_Missing c2z = []"
    using C3_zero_bound_load by blast
  have slotz: "target (var_typ (IntVar (Some 1) 0)) = Some (KInt, 1)"
    by (simp add: target_def typ_int_def)
  have beforez: "\<forall>v n r. Register v n r \<in> set [] \<longrightarrow> target (var_typ v) \<noteq> Some (KInt, 1)"
    by simp
  have laterz: "\<forall>v n r. Register v n r \<in> set [] \<longrightarrow> n \<noteq> ''port'' \<and> target (var_typ v) \<noteq> Some (KInt, 1)"
    by simp
  have freshz: "unused (KInt, 1) ?c0"
    by (simp add: c0 NewEnvProvider_def NewFlagProvider_def NewFlagSet_def)
  have absentz: "unsupplied bare_os ''port'' ?c0"
    by (simp add: c0 NewEnvProvider_def NewFlagProvider_def resolving_def dotenv_stage_def)
  from source(2) unrec have srcz:
    "fallback_registered (IntVar (Some 1) 0) \<and> (has_env ?c0 \<or> has_flag ?c0)
     \<or> zero_default (IntVar (Some 1) 0) \<and> has_flag ?c0 \<and> unrecorded ''port'' ?c0"
    by simp
  from C3_default_round_trip [OF C3_zero_record_steps slotz beforez laterz freshz absentz srcz
      C3_zero_record_bind loadz]
  have "deref C3_zero_store (var_typ (IntVar (Some 1) 0)) = Some (var_default (IntVar (Some 1) 0))"
    and "Load bare_os [] (StructPointer False C3_zero_record) C3_options C3_preset =
           Returns (if Provider_Missing c2z = [] then None
                    else Some (errorString (''missing configuration parameters: ''
                                            @ Join (Provider_Missing c2z) '', '')), C3_zero_store)"
    by blast+
  with misz loadz have zero_part:
    "\<exists>c2. Provider_Load bare_os C3_zero_bound C3_zero_store = Returns (None, c2, C3_zero_store)
          \<and> ''port'' \<notin> set (Provider_Missing c2)"
    "deref C3_zero_store (typ_int (Some 1)) = Some (VInt 0)"
    "Load bare_os [] (StructPointer False C3_zero_record) C3_options C3_preset = Returns (None, C3_zero_store)"
    by auto
  have preset: "deref C3_preset (typ_int (Some 1)) = Some (VInt 7)"
    by (simp add: deref_def target_def typ_int_def C3_preset_def)
  from C3_record_steps C3_record_bind text_part C3_zero_record_steps C3_zero_record_bind
    zero_part preset
  show ?thesis by blast
qed


section \<open>Claim C2: required text parameters\<close>

lemma run_steps_Env:
  assumes "run_steps ss (Env e) h = Returns (None, c', h')"
  shows "\<exists>e'. c' = Env e'"
  using assms
proof (induction ss arbitrary: e h)
  case Nil
  then show ?case by auto
next
  case (Cons st ss)
  show ?case
  proof (cases st)
    case (Register v n r)
    with Cons.prems have "run_steps ss (Env (EnvProvider_Var v n r e)) h = Returns (None, c', h')"
      by simp
    from Cons.IH [OF this] show ?thesis .
  next
    case (Fails x)
    with Cons.prems show ?thesis by simp
  next
    case (Crashes x)
    with Cons.prems show ?thesis by simp
  qed
qed

lemma deref_defined: "target to = Some s \<Longrightarrow> \<exists>v. deref h to = Some v"
  by (cases s) (simp add: deref_def)

lemma env_missing_reported:
  assumes load: "Provider_Load sys (Env e) h = Returns (None, P', h')"
    and bound: "map_of (env_m e) name = Some to"
    and raw: "rawVal (resolving sys e) name = []"
    and req: "name \<in> set (env_required e)"
  shows "name \<in> set (Provider_Missing P')"
proof -
  obtain er pe where stage: "dotenv_stage sys e = (er, pe)" by (cases "dotenv_stage sys e")
  have same: "env_m pe = env_m e" "env_missing pe = env_missing e" "env_hint pe = env_hint e"
    "env_required pe = env_required e"
    using dotenv_stage_same [OF stage] by simp_all
  have pe: "resolving sys e = pe" using stage by (simp add: resolving_def)
  let ?es = "range_order (env_hint e) (env_m e)"
  from load stage same obtain mis' where
    run: "env_range pe ?es (env_missing e) h = Returns (None, mis', h')"
    and P': "P' = Env (pe\<lparr>env_missing := mis'\<rparr>)"
    by (auto simp: EnvProvider_Load_def split: option.splits exec.splits)
  have in_es: "(name, to) \<in> set ?es" using bound by (simp add: range_order_iff)
  from env_range_missing [OF run] obtain new where
    "mis' = env_missing e @ new"
    "new = map fst (filter (\<lambda>(n, t). rawVal pe n = [] \<and> n \<in> set (env_required pe)) ?es)"
    by blast
  moreover have "(name, to) \<in> set (filter (\<lambda>(n, t). rawVal pe n = [] \<and> n \<in> set (env_required pe)) ?es)"
    using in_es raw req same pe by simp
  ultimately have "name \<in> set mis'" by force
  then show ?thesis by (simp add: P' EnvProvider_Missing_def)
qed

lemma required_text_missing:
  assumes fields: "fields_steps False flds = pre @ Register (StringVar to []) name True # post"
    and slot: "target (typ_string to) = Some s"
    and others: "\<forall>v n r. Register v n r \<in> set (pre @ post) \<longrightarrow> n \<noteq> name \<and> target (var_typ v) \<noteq> Some s"
    and fresh: "unused s (initial_provider sys hint opts)"
    and absent: "unsupplied sys name (initial_provider sys hint opts)"
    and unrec: "unrecorded name (initial_provider sys hint opts)"
    and path: "opts = [] \<or> has_flag (initial_provider sys hint opts) \<or> Empty h (typ_string to)"
    and bind: "LoadFields False flds (initial_provider sys hint opts) h = Returns (None, c1, h1)"
    and load: "Provider_Load sys c1 h1 = Returns (None, c2, h2)"
  shows "name \<in> set (Provider_Missing c2)"
proof -
  let ?c0 = "initial_provider sys hint opts"
  let ?v0 = "StringVar to []"
  let ?to = "typ_string to"
  have vt: "var_typ ?v0 = ?to" and zero: "zero_default ?v0" and kind: "kind ?to = KString"
    by (simp_all add: typ_string_def)
  from others have later_n: "\<forall>v n r. Register v n r \<in> set post \<longrightarrow> n \<noteq> name"
    and before: "\<forall>v n r. Register v n r \<in> set pre \<longrightarrow> target (var_typ v) \<noteq> Some s"
    and before_z: "\<forall>v n r. Register v n r \<in> set pre \<longrightarrow> n \<noteq> name \<and> target (var_typ v) \<noteq> target ?to"
    and later_t: "\<forall>v n r. Register v n r \<in> set post \<longrightarrow> target (var_typ v) \<noteq> target ?to"
    using slot by auto
  from binding_parts [OF fields later_n bind] obtain ca ha cb hb where
    pre: "run_steps pre ?c0 h = Returns (None, ca, ha)"
    and one: "Provider_Var ?v0 name True ca ha = Returns (cb, hb)"
    and post: "run_steps post cb hb = Returns (None, c1, h1)"
    and top1: "\<forall>p. c1 \<noteq> Flag p"
    and bound: "map_of (Provider_m c1) name = Some ?to"
    and reqb: "Provider_required cb = Provider_required ca @ (if True then [name] else [])"
    and req1: "name \<in> set (Provider_required c1) \<longleftrightarrow> name \<in> set (Provider_required cb)"
    unfolding vt by blast
  from reqb req1 have req: "name \<in> set (Provider_required c1)" by simp
  from run_steps_pre [OF pre before fresh absent] have
    a: "unused s ca" "unsupplied sys name ca" "has_flag ca = has_flag ?c0"
    by blast+
  from run_steps_zero_pre [OF pre before_z unrec] have
    a2: "unrecorded name ca" "deref ha ?to = deref h ?to" by blast+
  from Provider_Var_zero_own [OF zero slot [folded vt] a(1,2) a2(1) one] have
    b: "idle sys ?to cb" "has_flag ca \<longrightarrow> deref hb ?to = Some (VString [])"
      "\<not> has_flag ca \<longrightarrow> hb = ha"
    unfolding vt by simp_all
  from run_steps_idle_post [OF post later_t b(1)] have
    c: "idle sys ?to c1" "deref h1 ?to = deref hb ?to"
    by blast+
  from Provider_Load_idle [OF c(1) load] c(2) have d: "deref h2 ?to = deref hb ?to" by simp
  show ?thesis
  proof (cases "has_flag ?c0 \<or> Empty h ?to")
    case True
    have "Empty h2 ?to"
    proof (cases "has_flag ?c0")
      case True
      with a(3) b(2) d have "deref h2 ?to = Some (VString [])" by simp
      from deref_Empty_iff [OF this] show ?thesis by simp
    next
      case False
      with True have e: "Empty h ?to" by simp
      from False a(3) b(3) have "hb = ha" by simp
      with a2(2) d have same: "deref h2 ?to = deref h ?to" by simp
      from deref_defined [OF slot] obtain v where v: "deref h ?to = Some v" by blast
      from deref_Empty_iff [OF v] e have "v = VString []" by simp
      with v same have "deref h2 ?to = Some (VString [])" by simp
      from deref_Empty_iff [OF this] show ?thesis by simp
    qed
    from missing_reported [OF load bound kind req this] show ?thesis .
  next
    case False
    with path have "opts = []" by blast
    then have "?c0 = Env (NewEnvProvider (Getenv sys) hint)" by (simp add: initial_provider_def)
    with run_steps_Env [of pre _ h ca ha] pre obtain ea where ca: "ca = Env ea" by auto
    with one have "cb = Env (EnvProvider_Var ?v0 name True ea)" by simp
    with run_steps_Env [of post _ hb c1 h1] post obtain e1 where c1: "c1 = Env e1" by auto
    from bound c1 have b1: "map_of (env_m e1) name = Some ?to" by simp
    with c(1) c1 have raw: "rawVal (resolving sys e1) name = []" by simp
    from req c1 have "name \<in> set (env_required e1)" by simp
    from env_missing_reported [OF load [unfolded c1] b1 raw this] show ?thesis .
  qed
qed

text \<open>
  Claim C2, as amended. Take a record in which the binder registers a required text
  parameter without a default; let no other field of the record declare its name or
  designate its slot, let no destination registered in the provider beforehand designate
  the slot, and let no source supply a value or hold a fallback for the name. Let
  \<open>Load\<close> run with the default environment source, or with a provider that has an
  argument source among its members, or on a record whose field is empty. Then \<open>Load\<close>
  does not return success. When the binding of the record and \<open>Load\<close> of the provider
  succeed, \<open>Load\<close> returns the one aggregate failure for all missing names: its message
  is \<open>missing configuration parameters: \<close> followed by the missing list of the provider
  joined with a comma and a space, and it contains the declared name of the parameter.
\<close>

theorem C2_missing_required_text:
  assumes fields: "fields_steps False flds = pre @ Register (StringVar to []) name True # post"
    and slot: "target (typ_string to) = Some s"
    and others: "\<forall>v n r. Register v n r \<in> set (pre @ post) \<longrightarrow> n \<noteq> name \<and> target (var_typ v) \<noteq> Some s"
    and fresh: "unused s (initial_provider sys hint opts)"
    and absent: "unsupplied sys name (initial_provider sys hint opts)"
    and unrec: "unrecorded name (initial_provider sys hint opts)"
    and path: "opts = [] \<or> has_flag (initial_provider sys hint opts) \<or> Empty h (typ_string to)"
  shows "(\<forall>h'. Load sys hint (StructPointer False flds) opts h \<noteq> Returns (None, h'))
       \<and> (\<forall>c1 h1 c2 h2.
            LoadFields False flds (initial_provider sys hint opts) h = Returns (None, c1, h1)
            \<and> Provider_Load sys c1 h1 = Returns (None, c2, h2) \<longrightarrow>
              Load sys hint (StructPointer False flds) opts h =
                Returns (Some (errorString (''missing configuration parameters: ''
                                            @ Join (Provider_Missing c2) '', '')), h2)
            \<and> name \<in> set (Provider_Missing c2)
            \<and> Contains (''missing configuration parameters: '' @ Join (Provider_Missing c2) '', '') name)"
proof -
  have main: "Load sys hint (StructPointer False flds) opts h =
                Returns (Some (errorString (''missing configuration parameters: ''
                                            @ Join (Provider_Missing c2) '', '')), h2)
            \<and> name \<in> set (Provider_Missing c2)
            \<and> Contains (''missing configuration parameters: '' @ Join (Provider_Missing c2) '', '') name"
    if bind: "LoadFields False flds (initial_provider sys hint opts) h = Returns (None, c1, h1)"
      and load: "Provider_Load sys c1 h1 = Returns (None, c2, h2)"
    for c1 h1 c2 h2
  proof -
    from required_text_missing [OF fields slot others fresh absent unrec path bind load]
    have mis: "name \<in> set (Provider_Missing c2)" .
    then have "0 < length (Provider_Missing c2)" by (cases "Provider_Missing c2") auto
    with bind load have "Load sys hint (StructPointer False flds) opts h =
           Returns (Some (errorString (''missing configuration parameters: ''
                                       @ Join (Provider_Missing c2) '', '')), h2)"
      by (simp add: Load_def initial_provider_def Let_def)
    with mis Contains_Join [OF mis, of "''missing configuration parameters: ''" "'', ''"]
    show ?thesis by blast
  qed
  have "Load sys hint (StructPointer False flds) opts h \<noteq> Returns (None, h')" for h'
  proof
    assume ok: "Load sys hint (StructPointer False flds) opts h = Returns (None, h')"
    then obtain c1 h1 where bind: "LoadFields False flds (initial_provider sys hint opts) h = Returns (None, c1, h1)"
      by (auto simp: Load_def initial_provider_def Let_def
               split: exec.splits option.splits prod.splits if_splits)
    with ok obtain c2 h2 where load: "Provider_Load sys c1 h1 = Returns (None, c2, h2)"
      by (auto simp: Load_def initial_provider_def Let_def
               split: exec.splits option.splits prod.splits if_splits)
    from main [OF bind load] ok show False by simp
  qed
  with main show ?thesis by blast
qed

text \<open>
  The claim as it is stated fails for a field that holds a value before \<open>Load\<close>, through
  a composer that has environment sources only: no source assigns anything to the
  required text parameter, the composer finds the slot not empty, and \<open>Load\<close> succeeds.
\<close>

theorem C2_prepopulated_counterexample:
  "returned (LoadEnv bare_os (StructPointer False [Field True False TString ''field1,required'' 0])
       (\<lambda>k. []) (zero_store\<lparr>strings := (\<lambda>a. if a = 0 then ''preset'' else [])\<rparr>))
     = Returns None"
  by code_simp

text \<open>
  The same field through the other paths, which the amended claim covers: the default
  environment source reports the parameter missing whatever the field holds, and an
  argument source first stores the empty default in the field.
\<close>

lemma C2_preset_paths:
  "returned (Load bare_os [] (StructPointer False C2_record) [] C2_preset)
     = Returns (Some (errorString ''missing configuration parameters: field1''))"
  "returned (LoadFlags bare_os (StructPointer False C2_record) [] C2_preset)
     = Returns (Some (errorString ''missing configuration parameters: field1''))"
  by code_simp+

text \<open>
  When the resolution of another parameter fails, \<open>Load\<close> returns that failure, which
  does not name the missing parameter: the aggregate failure is returned only after the
  binding and the resolution have succeeded.
\<close>

lemma C2_other_failure_first:
  "returned (LoadEnv bare_os
       (StructPointer False [Field True False TString ''field1,required'' 0,
                             Field True False TInt ''port'' 1])
       (\<lambda>k. if k = ''PORT'' then ''abc'' else []) zero_store)
     = Returns (Some (wrapError ''failed to load configuration: ''
         (wrapError ''failed to load configuration with *conf.EnvProvider: ''
            (wrapError ''failed to parse port as int: '' (NumError ''Atoi'' ''abc'' ErrSyntax)))))"
  by code_simp

lemma parseTag_field1: "parseTag ''field1,required'' = (''field1'', True, [])"
  by (simp add: parseTag_def Split_def HasPrefix_def Let_def)

lemma C2_record_steps:
  "fields_steps False C2_record = [] @ Register (StringVar (Some 0) []) ''field1'' True # []"
  by (simp add: C2_record_def parseTag_field1 register_step_def field_pointer_def)

lemma C2_record_bind:
  "LoadFields False C2_record (initial_provider bare_os [] C2_options) zero_store
     = Returns (None, C2_bound, zero_store)"
  by (simp add: C2_record_def C2_options_def C2_bound_def initial_provider_def
        NewPriorityProvider_def parseTag_field1 register_field_def field_pointer_def)

lemma C2_bound_load:
  "\<exists>c2. Provider_Load bare_os C2_bound zero_store = Returns (None, c2, zero_store)
      \<and> Provider_Missing c2 = [''field1'']"
  by (simp add: C2_bound_def EnvProvider_Load_def dotenv_stage_def EnvProvider_StringVar_def
        NewEnvProvider_def range_order_def range_keys_def map_keys_def rawVal_def
        uppersnake_field1 Let_def typ_string_def range_missing_def Empty_def zero_store_def)

lemma C2_flag_bind:
  "LoadFields False C2_record (initial_provider bare_os [] C3_options) C2_preset
     = Returns (None, C2_flag_bound, C2_cleared)"
  by (simp add: C2_record_def C3_options_def C2_flag_bound_def C2_cleared_def initial_provider_def
        NewPriorityProvider_def parseTag_field1 register_field_def field_pointer_def
        NewFlagProvider_def FlagProvider_StringVar_def FlagSet_StringVar_def FlagSet_Var_def
        NewFlagSet_def normalizeName_def ReplaceAll_def HasPrefix_def Let_def)

lemma C2_flag_bound_load:
  "\<exists>c2. Provider_Load bare_os C2_flag_bound C2_cleared = Returns (None, c2, C2_cleared)
      \<and> Provider_Missing c2 = [''field1'']"
  by (simp add: C2_flag_bound_def C2_cleared_def C2_preset_def EnvProvider_Load_def dotenv_stage_def
        EnvProvider_StringVar_def
        NewEnvProvider_def range_order_def range_keys_def map_keys_def rawVal_def
        uppersnake_field1 Let_def typ_string_def range_missing_def Empty_def zero_store_def
        FlagProvider_Load_def FlagSet_Parse_def FlagSet_parse.simps parseOne_def)

theorem C2_missing_required_text_witness:
  "fields_steps False C2_record = [] @ Register (StringVar (Some 0) []) ''field1'' True # []
   \<and> Empty zero_store (typ_string (Some 0))
   \<and> LoadFields False C2_record (initial_provider bare_os [] C2_options) zero_store
        = Returns (None, C2_bound, zero_store)
   \<and> (\<exists>c2. Provider_Load bare_os C2_bound zero_store = Returns (None, c2, zero_store))
   \<and> Load bare_os [] (StructPointer False C2_record) C2_options zero_store
        = Returns (Some (errorString ''missing configuration parameters: field1''), zero_store)
   \<and> Contains ''missing configuration parameters: field1'' ''field1''
   \<and> deref C2_preset (typ_string (Some 0)) = Some (VString ''preset'')
   \<and> has_flag (initial_provider bare_os [] C3_options)
   \<and> LoadFields False C2_record (initial_provider bare_os [] C3_options) C2_preset
        = Returns (None, C2_flag_bound, C2_cleared)
   \<and> (\<exists>c2. Provider_Load bare_os C2_flag_bound C2_cleared = Returns (None, c2, C2_cleared))
   \<and> Load bare_os [] (StructPointer False C2_record) C3_options C2_preset
        = Returns (Some (errorString ''missing configuration parameters: field1''), C2_cleared)"
proof -
  let ?e0 = "initial_provider bare_os [] C2_options"
  let ?f0 = "initial_provider bare_os [] C3_options"
  have e0: "?e0 = Priority [] [Env (NewEnvProvider (\<lambda>k. []) [])] [] [] []"
    by (simp add: initial_provider_def C2_options_def NewPriorityProvider_def)
  have f0: "?f0 = Priority [] [Env (NewEnvProvider (\<lambda>k. []) []), Flag (NewFlagProvider [] [])] [] [] []"
    by (simp add: initial_provider_def C3_options_def NewPriorityProvider_def)
  have slot: "target (typ_string (Some 0)) = Some (KString, 0)"
    by (simp add: target_def typ_string_def)
  have others: "\<forall>v n r. Register v n r \<in> set ([] @ []) \<longrightarrow>
                  n \<noteq> ''field1'' \<and> target (var_typ v) \<noteq> Some (KString, 0)"
    by simp
  have empty: "Empty zero_store (typ_string (Some 0))"
    by (simp add: Empty_def typ_string_def zero_store_def)
  have fresh_e: "unused (KString, 0) ?e0" and absent_e: "unsupplied bare_os ''field1'' ?e0"
    and unrec_e: "unrecorded ''field1'' ?e0"
    by (simp_all add: e0 NewEnvProvider_def resolving_def dotenv_stage_def)
  have fresh_f: "unused (KString, 0) ?f0" and absent_f: "unsupplied bare_os ''field1'' ?f0"
    and unrec_f: "unrecorded ''field1'' ?f0" and flag_f: "has_flag ?f0"
    by (simp_all add: f0 NewEnvProvider_def NewFlagProvider_def NewFlagSet_def resolving_def
          dotenv_stage_def)
  obtain c2 where load: "Provider_Load bare_os C2_bound zero_store = Returns (None, c2, zero_store)"
    and mis: "Provider_Missing c2 = [''field1'']"
    using C2_bound_load by blast
  obtain c2f where loadf: "Provider_Load bare_os C2_flag_bound C2_cleared = Returns (None, c2f, C2_cleared)"
    and misf: "Provider_Missing c2f = [''field1'']"
    using C2_flag_bound_load by blast
  have path_e: "C2_options = [] \<or> has_flag ?e0 \<or> Empty zero_store (typ_string (Some 0))"
    using empty by simp
  have path_f: "C3_options = [] \<or> has_flag ?f0 \<or> Empty C2_preset (typ_string (Some 0))"
    using flag_f by simp
  from C2_missing_required_text [OF C2_record_steps slot others fresh_e absent_e unrec_e path_e]
    C2_record_bind load
  have "Load bare_os [] (StructPointer False C2_record) C2_options zero_store =
           Returns (Some (errorString (''missing configuration parameters: ''
                                       @ Join (Provider_Missing c2) '', '')), zero_store)"
    and "Contains (''missing configuration parameters: '' @ Join (Provider_Missing c2) '', '') ''field1''"
    by blast+
  with mis have part_e:
    "Load bare_os [] (StructPointer False C2_record) C2_options zero_store
       = Returns (Some (errorString ''missing configuration parameters: field1''), zero_store)"
    "Contains ''missing configuration parameters: field1'' ''field1''"
    by simp_all
  from C2_missing_required_text [OF C2_record_steps slot others fresh_f absent_f unrec_f path_f]
    C2_flag_bind loadf
  have "Load bare_os [] (StructPointer False C2_record) C3_options C2_preset =
           Returns (Some (errorString (''missing configuration parameters: ''
                                       @ Join (Provider_Missing c2f) '', '')), C2_cleared)"
    by blast
  with misf have part_f:
    "Load bare_os [] (StructPointer False C2_record) C3_options C2_preset
       = Returns (Some (errorString ''missing configuration parameters: field1''), C2_cleared)"
    by simp
  have preset: "deref C2_preset (typ_string (Some 0)) = Some (VString ''preset'')"
    by (simp add: deref_def target_def typ_string_def C2_preset_def)
  from C2_record_steps empty C2_record_bind load part_e preset flag_f C2_flag_bind loadf part_f
  show ?thesis by blast
qed


section \<open>Registering a name twice: sources without an argument source\<close>









section \<open>Claim C6: registering a name twice\<close>




text \<open>
  The fallback and the required mark of a first registration stay in effect in the
  environment source: after a required registration with the fallback \<open>old\<close> and a
  second one under the same name, not required and without a fallback, \<open>Load\<close> in an
  empty environment writes \<open>old\<close> to the destination of the second, and the name is
  still required.
\<close>

lemma C6_first_registration_lingers:
  "(case EnvProvider_Load bare_os
           (EnvProvider_Var (StringVar (Some 1) []) ''name'' False
              (EnvProvider_Var (StringVar (Some 0) ''old'') ''name'' True
                 (NewEnvProvider (\<lambda>k. []) []))) zero_store of
      Returns (e, p, h) \<Rightarrow> e = None \<and> strings h 0 = [] \<and> strings h 1 = ''old''
                             \<and> env_required p = [''name'']
    | Panics x \<Rightarrow> False)"
  by code_simp








end
